(* ===== verification/Prelude.thy ===== *)
theory Prelude
  imports Main "HOL-Library.Word"
begin

text \<open>
  Types and generic lemmas every component shares: machine integers at the width of the
  64-bit target, gRPC statuses, the three ways a tonic handler can end, requests with their
  extensions, and the small combinators that stand for Rust's \<open>?\<close>, \<open>map_err\<close> and \<open>ok_or\<close>.
  The collection \<open>rust_simps\<close> holds the unfolding rules of those combinators.
\<close>

named_theorems rust_simps \<open>unfolding rules of the Rust combinators\<close>

section \<open>Machine integers\<close>

text \<open>
  \<open>usize\<close> is 64 bits wide on the targets of the repository.  Signed and unsigned integers of
  one width share the word type: \<open>unat\<close> reads an unsigned one, \<open>sint\<close> a signed one.
\<close>

type_synonym u64 = "64 word"
type_synonym i64 = "64 word"
type_synonym usize = "64 word"
type_synonym u32 = "32 word"
type_synonym i32 = "32 word"

text \<open>\<open>i64::try_into::<usize>\<close> and \<open>i32::try_into::<usize>\<close>: negative values do not convert.\<close>

definition usize_of_i64 :: "i64 \<Rightarrow> usize option" where
  "usize_of_i64 x = (if sint x < 0 then None else Some x)"

definition usize_of_i32 :: "i32 \<Rightarrow> usize option" where
  "usize_of_i32 x = (if sint x < 0 then None else Some (ucast x))"

text \<open>\<open>usize::try_into::<u64>\<close>: always succeeds on a 64-bit target.\<close>

definition u64_of_usize :: "usize \<Rightarrow> u64 option" where
  "u64_of_usize x = Some x"

text \<open>The cast \<open>x as i64\<close> keeps the bits.\<close>

definition as_i64 :: "u64 \<Rightarrow> i64" where
  "as_i64 x = x"

text \<open>\<open>usize::checked_sub\<close> and \<open>usize::checked_add\<close>.\<close>

definition checked_sub :: "usize \<Rightarrow> usize \<Rightarrow> usize option" where
  "checked_sub a b = (if a < b then None else Some (a - b))"

definition checked_add :: "usize \<Rightarrow> usize \<Rightarrow> usize option" where
  "checked_add a b = (if unat a + unat b < 2 ^ 64 then Some (a + b) else None)"

definition usize_MAX :: usize where
  "usize_MAX = 0xFFFFFFFFFFFFFFFF"

text \<open>
  The operator \<open>+\<close> on \<open>usize\<close>: it panics on overflow in a build with overflow checks (the
  debug profile) and wraps around in one without (the release profile).
\<close>

definition usize_add :: "bool \<Rightarrow> usize \<Rightarrow> usize \<Rightarrow> usize option" where
  "usize_add overflow_checks a b =
     (case checked_add a b of
        Some c \<Rightarrow> Some c
      | None \<Rightarrow> if overflow_checks then None else Some (a + b))"

text \<open>\<open>Option::unwrap_or\<close>.\<close>

fun unwrap_or :: "'a option \<Rightarrow> 'a \<Rightarrow> 'a" where
  "unwrap_or None d = d"
| "unwrap_or (Some x) d = x"

lemma unat_usize_less: "unat (x :: usize) < 2 ^ 64"
  using unsigned_less [of x] by simp

lemma unat_usize_of_nat: "k < 2 ^ 64 \<Longrightarrow> unat (of_nat k :: usize) = k"
  by (simp add: unsigned_of_nat take_bit_nat_eq_self)

lemma checked_sub_Some: "checked_sub a b = Some c \<Longrightarrow> unat c = unat a - unat b"
  by (auto simp: checked_sub_def unat_sub word_le_nat_alt not_less split: if_splits)

lemma unat_unwrap_checked_sub: "unat (unwrap_or (checked_sub a b) 0) = unat a - unat b"
  by (auto simp: checked_sub_def unat_sub word_le_nat_alt word_less_nat_alt not_less)

lemma checked_add_Some: "checked_add a b = Some c \<Longrightarrow> unat c = unat a + unat b"
  by (auto simp: checked_add_def unat_word_ariths split: if_splits)

lemma sint_nonneg:
  fixes x :: u64
  assumes "unat x < 2 ^ 63"
  shows "sint x = int (unat x)"
proof -
  have u: "uint x = int (unat x)" by simp
  have "int (unat x) < int (2 ^ 63)" using assms by (simp only: of_nat_less_iff)
  then have "uint x < 2 ^ (LENGTH(64) - Suc 0)" by simp
  moreover have "- (2 ^ (LENGTH(64) - Suc 0)) \<le> uint x" 
    using unsigned_greater_eq[of x] by (rule order_trans[rotated]) simp
  ultimately have "signed_take_bit (LENGTH(64) - Suc 0) (uint x) = uint x"
    by (intro signed_take_bit_int_eq_self)
  then show ?thesis by (simp only: sint_uint u)
qed
lemma sint_neg:
  fixes x :: u64
  assumes "2 ^ 63 \<le> unat x"
  shows "sint x = int (unat x) - 2 ^ 64"
proof -
  have u: "uint x = int (unat x)" by simp
  have "int (2 ^ 63) \<le> int (unat x)" using assms by (simp only: of_nat_le_iff)
  then have lo: "0 \<le> uint x - 2 ^ 63" by simp
  have hi: "uint x < 2 ^ 64" using uint_lt2p [of x] by simp
  have "sint x = signed_take_bit 63 (uint x)" by (simp add: sint_uint)
  also have "\<dots> = take_bit (Suc 63) (uint x + 2 ^ 63) - 2 ^ 63"
    by (rule signed_take_bit_eq_take_bit_shift)
  also have "take_bit (Suc 63) (uint x + 2 ^ 63) = (uint x + 2 ^ 63) mod 2 ^ 64"
    by (simp add: take_bit_eq_mod)
  also have "\<dots> = ((uint x - 2 ^ 63) + 2 ^ 64) mod 2 ^ 64" by (simp add: add.commute)
  also have "\<dots> = uint x - 2 ^ 63" using lo hi by (subst mod_add_self2) (rule mod_pos_pos_trivial, simp_all)
  finally show ?thesis by simp
qed

lemma sint_as_i64:
  "sint (as_i64 x) = (if unat x < 2 ^ 63 then int (unat x) else int (unat x) - 2 ^ 64)"
  using sint_nonneg [of x] sint_neg [of x] by (auto simp: as_i64_def)

lemma sint_as_i64_neg_iff: "sint (as_i64 x) < 0 \<longleftrightarrow> 2 ^ 63 \<le> unat x"
proof -
  have "int (unat x) < int (2 ^ 64)"
    using unat_usize_less [of x] by (simp only: of_nat_less_iff)
  then show ?thesis by (simp add: sint_as_i64)
qed

lemma usize_of_i64_Some: "usize_of_i64 x = Some y \<longleftrightarrow> y = x \<and> unat x < 2 ^ 63"
  using sint_as_i64_neg_iff [of x] by (auto simp: usize_of_i64_def as_i64_def)

section \<open>gRPC statuses and handler outcomes\<close>

text \<open>\<open>tonic::Code\<close> and \<open>tonic::Status\<close>: a code with the message the handler gives it.\<close>

datatype code =
    OkCode | Cancelled | Unknown | InvalidArgument | DeadlineExceeded | NotFound
  | AlreadyExists | PermissionDenied | ResourceExhausted | FailedPrecondition | Aborted
  | OutOfRange | Unimplemented | Internal | Unavailable | DataLoss | Unauthenticated

datatype status = Status (st_code: code) (st_message: string)

text \<open>
  How a handler ends: with a response, with a status, or by a panic (\<open>unwrap\<close> of a missing
  extension, \<open>todo!()\<close>, an arithmetic overflow in a build with overflow checks).
\<close>

datatype 'a outcome = Reply 'a | Fail status | Panic

primrec of_result :: "status + 'a \<Rightarrow> 'a outcome" where
  "of_result (Inl st) = Fail st"
| "of_result (Inr x) = Reply x"

text \<open>
  What the awaiting client of an RPC gets.  A handler that panicked has no answer, and the
  client makes up the status \<open>lost\<close> itself.
\<close>

primrec client_answer :: "status \<Rightarrow> 'a outcome \<Rightarrow> status + 'a" where
  "client_answer lost (Reply x) = Inr x"
| "client_answer lost (Fail st) = Inl st"
| "client_answer lost Panic = Inl lost"

text \<open>\<open>Result::map_err\<close>, \<open>Result::and_then\<close> and \<open>Option::ok_or\<close>.\<close>

primrec map_err :: "('e \<Rightarrow> 'f) \<Rightarrow> 'e + 'a \<Rightarrow> 'f + 'a" where
  "map_err f (Inl e) = Inl (f e)"
| "map_err f (Inr x) = Inr x"

primrec and_then :: "'e + 'a \<Rightarrow> ('a \<Rightarrow> 'e + 'b) \<Rightarrow> 'e + 'b" where
  "and_then (Inl e) k = Inl e"
| "and_then (Inr x) k = k x"

primrec ok_or :: "'a option \<Rightarrow> 'e \<Rightarrow> 'e + 'a" where
  "ok_or None e = Inl e"
| "ok_or (Some x) e = Inr x"

text \<open>\<open>collect\<close> of an iterator of results into a result of a list: the first error wins.\<close>

fun collect_results :: "('e + 'a) list \<Rightarrow> 'e + 'a list" where
  "collect_results [] = Inr []"
| "collect_results (r # rs) = and_then r (\<lambda>x. and_then (collect_results rs) (\<lambda>xs. Inr (x # xs)))"

text \<open>\<open>Result::ok\<close>.\<close>

primrec result_ok :: "'e + 'a \<Rightarrow> 'a option" where
  "result_ok (Inl e) = None"
| "result_ok (Inr x) = Some x"

lemma and_then_Inr [rust_simps]:
  "and_then r k = Inr y \<longleftrightarrow> (\<exists>x. r = Inr x \<and> k x = Inr y)"
  by (cases r) auto

lemma and_then_Inl [rust_simps]:
  "and_then r k = Inl e \<longleftrightarrow> r = Inl e \<or> (\<exists>x. r = Inr x \<and> k x = Inl e)"
  by (cases r) auto

lemma map_err_Inr [rust_simps]: "map_err f r = Inr x \<longleftrightarrow> r = Inr x"
  by (cases r) auto

lemma map_err_Inl [rust_simps]: "map_err f r = Inl e \<longleftrightarrow> (\<exists>e'. r = Inl e' \<and> e = f e')"
  by (cases r) auto

lemma ok_or_Inr [rust_simps]: "ok_or x e = Inr y \<longleftrightarrow> x = Some y"
  by (cases x) auto

lemma ok_or_Inl [rust_simps]: "ok_or x e = Inl e' \<longleftrightarrow> x = None \<and> e' = e"
  by (cases x) auto

lemma collect_results_map_Inr:
  "collect_results (map f xs) = Inr ys \<longleftrightarrow> map f xs = map Inr ys"
proof (induction xs arbitrary: ys)
  case (Cons x xs)
  then show ?case by (cases ys) (auto simp: and_then_Inr)
qed auto

lemma collect_results_map_Inl:
  "collect_results (map f xs) = Inl e \<Longrightarrow> \<exists>x \<in> set xs. f x = Inl e"
  by (induction xs) (auto simp: and_then_Inl)

lemma of_result_Reply [rust_simps]: "of_result r = Reply x \<longleftrightarrow> r = Inr x"
  by (cases r) auto

lemma of_result_Fail [rust_simps]: "of_result r = Fail st \<longleftrightarrow> r = Inl st"
  by (cases r) auto

lemma of_result_not_Panic [simp]: "of_result r \<noteq> Panic"
  by (cases r) auto

section \<open>Requests\<close>

text \<open>
  A tonic request: its message and the extensions an interceptor has put there.  The
  extensions a component uses are of one type; \<open>set_extension\<close> replaces the value of that
  type, as \<open>Extensions::insert\<close> does, and \<open>get_extension\<close> is \<open>Extensions::get\<close>.
\<close>

record ('e, 'm) request =
  extension :: "'e option"
  message :: 'm

definition get_extension :: "('e, 'm) request \<Rightarrow> 'e option" where
  "get_extension req = extension req"

definition set_extension :: "'e \<Rightarrow> ('e, 'm) request \<Rightarrow> ('e, 'm) request" where
  "set_extension e req = req\<lparr>extension := Some e\<rparr>"

definition new_request :: "'m \<Rightarrow> ('e, 'm) request" where
  "new_request m = \<lparr>extension = None, message = m\<rparr>"

lemma get_set_extension [simp]: "get_extension (set_extension e req) = Some e"
  by (simp add: get_extension_def set_extension_def)

lemma message_set_extension [simp]: "message (set_extension e req) = message req"
  by (simp add: set_extension_def)

lemma message_new_request [simp]: "message (new_request m) = m"
  by (simp add: new_request_def)

lemma get_extension_new_request [simp]: "get_extension (new_request m) = None"
  by (simp add: get_extension_def new_request_def)

end
