(* ===== verification/Rust_Std.thy ===== *)
theory Rust_Std
  imports Prelude
begin

text \<open>
  The parts of Rust's standard library the services rely on: \<open>Display\<close> and \<open>{:X}\<close> of
  unsigned integers, \<open>str::parse::<usize>\<close>, the texts of its errors, and the equality of
  \<open>Path\<close>s, which compares components and not characters.  Also \<open>HashMap<String, String>\<close>,
  as an association list with an extensional equality.
\<close>

section \<open>Digits\<close>

definition digit_char :: "nat \<Rightarrow> char" where
  "digit_char d = char_of (if d < 10 then 48 + d else 55 + d)"

definition to_digit :: "nat \<Rightarrow> char \<Rightarrow> nat option" where
  "to_digit radix c =
     (let n = of_char c :: nat;
          d = (if 48 \<le> n \<and> n \<le> 57 then Some (n - 48)
               else if 65 \<le> n \<and> n \<le> 90 then Some (n - 55)
               else if 97 \<le> n \<and> n \<le> 122 then Some (n - 87) else None)
      in case d of None \<Rightarrow> None | Some v \<Rightarrow> if v < radix then Some v else None)"

fun show_radix :: "nat \<Rightarrow> nat \<Rightarrow> string" where
  "show_radix b n =
     (if b < 2 \<or> n < b then [digit_char n]
      else show_radix b (n div b) @ [digit_char (n mod b)])"

declare show_radix.simps [simp del]

definition show_usize :: "usize \<Rightarrow> string" where
  "show_usize w = show_radix 10 (unat w)"

definition show_u32 :: "u32 \<Rightarrow> string" where
  "show_u32 w = show_radix 10 (unat w)"

definition show_hex :: "u64 \<Rightarrow> string" where
  "show_hex w = show_radix 16 (unat w)"

section \<open>Parsing an unsigned integer\<close>

datatype int_error_kind = IntEmpty | InvalidDigit | PosOverflow

primrec parse_int_error_text :: "int_error_kind \<Rightarrow> string" where
  "parse_int_error_text IntEmpty = ''cannot parse integer from empty string''"
| "parse_int_error_text InvalidDigit = ''invalid digit found in string''"
| "parse_int_error_text PosOverflow = ''number too large to fit in target type''"

definition try_from_int_error_text :: string where
  "try_from_int_error_text = ''out of range integral type conversion attempted''"

text \<open>
  \<open>from_str_radix\<close> of an unsigned type: a lone sign is an invalid digit, a leading \<open>+\<close> is
  skipped, and each step checks the multiplication by ten, the digit and the addition.
\<close>

fun parse_digits :: "nat \<Rightarrow> string \<Rightarrow> int_error_kind + nat" where
  "parse_digits acc [] = Inr acc"
| "parse_digits acc (c # cs) =
     (case to_digit 10 c of
        None \<Rightarrow> Inl InvalidDigit
      | Some d \<Rightarrow>
          if 2 ^ 64 \<le> acc * 10 then Inl PosOverflow
          else if 2 ^ 64 \<le> acc * 10 + d then Inl PosOverflow
          else parse_digits (acc * 10 + d) cs)"

definition parse_usize :: "string \<Rightarrow> int_error_kind + usize" where
  "parse_usize s =
     (if s = [] then Inl IntEmpty
      else if s = ''+'' \<or> s = ''-'' then Inl InvalidDigit
      else (case parse_digits 0 (if hd s = CHR ''+'' then tl s else s) of
              Inl e \<Rightarrow> Inl e
            | Inr n \<Rightarrow> Inr (of_nat n)))"

section \<open>Printing and parsing agree\<close>

lemma of_char_digit_char:
  "d < 16 \<Longrightarrow> (of_char (digit_char d) :: nat) = (if d < 10 then 48 + d else 55 + d)"
  by (simp add: digit_char_def of_char_of)

lemma to_digit_digit_char: "d < 10 \<Longrightarrow> to_digit 10 (digit_char d) = Some d"
  by (simp add: to_digit_def of_char_digit_char Let_def)

lemma digit_char_inj:
  assumes "d < 16" and "e < 16" and "digit_char d = digit_char e"
  shows "d = e"
proof -
  have "(if d < 10 then 48 + d else 55 + d) = (if e < 10 then 48 + e else 55 + e)"
    using assms of_char_digit_char [of d] of_char_digit_char [of e] by metis
  with assms(1,2) show ?thesis by (simp split: if_splits)
qed

lemma show_radix_nonempty [simp]: "show_radix b n \<noteq> []"
  by (subst show_radix.simps) simp

lemma show_radix_digits:
  "2 \<le> b \<Longrightarrow> set (show_radix b n) \<subseteq> digit_char ` {..<b}"
proof (induction b n rule: show_radix.induct)
  case (1 b n)
  then show ?case by (subst show_radix.simps) auto
qed

lemma show_radix_length:
  "2 \<le> b \<Longrightarrow> n < b ^ Suc k \<Longrightarrow> length (show_radix b n) \<le> Suc k"
proof (induction k arbitrary: n)
  case 0
  then show ?case by (subst show_radix.simps) simp
next
  case (Suc k)
  have "n div b < b ^ Suc k"
    using Suc.prems by (simp add: less_mult_imp_div_less mult.commute)
  with Suc show ?case by (subst show_radix.simps) auto
qed

lemma show_radix_inj_16: "show_radix 16 m = show_radix 16 n \<Longrightarrow> m = n"
proof (induction "16 :: nat" m arbitrary: n rule: show_radix.induct)
  case (1 m)
  have small: "show_radix 16 k = [digit_char k]" if "k < 16" for k
    using that by (subst show_radix.simps) simp
  have large: "show_radix 16 k = show_radix 16 (k div 16) @ [digit_char (k mod 16)]"
    if "\<not> k < 16" for k
    using that by (subst show_radix.simps) simp
  consider "m < 16" "n < 16" | "m < 16 \<longleftrightarrow> \<not> n < 16" | "\<not> m < 16" "\<not> n < 16" by blast
  then show ?case
  proof cases
    case 1
    with "1.prems" show ?thesis using small [of m] small [of n] digit_char_inj by simp
  next
    case 2
    then have "length (show_radix 16 m) \<noteq> length (show_radix 16 n)"
      using small [of m] small [of n] large [of m] large [of n]
      by (cases "m < 16") auto
    with "1.prems" show ?thesis by simp
  next
    case 3
    with "1.prems" have d: "show_radix 16 (m div 16) = show_radix 16 (n div 16)"
      and c: "digit_char (m mod 16) = digit_char (n mod 16)"
      using large [of m] large [of n] by auto
    from c have "m mod 16 = n mod 16" by (intro digit_char_inj) simp_all
    moreover from d 3 have "m div 16 = n div 16" by (intro "1.hyps") simp_all
    ultimately show ?thesis by (metis div_mult_mod_eq)
  qed
qed

lemma parse_digits_append:
  "parse_digits acc (xs @ ys) =
     (case parse_digits acc xs of Inl e \<Rightarrow> Inl e | Inr a \<Rightarrow> parse_digits a ys)"
  by (induction xs arbitrary: acc) (auto split: option.splits)

lemma parse_digits_show: "n < 2 ^ 64 \<Longrightarrow> parse_digits 0 (show_radix 10 n) = Inr n"
proof (induction "10 :: nat" n rule: show_radix.induct)
  case (1 n)
  show ?case
  proof (cases "n < 10")
    case True
    then show ?thesis
      by (subst show_radix.simps) (simp add: to_digit_digit_char)
  next
    case False
    have "n div 10 < 2 ^ 64" using "1.prems" by simp
    with "1.hyps" False have "parse_digits 0 (show_radix 10 (n div 10)) = Inr (n div 10)"
      by simp
    moreover have "n div 10 * 10 + n mod 10 = n" by simp
    ultimately show ?thesis using False "1.prems"
      by (subst show_radix.simps) (simp add: parse_digits_append to_digit_digit_char)
  qed
qed

lemma hd_show_radix: "2 \<le> b \<Longrightarrow> \<exists>d < b. hd (show_radix b n) = digit_char d"
  using show_radix_digits [of b n] hd_in_set [OF show_radix_nonempty [of b n]] by blast

lemma digit_char_not_sign: "d < 16 \<Longrightarrow> digit_char d \<noteq> CHR ''+'' \<and> digit_char d \<noteq> CHR ''-''"
  using of_char_digit_char [of d] by (auto split: if_splits)

lemma parse_show_usize: "parse_usize (show_usize w) = Inr w"
proof -
  let ?s = "show_radix 10 (unat w)"
  obtain d where "d < 10" and h: "hd ?s = digit_char d"
    using hd_show_radix [of 10 "unat w"] by auto
  then have "hd ?s \<noteq> CHR ''+''" and "hd ?s \<noteq> CHR ''-''"
    using digit_char_not_sign [of d] by auto
  moreover from this have "?s \<noteq> ''+''" and "?s \<noteq> ''-''" by auto
  ultimately show ?thesis
    using parse_digits_show [of "unat w"] unat_usize_less [of w]
    by (simp add: parse_usize_def show_usize_def)
qed

lemma show_usize_inj: "show_usize a = show_usize b \<longleftrightarrow> a = b"
  by (metis parse_show_usize Inr_inject)

lemma show_usize_nonempty [simp]: "show_usize w \<noteq> []"
  by (simp add: show_usize_def)

lemma show_hex_inj: "show_hex a = show_hex b \<longleftrightarrow> a = b"
  using show_radix_inj_16 [of "unat a" "unat b"] by (auto simp: show_hex_def word_unat_eq_iff)

lemma show_hex_nonempty [simp]: "show_hex w \<noteq> []"
  by (simp add: show_hex_def)

section \<open>Paths\<close>

text \<open>
  \<open>Path::components\<close> on Unix: repeated and trailing slashes and \<open>.\<close> components are dropped,
  except a leading \<open>.\<close> of a relative path; \<open>..\<close> is kept.  \<open>Path\<close> and \<open>PathBuf\<close> compare
  their components, so \<open>Vec<PathBuf>::contains\<close> does too.
\<close>

datatype component = RootDir | CurDir | ParentDir | NormalComp string

fun split_slash :: "string \<Rightarrow> string list" where
  "split_slash [] = [[]]"
| "split_slash (c # cs) =
     (if c = CHR ''/'' then [] # split_slash cs
      else (case split_slash cs of [] \<Rightarrow> [[c]] | x # xs \<Rightarrow> (c # x) # xs))"

definition component_of :: "string \<Rightarrow> component" where
  "component_of seg = (if seg = ''..'' then ParentDir else NormalComp seg)"

definition path_components :: "string \<Rightarrow> component list" where
  "path_components s =
     (let segs = split_slash s;
          body = map component_of (filter (\<lambda>x. x \<noteq> [] \<and> x \<noteq> ''.'') segs)
      in if s \<noteq> [] \<and> hd s = CHR ''/'' then RootDir # body
         else if hd segs = ''.'' then CurDir # body
         else body)"

definition path_eq :: "string \<Rightarrow> string \<Rightarrow> bool" where
  "path_eq p q \<longleftrightarrow> path_components p = path_components q"

definition paths_contain :: "string list \<Rightarrow> string \<Rightarrow> bool" where
  "paths_contain ps p \<longleftrightarrow> list_ex (path_eq p) ps"

lemma path_eq_refl [simp]: "path_eq p p"
  by (simp add: path_eq_def)

lemma path_eq_sym: "path_eq p q \<Longrightarrow> path_eq q p"
  by (simp add: path_eq_def)

lemma path_eq_trans: "path_eq p q \<Longrightarrow> path_eq q r \<Longrightarrow> path_eq p r"
  by (simp add: path_eq_def)

lemma paths_contain_iff: "paths_contain ps p \<longleftrightarrow> (\<exists>q \<in> set ps. path_eq p q)"
  by (simp add: paths_contain_def list_ex_iff)

lemma paths_contain_cong: "path_eq p q \<Longrightarrow> paths_contain ps p \<longleftrightarrow> paths_contain ps q"
  by (auto simp: paths_contain_iff path_eq_def)

lemma split_slash_nonempty [simp]: "split_slash s \<noteq> []"
  by (induction s) (auto split: list.splits)

lemma split_slash_snoc: "split_slash (s @ ''/'') = split_slash s @ [[]]"
  by (induction s) (auto split: list.splits)

lemma path_eq_trailing_slash: "s \<noteq> [] \<Longrightarrow> path_eq (s @ ''/'') s"
  by (simp add: path_eq_def path_components_def split_slash_snoc hd_append Let_def)

section \<open>String maps\<close>

text \<open>
  \<open>HashMap<String, String>\<close>, as the list of its entries; \<open>HashMap::eq\<close> ignores their order.
\<close>

type_synonym string_map = "(string \<times> string) list"

definition map_eq :: "string_map \<Rightarrow> string_map \<Rightarrow> bool" where
  "map_eq xs ys \<longleftrightarrow> (\<forall>k \<in> set (map fst (xs @ ys)). map_of xs k = map_of ys k)"

lemma map_eq_iff: "map_eq xs ys \<longleftrightarrow> map_of xs = map_of ys"
proof
  assume eq: "map_eq xs ys"
  show "map_of xs = map_of ys"
  proof
    fix k
    show "map_of xs k = map_of ys k"
    proof (cases "k \<in> set (map fst (xs @ ys))")
      case True
      with eq show ?thesis unfolding map_eq_def by blast
    next
      case False
      then have "map_of xs k = None" and "map_of ys k = None"
        by (auto simp: map_of_eq_None_iff)
      then show ?thesis by simp
    qed
  qed
qed (simp add: map_eq_def)

end
