(* ===== verification/Csi.thy ===== *)
theory Csi
  imports Prelude Rust_Std
begin

text \<open>
  The messages of protos/csi.proto the plugin reads or writes, as the generated structs hold
  them: an enum field is an \<open>i32\<close>, a message field an option, an \<open>Int64Value\<close> an optional
  \<open>i64\<close>.  Fields no code of the plugin touches (secrets, parameters, contexts of requests)
  are left out.  Also the constant of crates/csi/src/lib.rs.
\<close>

section \<open>Constants\<close>

definition MIN_VOLUME_SIZE_BYTES :: usize where
  "MIN_VOLUME_SIZE_BYTES = 512 * 1024 * 1024"

lemma unat_MIN_VOLUME_SIZE [simp]: "unat MIN_VOLUME_SIZE_BYTES = 536870912"
  by (simp add: MIN_VOLUME_SIZE_BYTES_def)

section \<open>Requests\<close>

text \<open>The clients an interceptor of the plugin can put into a request.\<close>

datatype client = VolumeServiceClient | MountServiceClient

type_synonym 'm creq = "(client, 'm) request"

section \<open>Access modes and capabilities\<close>

datatype mode =
    ModeUnknown | SingleNodeWriter | SingleNodeReaderOnly | MultiNodeReaderOnly
  | MultiNodeSingleWriter | MultiNodeMultiWriter | SingleNodeSingleWriter
  | SingleNodeMultiWriter

primrec mode_to_i32 :: "mode \<Rightarrow> i32" where
  "mode_to_i32 ModeUnknown = 0"
| "mode_to_i32 SingleNodeWriter = 1"
| "mode_to_i32 SingleNodeReaderOnly = 2"
| "mode_to_i32 MultiNodeReaderOnly = 3"
| "mode_to_i32 MultiNodeSingleWriter = 4"
| "mode_to_i32 MultiNodeMultiWriter = 5"
| "mode_to_i32 SingleNodeSingleWriter = 6"
| "mode_to_i32 SingleNodeMultiWriter = 7"

definition mode_from_i32 :: "i32 \<Rightarrow> mode option" where
  "mode_from_i32 n =
     find (\<lambda>m. mode_to_i32 m = n)
       [ModeUnknown, SingleNodeWriter, SingleNodeReaderOnly, MultiNodeReaderOnly,
        MultiNodeSingleWriter, MultiNodeMultiWriter, SingleNodeSingleWriter,
        SingleNodeMultiWriter]"

record access_mode =
  am_mode :: i32

definition default_access_mode :: access_mode where
  "default_access_mode = \<lparr>am_mode = 0\<rparr>"

text \<open>The generated accessor \<open>mode()\<close>: an unknown number reads as the default variant.\<close>

definition access_mode_mode :: "access_mode \<Rightarrow> mode" where
  "access_mode_mode am = unwrap_or (mode_from_i32 (am_mode am)) ModeUnknown"

datatype access_type =
    BlockVolume
  | MountVolume (fs_type: string) (mount_flags: "string list") (volume_mount_group: string)

record volume_capability =
  cap_access_mode :: "access_mode option"
  cap_access_type :: "access_type option"

lemma mode_from_to_i32: "mode_from_i32 (mode_to_i32 m) = Some m"
  by (cases m) (simp_all add: mode_from_i32_def)

lemma mode_to_i32_inj: "mode_to_i32 m = mode_to_i32 m' \<longleftrightarrow> m = m'"
  by (metis mode_from_to_i32 option.inject)

section \<open>Topologies and volumes\<close>

record topology =
  segments :: string_map

definition topology_eq :: "topology \<Rightarrow> topology \<Rightarrow> bool" where
  "topology_eq a b \<longleftrightarrow> map_eq (segments a) (segments b)"

fun option_topology_eq :: "topology option \<Rightarrow> topology option \<Rightarrow> bool" where
  "option_topology_eq None None = True"
| "option_topology_eq (Some a) (Some b) = topology_eq a b"
| "option_topology_eq _ _ = False"

record volume =
  vol_capacity_bytes :: i64
  vol_volume_id :: string
  vol_volume_context :: string_map
  vol_content_source :: "unit option"
  vol_accessible_topology :: "topology list"

record capacity_range =
  cr_required_bytes :: i64
  cr_limit_bytes :: i64

section \<open>Controller messages\<close>

record list_volumes_request =
  lvr_max_entries :: i32
  lvr_starting_token :: string

record volume_entry =
  entry_volume :: "volume option"
  entry_status :: "unit option"

record list_volumes_response =
  lvs_entries :: "volume_entry list"
  lvs_next_token :: string

record get_capacity_request =
  gcr_volume_capabilities :: "volume_capability list"
  gcr_accessible_topology :: "topology option"

record get_capacity_response =
  gcs_available_capacity :: i64
  gcs_maximum_volume_size :: "i64 option"
  gcs_minimum_volume_size :: "i64 option"

definition default_get_capacity_response :: get_capacity_response where
  "default_get_capacity_response =
     \<lparr>gcs_available_capacity = 0, gcs_maximum_volume_size = None, gcs_minimum_volume_size = None\<rparr>"

record create_volume_request =
  cvr_name :: string
  cvr_capacity_range :: "capacity_range option"
  cvr_volume_capabilities :: "volume_capability list"

record create_volume_response =
  cvs_volume :: "volume option"

record delete_volume_request =
  dvr_volume_id :: string

record validate_request =
  val_volume_id :: string
  val_volume_capabilities :: "volume_capability list"

record confirmed =
  conf_parameters :: string_map
  conf_volume_capabilities :: "volume_capability list"
  conf_volume_context :: string_map

record validate_response =
  vrs_confirmed :: "confirmed option"
  vrs_message :: string

datatype controller_rpc_type =
    CtlUnknown | CreateDeleteVolume | PublishUnpublishVolume | ListVolumes | GetCapacity
  | CreateDeleteSnapshot | ListSnapshots | CloneVolume | PublishReadonly | CtlExpandVolume
  | ListVolumesPublishedNodes | CtlVolumeCondition | GetVolume | CtlSingleNodeMultiWriter

primrec controller_rpc_to_i32 :: "controller_rpc_type \<Rightarrow> i32" where
  "controller_rpc_to_i32 CtlUnknown = 0"
| "controller_rpc_to_i32 CreateDeleteVolume = 1"
| "controller_rpc_to_i32 PublishUnpublishVolume = 2"
| "controller_rpc_to_i32 ListVolumes = 3"
| "controller_rpc_to_i32 GetCapacity = 4"
| "controller_rpc_to_i32 CreateDeleteSnapshot = 5"
| "controller_rpc_to_i32 ListSnapshots = 6"
| "controller_rpc_to_i32 CloneVolume = 7"
| "controller_rpc_to_i32 PublishReadonly = 8"
| "controller_rpc_to_i32 CtlExpandVolume = 9"
| "controller_rpc_to_i32 ListVolumesPublishedNodes = 10"
| "controller_rpc_to_i32 CtlVolumeCondition = 11"
| "controller_rpc_to_i32 GetVolume = 12"
| "controller_rpc_to_i32 CtlSingleNodeMultiWriter = 13"

record controller_service_capability =
  csc_type :: "i32 option"

section \<open>Node messages\<close>

record node_stage_request =
  nsr_volume_id :: string
  nsr_staging_target_path :: string
  nsr_volume_capability :: "volume_capability option"

record node_unstage_request =
  nur_volume_id :: string
  nur_staging_target_path :: string

record node_publish_request =
  npr_volume_id :: string
  npr_staging_target_path :: string
  npr_target_path :: string
  npr_volume_capability :: "volume_capability option"
  npr_readonly :: bool

record node_unpublish_request =
  nup_volume_id :: string
  nup_target_path :: string

datatype node_rpc_type =
    NodeUnknown | StageUnstageVolume | GetVolumeStats | NodeExpandVolume | NodeVolumeCondition
  | NodeSingleNodeMultiWriter | VolumeMountGroup

primrec node_rpc_to_i32 :: "node_rpc_type \<Rightarrow> i32" where
  "node_rpc_to_i32 NodeUnknown = 0"
| "node_rpc_to_i32 StageUnstageVolume = 1"
| "node_rpc_to_i32 GetVolumeStats = 2"
| "node_rpc_to_i32 NodeExpandVolume = 3"
| "node_rpc_to_i32 NodeVolumeCondition = 4"
| "node_rpc_to_i32 NodeSingleNodeMultiWriter = 5"
| "node_rpc_to_i32 VolumeMountGroup = 6"

record node_service_capability =
  nsc_type :: "i32 option"

record node_get_info_response =
  ngi_node_id :: string
  ngi_max_volumes_per_node :: i64
  ngi_accessible_topology :: "topology option"

section \<open>Identity messages\<close>

record plugin_info_response =
  pi_name :: string
  pi_vendor_version :: string
  pi_manifest :: string_map

datatype plugin_service_type =
  PluginUnknown | ControllerService | VolumeAccessibilityConstraints

primrec plugin_service_to_i32 :: "plugin_service_type \<Rightarrow> i32" where
  "plugin_service_to_i32 PluginUnknown = 0"
| "plugin_service_to_i32 ControllerService = 1"
| "plugin_service_to_i32 VolumeAccessibilityConstraints = 2"

datatype plugin_capability_type = PluginService i32 | PluginVolumeExpansion i32

record plugin_capability =
  pc_type :: "plugin_capability_type option"

record probe_response =
  probe_ready :: "bool option"

end
