(* ===== verification/Volume_Service.thy ===== *)
theory Volume_Service
  imports Prelude
begin

text \<open>
  The VolumeService protocol (protos/volumed.proto): its messages, a client program as the
  tree of the calls it awaits, the server as one operation per RPC, the sequential run of a
  program against a server, the interleaved run of several programs, and the contract
  between the two sides as locales: \<open>volume_lookup\<close> (reads), \<open>volume_service\<close> (writes) and
  \<open>reliable_volume_service\<close> (lookups that do not fail).
\<close>

section \<open>Messages\<close>

record LV =
  lv_uuid :: string
  lv_name :: string
  lv_capacity_bytes :: u64
  lv_volume_group :: string

record create_lv_request =
  clr_name :: string
  clr_capacity :: u64
  clr_tags :: "string list"

record delete_lv_request =
  dlr_name :: string

record format_lv_request =
  flr_name :: string

datatype lv_identifier = Name string | Uuid string

record get_lv_request =
  glr_identifier :: "lv_identifier option"

section \<open>Client programs\<close>

text \<open>
  An async handler that talks to volumed is the tree of its awaited calls: one constructor
  per RPC, with the request and the continuation that takes what the generated client
  returns, a status or the response.  \<open>VRet\<close> is the end of the handler.
\<close>

datatype 'a vol_prog =
    VRet 'a
  | VGetLvList "status + LV list \<Rightarrow> 'a vol_prog"
  | VGetFreeBytes "status + u64 \<Rightarrow> 'a vol_prog"
  | VCreateLogicalVolume create_lv_request "status + LV \<Rightarrow> 'a vol_prog"
  | VDeleteLogicalVolume delete_lv_request "status + unit \<Rightarrow> 'a vol_prog"
  | VFormatLogicalVolume format_lv_request "status + unit \<Rightarrow> 'a vol_prog"
  | VGetLogicalVolume get_lv_request "status + LV \<Rightarrow> 'a vol_prog"

text \<open>Rust's \<open>?\<close> between two parts of a handler: statuses and panics end it.\<close>

primrec v_then :: "'a outcome vol_prog \<Rightarrow> ('a \<Rightarrow> 'b outcome vol_prog) \<Rightarrow> 'b outcome vol_prog" where
  "v_then (VRet x) k =
     (case x of Reply a \<Rightarrow> k a | Fail st \<Rightarrow> VRet (Fail st) | Panic \<Rightarrow> VRet Panic)"
| "v_then (VGetLvList c) k = VGetLvList (\<lambda>r. v_then (c r) k)"
| "v_then (VGetFreeBytes c) k = VGetFreeBytes (\<lambda>r. v_then (c r) k)"
| "v_then (VCreateLogicalVolume q c) k = VCreateLogicalVolume q (\<lambda>r. v_then (c r) k)"
| "v_then (VDeleteLogicalVolume q c) k = VDeleteLogicalVolume q (\<lambda>r. v_then (c r) k)"
| "v_then (VFormatLogicalVolume q c) k = VFormatLogicalVolume q (\<lambda>r. v_then (c r) k)"
| "v_then (VGetLogicalVolume q c) k = VGetLogicalVolume q (\<lambda>r. v_then (c r) k)"

definition v_result :: "status + 'a \<Rightarrow> 'a outcome vol_prog" where
  "v_result r = VRet (of_result r)"

definition v_fail :: "status \<Rightarrow> 'a outcome vol_prog" where
  "v_fail st = VRet (Fail st)"

section \<open>Servers and sequential runs\<close>

record 's volume_server =
  sv_get_lv_list :: "'s \<Rightarrow> (status + LV list) \<times> 's"
  sv_get_free_bytes :: "'s \<Rightarrow> (status + u64) \<times> 's"
  sv_create :: "create_lv_request \<Rightarrow> 's \<Rightarrow> (status + LV) \<times> 's"
  sv_delete :: "delete_lv_request \<Rightarrow> 's \<Rightarrow> (status + unit) \<times> 's"
  sv_format :: "format_lv_request \<Rightarrow> 's \<Rightarrow> (status + unit) \<times> 's"
  sv_get :: "get_lv_request \<Rightarrow> 's \<Rightarrow> (status + LV) \<times> 's"

primrec run_vol :: "'a vol_prog \<Rightarrow> 's volume_server \<Rightarrow> 's \<Rightarrow> 'a \<times> 's" where
  "run_vol (VRet x) srv s = (x, s)"
| "run_vol (VGetLvList k) srv s =
     (case sv_get_lv_list srv s of (r, s') \<Rightarrow> run_vol (k r) srv s')"
| "run_vol (VGetFreeBytes k) srv s =
     (case sv_get_free_bytes srv s of (r, s') \<Rightarrow> run_vol (k r) srv s')"
| "run_vol (VCreateLogicalVolume q k) srv s =
     (case sv_create srv q s of (r, s') \<Rightarrow> run_vol (k r) srv s')"
| "run_vol (VDeleteLogicalVolume q k) srv s =
     (case sv_delete srv q s of (r, s') \<Rightarrow> run_vol (k r) srv s')"
| "run_vol (VFormatLogicalVolume q k) srv s =
     (case sv_format srv q s of (r, s') \<Rightarrow> run_vol (k r) srv s')"
| "run_vol (VGetLogicalVolume q k) srv s =
     (case sv_get srv q s of (r, s') \<Rightarrow> run_vol (k r) srv s')"

lemma run_v_then:
  "run_vol (v_then p k) srv s =
     (case run_vol p srv s of
        (Reply x, s') \<Rightarrow> run_vol (k x) srv s'
      | (Fail st, s') \<Rightarrow> (Fail st, s')
      | (Panic, s') \<Rightarrow> (Panic, s'))"
  by (induction p arbitrary: s) (auto split: prod.splits outcome.splits)

lemma run_v_result [simp]: "run_vol (v_result r) srv s = (of_result r, s)"
  by (simp add: v_result_def)

lemma run_v_fail [simp]: "run_vol (v_fail st) srv s = (Fail st, s)"
  by (simp add: v_fail_def)

lemma v_then_v_result:
  "v_then (v_result r) k = (case r of Inl st \<Rightarrow> VRet (Fail st) | Inr x \<Rightarrow> k x)"
  by (cases r) (simp_all add: v_result_def)

lemma run_map_vol_prog:
  "run_vol (map_vol_prog f p) srv s = (case run_vol p srv s of (x, s') \<Rightarrow> (f x, s'))"
  by (induction p arbitrary: s) (auto split: prod.splits)

section \<open>Interleaved runs\<close>

text \<open>
  Handlers run as concurrent tasks that can be switched at every awaited call: one step is
  one call of one program, served as a whole.
\<close>

inductive vol_step :: "'s volume_server \<Rightarrow> 'a vol_prog \<Rightarrow> 's \<Rightarrow> 'a vol_prog \<Rightarrow> 's \<Rightarrow> bool"
  for srv :: "'s volume_server" where
  step_list: "sv_get_lv_list srv s = (r, s') \<Longrightarrow> vol_step srv (VGetLvList k) s (k r) s'"
| step_free: "sv_get_free_bytes srv s = (r, s') \<Longrightarrow> vol_step srv (VGetFreeBytes k) s (k r) s'"
| step_create: "sv_create srv q s = (r, s') \<Longrightarrow>
    vol_step srv (VCreateLogicalVolume q k) s (k r) s'"
| step_delete: "sv_delete srv q s = (r, s') \<Longrightarrow>
    vol_step srv (VDeleteLogicalVolume q k) s (k r) s'"
| step_format: "sv_format srv q s = (r, s') \<Longrightarrow>
    vol_step srv (VFormatLogicalVolume q k) s (k r) s'"
| step_get: "sv_get srv q s = (r, s') \<Longrightarrow> vol_step srv (VGetLogicalVolume q k) s (k r) s'"

inductive_cases vol_step_VRetE [elim!]: "vol_step srv (VRet x) s p' s'"

inductive_simps vol_step_simps [simp]:
  "vol_step srv (VRet x) s p' s'"
  "vol_step srv (VGetLvList k) s p' s'"
  "vol_step srv (VGetFreeBytes k) s p' s'"
  "vol_step srv (VCreateLogicalVolume q k) s p' s'"
  "vol_step srv (VDeleteLogicalVolume dq k) s p' s'"
  "vol_step srv (VFormatLogicalVolume fq k) s p' s'"
  "vol_step srv (VGetLogicalVolume gq k) s p' s'"

inductive vol_reach ::
  "'s volume_server \<Rightarrow> 'a vol_prog list \<Rightarrow> 's \<Rightarrow> 'a vol_prog list \<Rightarrow> 's \<Rightarrow> bool"
  for srv :: "'s volume_server" where
  reach_refl: "vol_reach srv ps s ps s"
| reach_step: "vol_reach srv ps s ps' s' \<Longrightarrow> i < length ps' \<Longrightarrow> vol_step srv (ps' ! i) s' p s'' \<Longrightarrow>
    vol_reach srv ps s (ps'[i := p]) s''"

text \<open>The same system as a function: a schedule names the program that moves next.\<close>

fun vol_next :: "'s volume_server \<Rightarrow> 'a vol_prog \<Rightarrow> 's \<Rightarrow> 'a vol_prog \<times> 's" where
  "vol_next srv (VRet x) s = (VRet x, s)"
| "vol_next srv (VGetLvList k) s = (case sv_get_lv_list srv s of (r, s') \<Rightarrow> (k r, s'))"
| "vol_next srv (VGetFreeBytes k) s = (case sv_get_free_bytes srv s of (r, s') \<Rightarrow> (k r, s'))"
| "vol_next srv (VCreateLogicalVolume q k) s = (case sv_create srv q s of (r, s') \<Rightarrow> (k r, s'))"
| "vol_next srv (VDeleteLogicalVolume q k) s = (case sv_delete srv q s of (r, s') \<Rightarrow> (k r, s'))"
| "vol_next srv (VFormatLogicalVolume q k) s = (case sv_format srv q s of (r, s') \<Rightarrow> (k r, s'))"
| "vol_next srv (VGetLogicalVolume q k) s = (case sv_get srv q s of (r, s') \<Rightarrow> (k r, s'))"

fun vol_sched ::
  "'s volume_server \<Rightarrow> nat list \<Rightarrow> 'a vol_prog list \<Rightarrow> 's \<Rightarrow> 'a vol_prog list \<times> 's" where
  "vol_sched srv [] ps s = (ps, s)"
| "vol_sched srv (i # is) ps s =
     (if i < length ps
      then (case vol_next srv (ps ! i) s of (p, s') \<Rightarrow> vol_sched srv is (ps[i := p]) s')
      else vol_sched srv is ps s)"

lemma vol_next_step:
  "vol_next srv p s = (p', s') \<Longrightarrow> (p' = p \<and> s' = s) \<or> vol_step srv p s p' s'"
  by (cases p) (auto split: prod.splits)

lemma vol_reach_trans:
  "vol_reach srv ps' s' ps'' s'' \<Longrightarrow> vol_reach srv ps s ps' s' \<Longrightarrow> vol_reach srv ps s ps'' s''"
  by (induction rule: vol_reach.induct) (auto intro: vol_reach.intros)

lemma vol_sched_reach: "vol_sched srv is ps s = (ps', s') \<Longrightarrow> vol_reach srv ps s ps' s'"
proof (induction "is" arbitrary: ps s)
  case Nil
  then show ?case by (auto intro: reach_refl)
next
  case (Cons i "is")
  show ?case
  proof (cases "i < length ps")
    case True
    obtain p t where n: "vol_next srv (ps ! i) s = (p, t)" by fastforce
    with Cons.prems True have "vol_sched srv is (ps[i := p]) t = (ps', s')" by simp
    then have rest: "vol_reach srv (ps[i := p]) t ps' s'" by (rule Cons.IH)
    have "vol_reach srv ps s (ps[i := p]) t"
      using vol_next_step [OF n] True reach_step [OF reach_refl [of srv ps s]]
      by (auto intro: reach_refl)
    with rest show ?thesis by (rule vol_reach_trans)
  next
    case False
    with Cons show ?thesis by simp
  qed
qed

lemma vol_reach_length: "vol_reach srv ps s ps' s' \<Longrightarrow> length ps' = length ps"
  by (induction rule: vol_reach.induct) auto

section \<open>The contract of the service\<close>

text \<open>
  \<open>view s n\<close> is the volume named \<open>n\<close> of the managed volume group and \<open>files s n\<close> what the
  filesystem on it holds.  The reads change nothing, and a lookup by name is right when it
  answers, or says the volume does not exist; it may also fail for another reason.
\<close>

locale volume_lookup =
  fixes srv :: "'s volume_server"
    and view :: "'s \<Rightarrow> string \<Rightarrow> LV option"
    and invar :: "'s \<Rightarrow> bool"
  assumes list_pure: "sv_get_lv_list srv s = (rl, s') \<Longrightarrow> s' = s"
    and free_pure: "sv_get_free_bytes srv s = (rf, s') \<Longrightarrow> s' = s"
    and get_pure: "sv_get srv q s = (rg, s') \<Longrightarrow> s' = s"
    and view_name: "invar s \<Longrightarrow> view s n = Some lv \<Longrightarrow> lv_name lv = n"
    and get_found: "invar s \<Longrightarrow>
      sv_get srv \<lparr>glr_identifier = Some (Name n)\<rparr> s = (Inr lv, s') \<Longrightarrow> view s n = Some lv"
    and get_missing: "invar s \<Longrightarrow>
      sv_get srv \<lparr>glr_identifier = Some (Name n)\<rparr> s = (Inl st, s') \<Longrightarrow>
      st_code st = NotFound \<Longrightarrow> view s n = None"

text \<open>
  A create only succeeds for a name that is free, and the volume has at least the size asked
  for; a failed operation leaves the volumes as they are; formatting empties the volume.
\<close>

locale volume_service = volume_lookup srv view invar
  for srv :: "'s volume_server" and view :: "'s \<Rightarrow> string \<Rightarrow> LV option" and invar :: "'s \<Rightarrow> bool" +
  fixes files :: "'s \<Rightarrow> string \<Rightarrow> string list"
  assumes create_ok: "invar s \<Longrightarrow> sv_create srv cq s = (Inr lv, s') \<Longrightarrow>
      invar s' \<and> view s (clr_name cq) = None \<and> view s' = (view s)(clr_name cq \<mapsto> lv)
      \<and> clr_capacity cq \<le> lv_capacity_bytes lv"
    and create_err: "invar s \<Longrightarrow> sv_create srv cq s = (Inl st, s') \<Longrightarrow>
      invar s' \<and> view s' = view s"
    and delete_ok: "invar s \<Longrightarrow> sv_delete srv dq s = (Inr u, s') \<Longrightarrow>
      invar s' \<and> view s' = (view s)(dlr_name dq := None)"
    and delete_err: "invar s \<Longrightarrow> sv_delete srv dq s = (Inl st, s') \<Longrightarrow>
      invar s' \<and> view s' = view s"
    and format_any: "invar s \<Longrightarrow> sv_format srv fq s = (rf, s') \<Longrightarrow>
      invar s' \<and> view s' = view s"
    and format_ok: "invar s \<Longrightarrow> sv_format srv fq s = (Inr u, s') \<Longrightarrow>
      files s' (flr_name fq) = [] \<and> view s (flr_name fq) \<noteq> None"

text \<open>Lookups of a valid name always answer.\<close>

locale reliable_volume_service = volume_service srv view invar files
  for srv :: "'s volume_server" and view :: "'s \<Rightarrow> string \<Rightarrow> LV option"
    and invar :: "'s \<Rightarrow> bool" and files :: "'s \<Rightarrow> string \<Rightarrow> string list" +
  fixes valid :: "string \<Rightarrow> bool"
    and bytes_free :: "'s \<Rightarrow> u64"
  assumes get_hit: "invar s \<Longrightarrow> valid n \<Longrightarrow> view s n = Some lv \<Longrightarrow>
      sv_get srv \<lparr>glr_identifier = Some (Name n)\<rparr> s = (Inr lv, s)"
    and get_none: "invar s \<Longrightarrow> valid n \<Longrightarrow> view s n = None \<Longrightarrow>
      \<exists>st. sv_get srv \<lparr>glr_identifier = Some (Name n)\<rparr> s = (Inl st, s) \<and> st_code st = NotFound"
    and free_bytes: "invar s \<Longrightarrow> sv_get_free_bytes srv s = (Inr (bytes_free s), s)"
    and free_const_create: "invar s \<Longrightarrow> sv_create srv cq s = (rc, s') \<Longrightarrow>
      bytes_free s' = bytes_free s"
    and free_const_format: "invar s \<Longrightarrow> sv_format srv fq s = (rfm, s') \<Longrightarrow>
      bytes_free s' = bytes_free s"
    and free_const_delete: "invar s \<Longrightarrow> sv_delete srv dq s = (rdl, s') \<Longrightarrow>
      bytes_free s' = bytes_free s"


section \<open>What every program keeps\<close>

context volume_service
begin

lemmas reads_pure = list_pure free_pure get_pure

lemma step_invar: "vol_step srv p s p' s' \<Longrightarrow> invar s \<Longrightarrow> invar s'"
proof (induction rule: vol_step.induct)
  case (step_create q s r s' k)
  then show ?case using create_ok create_err by (cases r) blast+
next
  case (step_delete q s r s' k)
  then show ?case using delete_ok delete_err by (cases r) blast+
next
  case (step_format q s r s' k)
  then show ?case using format_any by blast
qed (auto dest: reads_pure)

lemma reach_invar: "vol_reach srv ps s ps' s' \<Longrightarrow> invar s \<Longrightarrow> invar s'"
  by (induction rule: vol_reach.induct) (auto intro: step_invar)

text \<open>A volume only leaves the view by a successful delete of its name, and never changes.\<close>

lemma step_view:
  assumes "vol_step srv p s p' s'" and "invar s" and "view s n = Some lv" and "view s' n \<noteq> Some lv"
  shows "view s' n = None \<and>
    (\<exists>q k. p = VDeleteLogicalVolume q k \<and> dlr_name q = n \<and> sv_delete srv q s = (Inr (), s'))"
  using assms
proof (induction rule: vol_step.induct)
  case (step_create q s r s' k)
  show ?case
  proof (cases r)
    case (Inl st)
    with step_create show ?thesis using create_err by metis
  next
    case (Inr lv')
    with step_create have "view s (clr_name q) = None" and "view s' = (view s)(clr_name q \<mapsto> lv')"
      using create_ok by blast+
    with step_create.prems show ?thesis by (auto split: if_splits)
  qed
next
  case (step_delete q s r s' k)
  show ?case
  proof (cases r)
    case (Inl st)
    with step_delete show ?thesis using delete_err by metis
  next
    case (Inr u)
    with step_delete have "view s' = (view s)(dlr_name q := None)"
      using delete_ok by blast
    with step_delete Inr show ?thesis by (auto split: if_splits)
  qed
next
  case (step_format q s r s' k)
  then show ?case using format_any by metis
qed (auto dest: reads_pure)

end

context reliable_volume_service
begin

text \<open>The free space is the same whatever clients do.\<close>

lemma step_bytes_free: "vol_step srv p s p' s' \<Longrightarrow> invar s \<Longrightarrow> bytes_free s' = bytes_free s"
proof (induction rule: vol_step.induct)
  case (step_create q s r s' k)
  then show ?case by (rule free_const_create [rotated])
next
  case (step_delete q s r s' k)
  then show ?case by (rule free_const_delete [rotated])
next
  case (step_format q s r s' k)
  then show ?case by (rule free_const_format [rotated])
qed (auto dest: reads_pure)

lemma reach_bytes_free: "vol_reach srv ps s ps' s' \<Longrightarrow> invar s \<Longrightarrow> bytes_free s' = bytes_free s"
proof (induction rule: vol_reach.induct)
  case (reach_step ps s ps' s' i p s'')
  then show ?case using step_bytes_free reach_invar by metis
qed simp

end

end
