(* ===== verification/Volumed.thy ===== *)
theory Volumed
  imports Volume_Service Rust_Std
begin

text \<open>
  The volumed daemon (crates/volumed): its configuration, the six RPC handlers of server.rs,
  the interceptor and the start-up checks of main.rs.  The crate lvm2_cmd and the mkfs.xfs
  program are not part of the repository: they are the parameter \<open>lvm_api\<close>, over a world
  type \<open>'w\<close>, and what the proofs need of them is the predicate \<open>lvm_laws\<close>.
\<close>

section \<open>The lvm2_cmd interface\<close>

text \<open>
  \<open>LVMError\<close> as the code matches it; each constructor carries its \<open>to_string\<close> text.
\<close>

datatype lvm_error = LvmNotFound string | LvmCommand string | LvmOther string

primrec lvm_error_text :: "lvm_error \<Rightarrow> string" where
  "lvm_error_text (LvmNotFound m) = m"
| "lvm_error_text (LvmCommand m) = m"
| "lvm_error_text (LvmOther m) = m"

record volume_group =
  vg_name :: string
  vg_capacity_bytes :: usize

record logical_volume =
  lvl_uuid :: string
  lvl_name :: string
  lvl_capacity_bytes :: usize
  lvl_volume_group_name :: string
  lvl_path :: string

record lv_create_options =
  opt_activate :: bool
  opt_capacity_bytes :: usize
  opt_name :: string
  opt_tags :: "string list"

text \<open>
  The functions the daemons call.  \<open>TryFrom\<close> conversions give the text of their error or the
  checked value (a name, a uuid, a capacity); \<open>mkfs_xfs\<close> is the run of the command on a
  device: an I/O error, or its success flag with its standard error.
\<close>

record 'w lvm_api =
  resource_name :: "string \<Rightarrow> string + string"
  resource_uuid :: "string \<Rightarrow> string + string"
  resource_capacity :: "u64 \<Rightarrow> string + usize"
  capacity_text :: "usize \<Rightarrow> string"
  vg_from_id :: "string \<Rightarrow> 'w \<Rightarrow> lvm_error + volume_group"
  vg_list_lvs :: "volume_group \<Rightarrow> 'w \<Rightarrow> lvm_error + logical_volume list"
  vg_add_lv :: "volume_group \<Rightarrow> lv_create_options \<Rightarrow> 'w \<Rightarrow> (lvm_error + logical_volume) \<times> 'w"
  vg_remove_lv :: "volume_group \<Rightarrow> string \<Rightarrow> 'w \<Rightarrow> (lvm_error + unit) \<times> 'w"
  lv_from_id :: "string \<Rightarrow> string \<Rightarrow> 'w \<Rightarrow> lvm_error + logical_volume"
  lv_from_uuid :: "string \<Rightarrow> 'w \<Rightarrow> lvm_error + logical_volume"
  mkfs_xfs :: "string \<Rightarrow> 'w \<Rightarrow> (string + bool \<times> string) \<times> 'w"

section \<open>Configuration and conversions\<close>

record volumed_config =
  cfg_volume_group :: string
  cfg_spare_bytes :: "usize option"

definition map_lvm_error :: "lvm_error \<Rightarrow> status" where
  "map_lvm_error err =
     (case err of
        LvmNotFound _ \<Rightarrow> Status NotFound (lvm_error_text err)
      | LvmCommand _ \<Rightarrow> Status InvalidArgument (lvm_error_text err)
      | LvmOther _ \<Rightarrow> Status Internal (lvm_error_text err))"

definition lv_into :: "logical_volume \<Rightarrow> LV" where
  "lv_into lv =
     \<lparr>lv_uuid = lvl_uuid lv,
      lv_name = lvl_name lv,
      lv_capacity_bytes = unwrap_or (u64_of_usize (lvl_capacity_bytes lv)) 0,
      lv_volume_group = lvl_volume_group_name lv\<rparr>"

section \<open>Handlers\<close>

text \<open>
  The extension of a volumed request is the volume group its interceptor found; a handler
  takes it with \<open>unwrap\<close>, so it panics where it is missing.
\<close>

type_synonym 'm vreq = "(volume_group, 'm) request"

definition get_lv_list :: "'w lvm_api \<Rightarrow> unit vreq \<Rightarrow> 'w \<Rightarrow> LV list outcome \<times> 'w" where
  "get_lv_list L req w =
     (case get_extension req of
        None \<Rightarrow> (Panic, w)
      | Some vg \<Rightarrow>
          (case map_err map_lvm_error (vg_list_lvs L vg w) of
             Inl st \<Rightarrow> (Fail st, w)
           | Inr lvs \<Rightarrow> (Reply (map lv_into lvs), w)))"

definition get_free_bytes ::
  "volumed_config \<Rightarrow> unit vreq \<Rightarrow> 'w \<Rightarrow> u64 outcome \<times> 'w" where
  "get_free_bytes cfg req w =
     (case get_extension req of
        None \<Rightarrow> (Panic, w)
      | Some vg \<Rightarrow>
          (let spare_bytes = unwrap_or (cfg_spare_bytes cfg) 0
           in (of_result
                 (ok_or (u64_of_usize
                           (unwrap_or (checked_sub (vg_capacity_bytes vg) spare_bytes) 0))
                    (Status Internal
                       (''could not cast capacity into a u64: '' @ try_from_int_error_text))), w)))"

definition create_logical_volume ::
  "'w lvm_api \<Rightarrow> create_lv_request vreq \<Rightarrow> 'w \<Rightarrow> LV outcome \<times> 'w" where
  "create_logical_volume L req w =
     (case get_extension req of
        None \<Rightarrow> (Panic, w)
      | Some vg \<Rightarrow>
          (case map_err (Status InvalidArgument) (resource_capacity L (clr_capacity (message req))) of
             Inl st \<Rightarrow> (Fail st, w)
           | Inr capacity \<Rightarrow>
          (case map_err (Status InvalidArgument) (resource_name L (clr_name (message req))) of
             Inl st \<Rightarrow> (Fail st, w)
           | Inr name \<Rightarrow>
          (case vg_add_lv L vg
                  \<lparr>opt_activate = True, opt_capacity_bytes = capacity, opt_name = name,
                   opt_tags = clr_tags (message req)\<rparr> w of
             (Inl err, w') \<Rightarrow> (Fail (map_lvm_error err), w')
           | (Inr lv, w') \<Rightarrow> (Reply (lv_into lv), w')))))"

definition delete_logical_volume ::
  "'w lvm_api \<Rightarrow> delete_lv_request vreq \<Rightarrow> 'w \<Rightarrow> unit outcome \<times> 'w" where
  "delete_logical_volume L req w =
     (case get_extension req of
        None \<Rightarrow> (Panic, w)
      | Some vg \<Rightarrow>
          (case map_err (Status InvalidArgument) (resource_name L (dlr_name (message req))) of
             Inl st \<Rightarrow> (Fail st, w)
           | Inr name \<Rightarrow>
          (case vg_remove_lv L vg name w of
             (Inl err, w') \<Rightarrow> (Fail (map_lvm_error err), w')
           | (Inr u, w') \<Rightarrow> (Reply (), w'))))"

definition format_logical_volume ::
  "'w lvm_api \<Rightarrow> format_lv_request vreq \<Rightarrow> 'w \<Rightarrow> unit outcome \<times> 'w" where
  "format_logical_volume L req w =
     (case get_extension req of
        None \<Rightarrow> (Panic, w)
      | Some vg \<Rightarrow>
          (case map_err (Status InvalidArgument) (resource_name L (flr_name (message req))) of
             Inl st \<Rightarrow> (Fail st, w)
           | Inr name \<Rightarrow>
          (case map_err map_lvm_error (lv_from_id L (vg_name vg) name w) of
             Inl st \<Rightarrow> (Fail st, w)
           | Inr lv \<Rightarrow>
          (case mkfs_xfs L (lvl_path lv) w of
             (Inl err, w') \<Rightarrow>
               (Fail (Status Internal (''could not run mkfs.xfs command: '' @ err)), w')
           | (Inr (success, stderr), w') \<Rightarrow>
               if \<not> success
               then (Fail (Status Internal
                             (''could not format volume `'' @ name @ ''`: '' @ stderr)), w')
               else (Reply (), w')))))"

definition get_logical_volume ::
  "'w lvm_api \<Rightarrow> get_lv_request vreq \<Rightarrow> 'w \<Rightarrow> LV outcome \<times> 'w" where
  "get_logical_volume L req w =
     (case get_extension req of
        None \<Rightarrow> (Panic, w)
      | Some vg \<Rightarrow>
          (of_result
             (and_then
                (ok_or (glr_identifier (message req))
                   (Status InvalidArgument ''missing required field `identifier`''))
                (\<lambda>ident.
                   case ident of
                     Uuid uuid \<Rightarrow>
                       and_then (map_err (Status InvalidArgument) (resource_uuid L uuid))
                         (\<lambda>uuid. and_then (map_err map_lvm_error (lv_from_uuid L uuid w))
                            (\<lambda>lv. Inr (lv_into lv)))
                   | Name name \<Rightarrow>
                       and_then (map_err (Status InvalidArgument) (resource_name L name))
                         (\<lambda>name. and_then (map_err map_lvm_error (lv_from_id L (vg_name vg) name w))
                            (\<lambda>lv. Inr (lv_into lv))))), w))"

section \<open>The interceptor and the served RPCs\<close>

definition vg_injector ::
  "'w lvm_api \<Rightarrow> volumed_config \<Rightarrow> string \<Rightarrow> 'm vreq \<Rightarrow> 'w \<Rightarrow> status + 'm vreq" where
  "vg_injector L cfg resource req w =
     (case vg_from_id L resource w of
        Inl _ \<Rightarrow> Inl (Status Internal (''volume group not found: '' @ cfg_volume_group cfg))
      | Inr info \<Rightarrow> Inr (set_extension info req))"

definition serve_with ::
  "'w lvm_api \<Rightarrow> volumed_config \<Rightarrow> string \<Rightarrow> ('m vreq \<Rightarrow> 'w \<Rightarrow> 'a outcome \<times> 'w) \<Rightarrow> 'm \<Rightarrow> 'w \<Rightarrow>
     'a outcome \<times> 'w" where
  "serve_with L cfg resource handler m w =
     (case vg_injector L cfg resource (new_request m) w of
        Inl st \<Rightarrow> (Fail st, w)
      | Inr req \<Rightarrow> handler req w)"

text \<open>
  What a client of the socket gets: the response or the status.  A handler that panicked has
  no answer, and the client makes up the status \<open>lost\<close> itself.
\<close>

definition client_result :: "status \<Rightarrow> 'a outcome \<times> 'w \<Rightarrow> (status + 'a) \<times> 'w" where
  "client_result lost ow =
     (case ow of
        (Reply x, w) \<Rightarrow> (Inr x, w)
      | (Fail st, w) \<Rightarrow> (Inl st, w)
      | (Panic, w) \<Rightarrow> (Inl lost, w))"

definition volumed_server ::
  "status \<Rightarrow> 'w lvm_api \<Rightarrow> volumed_config \<Rightarrow> string \<Rightarrow> 'w volume_server" where
  "volumed_server lost L cfg resource =
     \<lparr>sv_get_lv_list = (\<lambda>w. client_result lost (serve_with L cfg resource (get_lv_list L) () w)),
      sv_get_free_bytes = (\<lambda>w. client_result lost (serve_with L cfg resource (get_free_bytes cfg) () w)),
      sv_create = (\<lambda>q w. client_result lost (serve_with L cfg resource (create_logical_volume L) q w)),
      sv_delete = (\<lambda>q w. client_result lost (serve_with L cfg resource (delete_logical_volume L) q w)),
      sv_format = (\<lambda>q w. client_result lost (serve_with L cfg resource (format_logical_volume L) q w)),
      sv_get = (\<lambda>q w. client_result lost (serve_with L cfg resource (get_logical_volume L) q w))\<rparr>"

section \<open>Start-up\<close>

text \<open>
  The checks \<open>main\<close> makes before it binds its socket.  Opening and parsing the file are the
  arguments \<open>opened\<close> and \<open>parse\<close>; an error is the text \<open>main\<close> returns.
\<close>

definition volumed_setup ::
  "'w lvm_api \<Rightarrow> string \<Rightarrow> string + 'f \<Rightarrow> ('f \<Rightarrow> string + volumed_config) \<Rightarrow> 'w \<Rightarrow>
     string + volumed_config \<times> string" where
  "volumed_setup L path opened parse w =
     and_then (map_err (\<lambda>err. ''could not open config file '' @ path @ '': '' @ err) opened) (\<lambda>cfg_file.
     and_then (map_err (\<lambda>err. ''invalid config at '' @ path @ '': '' @ err) (parse cfg_file)) (\<lambda>cfg.
     and_then (resource_name L (cfg_volume_group cfg)) (\<lambda>resource.
     and_then (map_err (\<lambda>err. ''could not find specified volume group `'' @ resource @ ''`: ''
                               @ lvm_error_text err) (vg_from_id L resource w)) (\<lambda>vg.
       case cfg_spare_bytes cfg of
         Some spare_bytes \<Rightarrow>
           if vg_capacity_bytes vg \<le> spare_bytes
           then Inl (''capacity of managed volume ('' @ capacity_text L (vg_capacity_bytes vg)
                     @ '') is not larger than the requested spare_bytes ('' @ show_usize spare_bytes
                     @ '')'')
           else Inr (cfg, resource)
       | None \<Rightarrow> Inr (cfg, resource)))))"

section \<open>What lvm2_cmd promises\<close>

text \<open>
  Observers of a world: the logical volume of a group under a name, the size of a group, and
  the files on a device.  The laws state what LVM documents: a name is unique within its
  group, \<open>lvcreate\<close> takes a free name and rounds the size up to whole extents, \<open>lvremove\<close>
  removes the named volume only, \<open>mkfs.xfs -f\<close> leaves an empty filesystem and no volume
  operation changes the size of a group.  Any operation may fail; it then has no effect.
\<close>

record 'w lvm_observers =
  obs_lv :: "'w \<Rightarrow> string \<Rightarrow> string \<Rightarrow> logical_volume option"
  obs_vg :: "'w \<Rightarrow> string \<Rightarrow> usize option"
  obs_files :: "'w \<Rightarrow> string \<Rightarrow> string list"

definition lvm_lookup_laws :: "'w lvm_api \<Rightarrow> 'w lvm_observers \<Rightarrow> bool" where
  "lvm_lookup_laws L V \<longleftrightarrow>
     (\<forall>n m. resource_name L n = Inr m \<longrightarrow> m = n) \<and>
     (\<forall>u v. resource_uuid L u = Inr v \<longrightarrow> v = u) \<and>
     (\<forall>c d. resource_capacity L c = Inr d \<longrightarrow> d = c) \<and>
     (\<forall>w g vg. vg_from_id L g w = Inr vg \<longrightarrow>
        vg_name vg = g \<and> obs_vg V w g = Some (vg_capacity_bytes vg)) \<and>
     (\<forall>w g n lv. obs_lv V w g n = Some lv \<longrightarrow> lvl_name lv = n \<and> lvl_volume_group_name lv = g) \<and>
     (\<forall>w g n lv. lv_from_id L g n w = Inr lv \<longrightarrow> obs_lv V w g n = Some lv) \<and>
     (\<forall>w g n m. lv_from_id L g n w = Inl (LvmNotFound m) \<longrightarrow> obs_lv V w g n = None) \<and>
     (\<forall>w u lv. lv_from_uuid L u w = Inr lv \<longrightarrow>
        lvl_uuid lv = u \<and> obs_lv V w (lvl_volume_group_name lv) (lvl_name lv) = Some lv)"

definition lvm_update_laws :: "'w lvm_api \<Rightarrow> 'w lvm_observers \<Rightarrow> bool" where
  "lvm_update_laws L V \<longleftrightarrow>
     (\<forall>w w' vg opt lv. vg_add_lv L vg opt w = (Inr lv, w') \<longrightarrow>
        obs_lv V w (vg_name vg) (opt_name opt) = None \<and>
        obs_lv V w' = (obs_lv V w)(vg_name vg := (obs_lv V w (vg_name vg))(opt_name opt \<mapsto> lv)) \<and>
        opt_capacity_bytes opt \<le> lvl_capacity_bytes lv) \<and>
     (\<forall>w w' vg opt e. vg_add_lv L vg opt w = (Inl e, w') \<longrightarrow> obs_lv V w' = obs_lv V w) \<and>
     (\<forall>w w' vg opt r. vg_add_lv L vg opt w = (r, w') \<longrightarrow> obs_vg V w' = obs_vg V w) \<and>
     (\<forall>w w' vg n u. vg_remove_lv L vg n w = (Inr u, w') \<longrightarrow>
        obs_lv V w' = (obs_lv V w)(vg_name vg := (obs_lv V w (vg_name vg))(n := None))) \<and>
     (\<forall>w w' vg n e. vg_remove_lv L vg n w = (Inl e, w') \<longrightarrow> obs_lv V w' = obs_lv V w) \<and>
     (\<forall>w w' vg n r. vg_remove_lv L vg n w = (r, w') \<longrightarrow> obs_vg V w' = obs_vg V w) \<and>
     (\<forall>w w' p r. mkfs_xfs L p w = (r, w') \<longrightarrow>
        obs_lv V w' = obs_lv V w \<and> obs_vg V w' = obs_vg V w) \<and>
     (\<forall>w w' p m. mkfs_xfs L p w = (Inr (True, m), w') \<longrightarrow> obs_files V w' p = [])"

definition lvm_laws :: "'w lvm_api \<Rightarrow> 'w lvm_observers \<Rightarrow> bool" where
  "lvm_laws L V \<longleftrightarrow> lvm_lookup_laws L V \<and> lvm_update_laws L V"

text \<open>
  Lookups that do not fail for another reason, and names made of hexadecimal digits are
  valid (LVM accepts letters and digits, and reserves no such name).
\<close>

definition hex_name :: "string \<Rightarrow> bool" where
  "hex_name n \<longleftrightarrow> n \<noteq> [] \<and> list_all (\<lambda>c. to_digit 16 c \<noteq> None) n"

definition lvm_reliable :: "'w lvm_api \<Rightarrow> 'w lvm_observers \<Rightarrow> bool" where
  "lvm_reliable L V \<longleftrightarrow>
     (\<forall>n. hex_name n \<longrightarrow> resource_name L n = Inr n) \<and>
     (\<forall>w g c. obs_vg V w g = Some c \<longrightarrow>
        vg_from_id L g w = Inr \<lparr>vg_name = g, vg_capacity_bytes = c\<rparr>) \<and>
     (\<forall>w g n lv. obs_lv V w g n = Some lv \<longrightarrow> lv_from_id L g n w = Inr lv) \<and>
     (\<forall>w g n. obs_lv V w g n = None \<longrightarrow> (\<exists>m. lv_from_id L g n w = Inl (LvmNotFound m)))"

section \<open>Facts about the handlers\<close>

lemma lvm_laws_lookup:
  assumes "lvm_laws L V"
  shows lvm_name: "resource_name L n = Inr m \<Longrightarrow> m = n"
    and lvm_uuid: "resource_uuid L u = Inr v \<Longrightarrow> v = u"
    and lvm_capacity: "resource_capacity L c = Inr d \<Longrightarrow> d = c"
    and lvm_vg: "vg_from_id L g w = Inr vg \<Longrightarrow>
      vg_name vg = g \<and> obs_vg V w g = Some (vg_capacity_bytes vg)"
    and lvm_obs: "obs_lv V w g n = Some lv \<Longrightarrow> lvl_name lv = n \<and> lvl_volume_group_name lv = g"
    and lvm_found: "lv_from_id L g n w = Inr lv \<Longrightarrow> obs_lv V w g n = Some lv"
    and lvm_not_found: "lv_from_id L g n w = Inl (LvmNotFound t) \<Longrightarrow> obs_lv V w g n = None"
    and lvm_by_uuid: "lv_from_uuid L u w = Inr lv \<Longrightarrow>
      lvl_uuid lv = u \<and> obs_lv V w (lvl_volume_group_name lv) (lvl_name lv) = Some lv"
  using assms unfolding lvm_laws_def lvm_lookup_laws_def by simp_all

lemma lvm_laws_update:
  assumes "lvm_laws L V"
  shows lvm_add_ok: "vg_add_lv L vg opt w = (Inr lv, w') \<Longrightarrow>
      obs_lv V w (vg_name vg) (opt_name opt) = None \<and>
      obs_lv V w' = (obs_lv V w)(vg_name vg := (obs_lv V w (vg_name vg))(opt_name opt \<mapsto> lv)) \<and>
      opt_capacity_bytes opt \<le> lvl_capacity_bytes lv"
    and lvm_add_err: "vg_add_lv L vg opt w = (Inl e, w') \<Longrightarrow> obs_lv V w' = obs_lv V w"
    and lvm_add_vg: "vg_add_lv L vg opt w = (ra, w') \<Longrightarrow> obs_vg V w' = obs_vg V w"
    and lvm_remove_ok: "vg_remove_lv L vg n w = (Inr u, w') \<Longrightarrow>
      obs_lv V w' = (obs_lv V w)(vg_name vg := (obs_lv V w (vg_name vg))(n := None))"
    and lvm_remove_err: "vg_remove_lv L vg n w = (Inl e, w') \<Longrightarrow> obs_lv V w' = obs_lv V w"
    and lvm_remove_vg: "vg_remove_lv L vg n w = (rr, w') \<Longrightarrow> obs_vg V w' = obs_vg V w"
    and lvm_mkfs: "mkfs_xfs L p w = (rm, w') \<Longrightarrow>
      obs_lv V w' = obs_lv V w \<and> obs_vg V w' = obs_vg V w"
    and lvm_mkfs_ok: "mkfs_xfs L p w = (Inr (True, t), w') \<Longrightarrow> obs_files V w' p = []"
  using assms unfolding lvm_laws_def lvm_update_laws_def by - (elim conjE, metis)+

lemmas volumed_defs =
  volumed_server_def serve_with_def vg_injector_def client_result_def

lemma lv_into_simps [simp]:
  "lv_uuid (lv_into lv) = lvl_uuid lv"
  "lv_name (lv_into lv) = lvl_name lv"
  "lv_capacity_bytes (lv_into lv) = lvl_capacity_bytes lv"
  "lv_volume_group (lv_into lv) = lvl_volume_group_name lv"
  by (simp_all add: lv_into_def u64_of_usize_def)

lemma map_lvm_error_NotFound: "st_code (map_lvm_error e) = NotFound \<longleftrightarrow> (\<exists>m. e = LvmNotFound m)"
  by (cases e) (simp_all add: map_lvm_error_def)

text \<open>Whatever a handler answers, it does so without a panic once the interceptor has run.\<close>

lemma client_result_lost:
  "fst ow \<noteq> Panic \<Longrightarrow> client_result lost ow = client_result lost' ow"
  by (cases ow; cases "fst ow") (auto simp: client_result_def)

lemma serve_create_ok:
  "sv_create (volumed_server lost L cfg rn) q w = (Inr lv, w') \<longleftrightarrow>
     (\<exists>vg capacity name l.
        vg_from_id L rn w = Inr vg \<and> resource_capacity L (clr_capacity q) = Inr capacity \<and>
        resource_name L (clr_name q) = Inr name \<and>
        vg_add_lv L vg \<lparr>opt_activate = True, opt_capacity_bytes = capacity, opt_name = name,
                        opt_tags = clr_tags q\<rparr> w = (Inr l, w') \<and> lv = lv_into l)"
  by (auto simp: volumed_defs create_logical_volume_def map_err_def
      split: sum.splits prod.splits outcome.splits)

lemma serve_create_err:
  "sv_create (volumed_server lost L cfg rn) q w = (Inl st, w') \<Longrightarrow>
     w' = w \<or> (\<exists>vg opt e. vg_add_lv L vg opt w = (Inl e, w'))"
  by (auto simp: volumed_defs create_logical_volume_def map_err_def
      split: sum.splits prod.splits outcome.splits)

lemma serve_delete_ok:
  "sv_delete (volumed_server lost L cfg rn) q w = (Inr u, w') \<longleftrightarrow>
     (\<exists>vg name. vg_from_id L rn w = Inr vg \<and> resource_name L (dlr_name q) = Inr name \<and>
        vg_remove_lv L vg name w = (Inr (), w'))"
  by (auto simp: volumed_defs delete_logical_volume_def map_err_def
      split: sum.splits prod.splits outcome.splits)

lemma serve_delete_err:
  "sv_delete (volumed_server lost L cfg rn) q w = (Inl st, w') \<Longrightarrow>
     w' = w \<or> (\<exists>vg n e. vg_remove_lv L vg n w = (Inl e, w'))"
  by (auto simp: volumed_defs delete_logical_volume_def map_err_def
      split: sum.splits prod.splits outcome.splits)

lemma serve_format_ok:
  "sv_format (volumed_server lost L cfg rn) q w = (Inr u, w') \<longleftrightarrow>
     (\<exists>vg name l t. vg_from_id L rn w = Inr vg \<and> resource_name L (flr_name q) = Inr name \<and>
        lv_from_id L (vg_name vg) name w = Inr l \<and>
        mkfs_xfs L (lvl_path l) w = (Inr (True, t), w'))"
  by (auto simp: volumed_defs format_logical_volume_def map_err_def
      split: sum.splits prod.splits outcome.splits if_splits)

lemma serve_format_any:
  "sv_format (volumed_server lost L cfg rn) q w = (r, w') \<Longrightarrow>
     w' = w \<or> (\<exists>p rm. mkfs_xfs L p w = (rm, w'))"
  by (auto simp: volumed_defs format_logical_volume_def map_err_def
      split: sum.splits prod.splits outcome.splits if_splits)

lemma serve_get_pure: "sv_get (volumed_server lost L cfg rn) q w = (r, w') \<Longrightarrow> w' = w"
  by (auto simp: volumed_defs get_logical_volume_def
      split: sum.splits prod.splits outcome.splits)

lemma serve_get_name_ok:
  "sv_get (volumed_server lost L cfg rn) \<lparr>glr_identifier = Some (Name n)\<rparr> w = (Inr lv, w') \<longleftrightarrow>
     w' = w \<and> (\<exists>vg name l. vg_from_id L rn w = Inr vg \<and> resource_name L n = Inr name \<and>
        lv_from_id L (vg_name vg) name w = Inr l \<and> lv = lv_into l)"
  by (auto simp: volumed_defs get_logical_volume_def rust_simps
      split: sum.splits prod.splits outcome.splits)

lemma serve_get_uuid_ok:
  "sv_get (volumed_server lost L cfg rn) \<lparr>glr_identifier = Some (Uuid u)\<rparr> w = (Inr lv, w') \<longleftrightarrow>
     w' = w \<and> (\<exists>vg uuid l. vg_from_id L rn w = Inr vg \<and> resource_uuid L u = Inr uuid \<and>
        lv_from_uuid L uuid w = Inr l \<and> lv = lv_into l)"
  by (auto simp: volumed_defs get_logical_volume_def rust_simps
      split: sum.splits prod.splits outcome.splits)

lemma serve_get_name_missing:
  "sv_get (volumed_server lost L cfg rn) \<lparr>glr_identifier = Some (Name n)\<rparr> w = (Inl st, w') \<Longrightarrow>
     st_code st = NotFound \<Longrightarrow>
     \<exists>vg name m. vg_from_id L rn w = Inr vg \<and> resource_name L n = Inr name \<and>
        lv_from_id L (vg_name vg) name w = Inl (LvmNotFound m)"
  by (auto simp: volumed_defs get_logical_volume_def rust_simps map_lvm_error_NotFound
      split: sum.splits prod.splits outcome.splits)

lemma serve_list:
  "sv_get_lv_list (volumed_server lost L cfg rn) w =
     (and_then (map_err (\<lambda>_. Status Internal (''volume group not found: '' @ cfg_volume_group cfg))
                  (vg_from_id L rn w))
        (\<lambda>vg. and_then (map_err map_lvm_error (vg_list_lvs L vg w))
           (\<lambda>lvs. Inr (map lv_into lvs))), w)"
  by (auto simp: volumed_defs get_lv_list_def split: sum.splits)

lemma serve_free_bytes:
  "sv_get_free_bytes (volumed_server lost L cfg rn) w =
     (and_then (map_err (\<lambda>_. Status Internal (''volume group not found: '' @ cfg_volume_group cfg))
                  (vg_from_id L rn w))
        (\<lambda>vg. Inr (unwrap_or (checked_sub (vg_capacity_bytes vg)
                                (unwrap_or (cfg_spare_bytes cfg) 0)) 0)), w)"
  by (auto simp: volumed_defs get_free_bytes_def u64_of_usize_def split: sum.splits)

text \<open>A delete over all groups: only the named volume of the managed group goes.\<close>

lemma serve_delete_obs:
  assumes "lvm_laws L V" and "sv_delete (volumed_server lost L cfg rn) q w = (Inr u, w')"
  shows "obs_lv V w' = (obs_lv V w)(rn := (obs_lv V w rn)(dlr_name q := None))"
proof -
  from assms obtain vg where "vg_from_id L rn w = Inr vg"
    and remove: "vg_remove_lv L vg (dlr_name q) w = (Inr (), w')"
    unfolding serve_delete_ok by (metis lvm_name)
  then show ?thesis using lvm_remove_ok [OF assms(1) remove] lvm_vg [OF assms(1)] by simp
qed

section \<open>volumed implements the service\<close>

definition vol_view :: "'w lvm_observers \<Rightarrow> string \<Rightarrow> 'w \<Rightarrow> string \<Rightarrow> LV option" where
  "vol_view V rn w n = map_option lv_into (obs_lv V w rn n)"

definition vol_files :: "'w lvm_observers \<Rightarrow> string \<Rightarrow> 'w \<Rightarrow> string \<Rightarrow> string list" where
  "vol_files V rn w n = (case obs_lv V w rn n of None \<Rightarrow> [] | Some l \<Rightarrow> obs_files V w (lvl_path l))"

definition vol_invar :: "'w lvm_api \<Rightarrow> 'w lvm_observers \<Rightarrow> 'w \<Rightarrow> bool" where
  "vol_invar L V w \<longleftrightarrow> lvm_laws L V"

interpretation volumed: volume_service
  "volumed_server lost L cfg rn" "vol_view V rn" "vol_invar L V" "vol_files V rn"
  for lost :: status and L :: "'w lvm_api" and cfg :: volumed_config and rn :: string
    and V :: "'w lvm_observers"
proof (unfold_locales, goal_cases)
  case (1 s rl s')
  then show ?case by (simp add: serve_list)
next
  case (2 s rf s')
  then show ?case by (simp add: serve_free_bytes)
next
  case (3 q s rg s')
  then show ?case by (rule serve_get_pure)
next
  case (4 s n lv)
  then show ?case by (auto simp: vol_view_def vol_invar_def dest: lvm_obs)
next
  case (5 s n lv s')
  then show ?case unfolding serve_get_name_ok vol_view_def vol_invar_def
    by (metis lvm_found lvm_name lvm_vg option.simps(9))
next
  case (6 s n st s')
  then obtain vg name m where "vg_from_id L rn s = Inr vg" and "resource_name L n = Inr name"
    and "lv_from_id L (vg_name vg) name s = Inl (LvmNotFound m)"
    using serve_get_name_missing [OF 6(2,3)] by blast
  with 6(1) show ?case unfolding vol_view_def vol_invar_def
    by (metis lvm_not_found lvm_name lvm_vg option.simps(8))
next
  case (7 s cq lv s')
  then obtain vg l where laws: "lvm_laws L V" and "vg_from_id L rn s = Inr vg"
    and add: "vg_add_lv L vg \<lparr>opt_activate = True, opt_capacity_bytes = clr_capacity cq,
      opt_name = clr_name cq, opt_tags = clr_tags cq\<rparr> s = (Inr l, s')" and "lv = lv_into l"
    unfolding serve_create_ok vol_invar_def by (metis lvm_name lvm_capacity)
  then show ?case using lvm_add_ok [OF laws add] lvm_vg [OF laws]
    by (auto simp: vol_view_def vol_invar_def fun_eq_iff)
next
  case (8 s cq st s')
  then have "obs_lv V s' = obs_lv V s"
    using serve_create_err [OF 8(2)] unfolding vol_invar_def by (metis lvm_add_err)
  with 8 show ?case by (simp add: vol_view_def vol_invar_def fun_eq_iff)
next
  case (9 s dq u s')
  then obtain vg where laws: "lvm_laws L V" and "vg_from_id L rn s = Inr vg"
    and remove: "vg_remove_lv L vg (dlr_name dq) s = (Inr (), s')"
    unfolding serve_delete_ok vol_invar_def by (metis lvm_name)
  then show ?case using lvm_remove_ok [OF laws remove] lvm_vg [OF laws]
    by (auto simp: vol_view_def vol_invar_def fun_eq_iff)
next
  case (10 s dq st s')
  then have "obs_lv V s' = obs_lv V s"
    using serve_delete_err [OF 10(2)] unfolding vol_invar_def by (metis lvm_remove_err)
  with 10 show ?case by (simp add: vol_view_def vol_invar_def fun_eq_iff)
next
  case (11 s fq rf s')
  then have "obs_lv V s' = obs_lv V s"
    using serve_format_any [OF 11(2)] unfolding vol_invar_def by (metis lvm_mkfs)
  with 11 show ?case by (simp add: vol_view_def vol_invar_def fun_eq_iff)
next
  case (12 s fq u s')
  then obtain vg l t where laws: "lvm_laws L V" and vg: "vg_from_id L rn s = Inr vg"
    and l: "lv_from_id L (vg_name vg) (flr_name fq) s = Inr l"
    and mkfs: "mkfs_xfs L (lvl_path l) s = (Inr (True, t), s')"
    unfolding serve_format_ok vol_invar_def by (metis lvm_name)
  have "obs_lv V s rn (flr_name fq) = Some l"
    using lvm_found [OF laws l] lvm_vg [OF laws vg] by simp
  then show ?case using lvm_mkfs [OF laws mkfs] lvm_mkfs_ok [OF laws mkfs]
    by (simp add: vol_files_def vol_view_def)
qed

text \<open>The same for lookups that do not fail, as long as the managed group exists.\<close>

definition vol_ready :: "'w lvm_api \<Rightarrow> 'w lvm_observers \<Rightarrow> string \<Rightarrow> 'w \<Rightarrow> bool" where
  "vol_ready L V rn w \<longleftrightarrow> lvm_laws L V \<and> lvm_reliable L V \<and> obs_vg V w rn \<noteq> None"

definition vol_bytes_free :: "'w lvm_observers \<Rightarrow> volumed_config \<Rightarrow> string \<Rightarrow> 'w \<Rightarrow> u64" where
  "vol_bytes_free V cfg rn w =
     unwrap_or (checked_sub (unwrap_or (obs_vg V w rn) 0) (unwrap_or (cfg_spare_bytes cfg) 0)) 0"

lemma vol_ready_invar: "vol_ready L V rn w \<Longrightarrow> vol_invar L V w"
  by (simp add: vol_ready_def vol_invar_def)

lemma lvm_reliable_rules:
  assumes "lvm_reliable L V"
  shows lvm_name_valid: "hex_name n \<Longrightarrow> resource_name L n = Inr n"
    and lvm_vg_found: "obs_vg V w g = Some c \<Longrightarrow>
      vg_from_id L g w = Inr \<lparr>vg_name = g, vg_capacity_bytes = c\<rparr>"
    and lvm_lv_found: "obs_lv V w g n = Some lv \<Longrightarrow> lv_from_id L g n w = Inr lv"
    and lvm_lv_missing: "obs_lv V w g n = None \<Longrightarrow> \<exists>m. lv_from_id L g n w = Inl (LvmNotFound m)"
  using assms unfolding lvm_reliable_def by simp_all

lemma serve_create_obs_vg:
  "lvm_laws L V \<Longrightarrow> sv_create (volumed_server lost L cfg rn) q w = (r, w') \<Longrightarrow>
     obs_vg V w' = obs_vg V w"
  by (cases r) (auto simp: serve_create_ok dest!: serve_create_err dest: lvm_add_vg)

lemma serve_delete_obs_vg:
  "lvm_laws L V \<Longrightarrow> sv_delete (volumed_server lost L cfg rn) q w = (r, w') \<Longrightarrow>
     obs_vg V w' = obs_vg V w"
  by (cases r) (auto simp: serve_delete_ok dest!: serve_delete_err dest: lvm_remove_vg)

lemma serve_format_obs_vg:
  "lvm_laws L V \<Longrightarrow> sv_format (volumed_server lost L cfg rn) q w = (r, w') \<Longrightarrow>
     obs_vg V w' = obs_vg V w"
  by (auto dest!: serve_format_any dest: lvm_mkfs)

interpretation volumed_reliable: reliable_volume_service
  "volumed_server lost L cfg rn" "vol_view V rn" "vol_ready L V rn" "vol_files V rn"
  hex_name "vol_bytes_free V cfg rn"
  for lost :: status and L :: "'w lvm_api" and cfg :: volumed_config and rn :: string
    and V :: "'w lvm_observers"
proof (unfold_locales, goal_cases)
  case (1 s rl s')
  then show ?case by (rule volumed.list_pure)
next
  case (2 s rf s')
  then show ?case by (rule volumed.free_pure)
next
  case (3 q s rg s')
  then show ?case by (rule volumed.get_pure)
next
  case (4 s n lv)
  then show ?case using volumed.view_name [OF vol_ready_invar [OF 4(1)]] by blast
next
  case (5 s n lv s')
  then show ?case using volumed.get_found [OF vol_ready_invar [OF 5(1)]] by blast
next
  case (6 s n st s')
  then show ?case using volumed.get_missing [OF vol_ready_invar [OF 6(1)]] by blast
next
  case (7 s cq lv s')
  then show ?case using volumed.create_ok [OF vol_ready_invar [OF 7(1)]]
    by (auto simp: vol_ready_def serve_create_obs_vg)
next
  case (8 s cq st s')
  then show ?case using volumed.create_err [OF vol_ready_invar [OF 8(1)]]
    by (auto simp: vol_ready_def serve_create_obs_vg)
next
  case (9 s dq u s')
  then show ?case using volumed.delete_ok [OF vol_ready_invar [OF 9(1)]]
    by (auto simp: vol_ready_def serve_delete_obs_vg)
next
  case (10 s dq st s')
  then show ?case using volumed.delete_err [OF vol_ready_invar [OF 10(1)]]
    by (auto simp: vol_ready_def serve_delete_obs_vg)
next
  case (11 s fq rf s')
  then show ?case using volumed.format_any [OF vol_ready_invar [OF 11(1)]]
    by (auto simp: vol_ready_def serve_format_obs_vg)
next
  case (12 s fq u s')
  then show ?case using volumed.format_ok [OF vol_ready_invar [OF 12(1)]] by blast
next
  case (13 s n lv)
  then show ?case unfolding vol_ready_def vol_view_def
    by (auto simp: serve_get_name_ok lvm_name_valid [of L V] lvm_lv_found [of L V]
        lvm_vg_found [of L V])
next
  case (14 s n)
  then obtain c m where "obs_vg V s rn = Some c" and "lv_from_id L rn n s = Inl (LvmNotFound m)"
    and "lvm_reliable L V"
    unfolding vol_ready_def vol_view_def using lvm_lv_missing by fastforce
  with 14(2) show ?case
    by (auto simp: volumed_defs get_logical_volume_def lvm_name_valid lvm_vg_found map_lvm_error_def)
next
  case (15 s)
  then obtain c where "obs_vg V s rn = Some c" and "lvm_reliable L V"
    unfolding vol_ready_def by auto
  then show ?case by (simp add: serve_free_bytes vol_bytes_free_def lvm_vg_found)
next
  case (16 s cq rc s')
  then show ?case by (simp add: vol_bytes_free_def vol_ready_def serve_create_obs_vg [of L V])
next
  case (17 s fq rfm s')
  then show ?case by (simp add: vol_bytes_free_def vol_ready_def serve_format_obs_vg [of L V])
next
  case (18 s dq rdl s')
  then show ?case by (simp add: vol_bytes_free_def vol_ready_def serve_delete_obs_vg [of L V])
qed

end
