(* ===== verification/Controller.thy ===== *)
theory Controller
  imports Csi Volumed
begin

text \<open>
  The CSI controller service (crates/csi/src/controller.rs): every RPC handler as a program
  over the VolumeService client, and what a handler does against any server that keeps the
  contract of the service, proved once in the locales \<open>volume_service\<close> and
  \<open>reliable_volume_service\<close>.
\<close>

section \<open>The service and its environment\<close>

record controller =
  ctl_node_id :: string

text \<open>
  What the handlers use of the standard library and of the generated code without a
  specified value: the digest of \<open>DefaultHasher\<close> for a string, the texts of \<open>Display\<close> for
  \<open>Status\<close> and of \<open>Debug\<close> for \<open>LogicalVolume\<close>, and whether the build checks overflows.
\<close>

record ctl_env =
  default_hash :: "string \<Rightarrow> u64"
  status_text :: "status \<Rightarrow> string"
  lv_debug :: "LV \<Rightarrow> string"
  overflow_checks :: bool

text \<open>\<open>extensions().get::<VolumeServiceClient<Channel>>().unwrap()\<close>: the handler needs the client.\<close>

definition with_volume_client :: "'m creq \<Rightarrow> ('m \<Rightarrow> 'a outcome vol_prog) \<Rightarrow> 'a outcome vol_prog" where
  "with_volume_client req k =
     (if get_extension req = Some VolumeServiceClient then k (message req) else VRet Panic)"

definition hash_resource :: "ctl_env \<Rightarrow> string \<Rightarrow> string" where
  "hash_resource E obj = show_hex (default_hash E obj)"

definition get_host_topology :: "controller \<Rightarrow> topology" where
  "get_host_topology self = \<lparr>segments = [(''host'', ctl_node_id self)]\<rparr>"

definition get_access_topologies :: "controller \<Rightarrow> topology list" where
  "get_access_topologies self = [get_host_topology self]"

definition process_volume :: "controller \<Rightarrow> LV \<Rightarrow> volume" where
  "process_volume self lv =
     \<lparr>vol_capacity_bytes = as_i64 (lv_capacity_bytes lv),
      vol_volume_id = lv_uuid lv,
      vol_volume_context = [(''name'', lv_name lv)],
      vol_content_source = None,
      vol_accessible_topology = get_access_topologies self\<rparr>"

definition controller_capability :: "controller_rpc_type \<Rightarrow> controller_service_capability" where
  "controller_capability c = \<lparr>csc_type = Some (controller_rpc_to_i32 c)\<rparr>"

section \<open>Handlers\<close>

definition page_start :: "string \<Rightarrow> status + usize" where
  "page_start starting_token =
     (if starting_token \<noteq> []
      then map_err (\<lambda>err. Status Aborted
                     (''`starting_token` must be a valid positive integer: ''
                      @ parse_int_error_text err))
             (parse_usize starting_token)
      else Inr 0)"

definition list_volumes ::
  "ctl_env \<Rightarrow> controller \<Rightarrow> list_volumes_request creq \<Rightarrow> list_volumes_response outcome vol_prog" where
  "list_volumes E self request = with_volume_client request (\<lambda>req.
     v_then (v_result
       (ok_or (usize_of_i32 (lvr_max_entries req))
          (Status InvalidArgument
             (''`max_entries` must be a valid positive integer: '' @ try_from_int_error_text))))
     (\<lambda>max_entries.
     v_then (v_result (page_start (lvr_starting_token req)))
     (\<lambda>start.
     VGetLvList (\<lambda>resp.
     v_then (v_result
       (map_err (\<lambda>err. Status Internal
                  (''could not get_lv_list from volumed: '' @ status_text E err)) resp))
     (\<lambda>volumes.
       let lvs = take (unat (if max_entries = 0 then usize_MAX else max_entries))
                   (map (\<lambda>lv. \<lparr>entry_volume = Some (process_volume self lv),
                               entry_status = None\<rparr>) volumes)
       in case usize_add (overflow_checks E) start max_entries of
            None \<Rightarrow> VRet Panic
          | Some last_index \<Rightarrow>
              VRet (Reply
                \<lparr>lvs_entries = lvs,
                 lvs_next_token =
                   (if unat last_index < length lvs then show_usize last_index else [])\<rparr>))))))"

definition is_multi_node :: "mode \<Rightarrow> bool" where
  "is_multi_node m \<longleftrightarrow>
     List.member [MultiNodeMultiWriter, MultiNodeReaderOnly, MultiNodeSingleWriter] m"

definition get_capacity ::
  "ctl_env \<Rightarrow> controller \<Rightarrow> get_capacity_request creq \<Rightarrow> get_capacity_response outcome vol_prog" where
  "get_capacity E self request = with_volume_client request (\<lambda>req.
     let multi_caps =
           find is_multi_node
             (map (\<lambda>cap. access_mode_mode (unwrap_or (cap_access_mode cap) default_access_mode))
                (gcr_volume_capabilities req))
     in if multi_caps \<noteq> None then VRet (Reply default_get_capacity_response)
        else if option_topology_eq (Some (get_host_topology self)) (gcr_accessible_topology req)
        then VRet (Reply default_get_capacity_response)
        else
          VGetFreeBytes (\<lambda>resp.
          v_then (v_result
            (map_err (\<lambda>err. Status Internal
                       (''could not get_free_bytes from volumed: '' @ status_text E err)) resp))
          (\<lambda>capacity.
            VRet (Reply
              \<lparr>gcs_available_capacity = as_i64 capacity,
               gcs_maximum_volume_size = None,
               gcs_minimum_volume_size = Some (as_i64 MIN_VOLUME_SIZE_BYTES)\<rparr>))))"

definition controller_get_capabilities ::
  "unit creq \<Rightarrow> controller_service_capability list outcome" where
  "controller_get_capabilities _ =
     Reply [controller_capability ListVolumes, controller_capability CreateDeleteVolume,
            controller_capability GetCapacity]"

definition requested_capacity :: "capacity_range option \<Rightarrow> status + usize \<times> usize" where
  "requested_capacity capacity_range =
     (case capacity_range of
        Some cap \<Rightarrow>
          and_then (ok_or (usize_of_i64 (cr_required_bytes cap))
                      (Status InvalidArgument ''capacity must be a valid unsigned int''))
            (\<lambda>size. and_then (ok_or (usize_of_i64 (cr_limit_bytes cap))
                                (Status InvalidArgument ''limit bytes must be a valid unsigned int''))
               (\<lambda>limit. Inr (size, limit)))
      | None \<Rightarrow> Inr (MIN_VOLUME_SIZE_BYTES, 0))"

text \<open>
  A step of \<open>create_volume\<close>: find the volume of the hashed name, or create it.
\<close>

definition find_or_create ::
  "ctl_env \<Rightarrow> string \<Rightarrow> string \<Rightarrow> usize \<Rightarrow> LV outcome vol_prog" where
  "find_or_create E req_name safe_name capacity =
     VGetLogicalVolume \<lparr>glr_identifier = Some (Name safe_name)\<rparr> (\<lambda>volume.
       case volume of
         Inr old \<Rightarrow>
           if lv_capacity_bytes old \<noteq> capacity
           then v_fail (Status AlreadyExists
                  (''attempting to create an existing volume with different capacities: found ''
                   @ lv_debug E old @ '', '' @ show_usize capacity @ '' bytes requested''))
           else VRet (Reply old)
       | Inl status \<Rightarrow>
           if st_code status = NotFound
           then VCreateLogicalVolume
                  \<lparr>clr_name = safe_name, clr_capacity = capacity, clr_tags = [''name='' @ req_name]\<rparr>
                  v_result
           else v_fail status)"

text \<open>The first half: the size to provision, once it has been checked.\<close>

definition admit_capacity :: "ctl_env \<Rightarrow> create_volume_request \<Rightarrow> usize outcome vol_prog" where
  "admit_capacity E req =
     v_then (v_result (requested_capacity (cvr_capacity_range req))) (\<lambda>(capacity, _).
     VGetFreeBytes (\<lambda>resp.
     v_then (v_result
       (map_err (\<lambda>err. Status Internal
                  (''could not get_free_bytes from volumed: '' @ status_text E err)) resp))
     (\<lambda>total_capacity.
     if capacity < MIN_VOLUME_SIZE_BYTES
     then v_fail (Status OutOfRange
            (''cannot create a volume smaller than the smallest allowed size: ''
             @ show_usize capacity @ '' < '' @ show_usize MIN_VOLUME_SIZE_BYTES))
     else if capacity > total_capacity
     then v_fail (Status OutOfRange
            (''cannot create volume larger than the space available: ''
             @ show_usize capacity @ '' > '' @ show_usize total_capacity))
     else VRet (Reply capacity))))"

text \<open>The last part: find or create the volume, format it, and answer.\<close>

definition provision_volume ::
  "ctl_env \<Rightarrow> controller \<Rightarrow> string \<Rightarrow> usize \<Rightarrow> create_volume_response outcome vol_prog" where
  "provision_volume E self name capacity =
     (let safe_name = hash_resource E name
      in v_then (find_or_create E name safe_name capacity) (\<lambda>volume.
         VFormatLogicalVolume \<lparr>flr_name = safe_name\<rparr> (\<lambda>resp.
         v_then (v_result resp) (\<lambda>_.
           VRet (Reply \<lparr>cvs_volume = Some (process_volume self volume)\<rparr>)))))"

definition create_volume ::
  "ctl_env \<Rightarrow> controller \<Rightarrow> create_volume_request creq \<Rightarrow> create_volume_response outcome vol_prog" where
  "create_volume E self request = with_volume_client request (\<lambda>req.
     if cvr_name req = [] then v_fail (Status InvalidArgument ''missing volume name'')
     else if cvr_volume_capabilities req = []
     then v_fail (Status InvalidArgument ''missing volume capabilities'')
     else v_then (admit_capacity E req) (\<lambda>capacity.
            provision_volume E self (cvr_name req) capacity))"

definition delete_volume ::
  "ctl_env \<Rightarrow> delete_volume_request creq \<Rightarrow> unit outcome vol_prog" where
  "delete_volume E request = with_volume_client request (\<lambda>req.
     if dvr_volume_id req = []
     then v_fail (Status InvalidArgument ''missing required field `volume_id`'')
     else
     VGetLogicalVolume \<lparr>glr_identifier = Some (Uuid (dvr_volume_id req))\<rparr> (\<lambda>resp.
       case result_ok resp of
         Some volume \<Rightarrow>
           VDeleteLogicalVolume \<lparr>dlr_name = lv_name volume\<rparr> (\<lambda>resp.
             v_then (v_result resp) (\<lambda>_. VRet (Reply ())))
       | None \<Rightarrow> VRet (Reply ())))"

definition validate_volume_capabilities ::
  "ctl_env \<Rightarrow> validate_request creq \<Rightarrow> validate_response outcome vol_prog" where
  "validate_volume_capabilities E request = with_volume_client request (\<lambda>req.
     if val_volume_id req = []
     then v_fail (Status InvalidArgument ''missing required field `volume_id`'')
     else if val_volume_capabilities req = []
     then v_fail (Status InvalidArgument ''missing required field `volume_capabilities`'')
     else
     VGetLogicalVolume \<lparr>glr_identifier = Some (Uuid (val_volume_id req))\<rparr> (\<lambda>resp.
     v_then (v_result (map_err (\<lambda>err. Status NotFound (status_text E err)) resp)) (\<lambda>lv.
       VRet (Reply
         \<lparr>vrs_confirmed = Some
            \<lparr>conf_parameters = [],
             conf_volume_capabilities =
               [\<lparr>cap_access_mode = Some \<lparr>am_mode = mode_to_i32 SingleNodeWriter\<rparr>,
                 cap_access_type = Some BlockVolume\<rparr>,
                \<lparr>cap_access_mode = Some \<lparr>am_mode = mode_to_i32 SingleNodeWriter\<rparr>,
                 cap_access_type = Some (MountVolume ''xfs'' [] [])\<rparr>],
             conf_volume_context = [(''name'', lv_name lv)]\<rparr>,
          vrs_message = []\<rparr>))))"

text \<open>The RPCs that are not implemented.\<close>

definition controller_publish_volume :: "'m creq \<Rightarrow> unit outcome" where
  "controller_publish_volume _ = Fail (Status Unimplemented ''not implemented'')"

definition controller_unpublish_volume :: "'m creq \<Rightarrow> unit outcome" where
  "controller_unpublish_volume _ = Fail (Status Unimplemented ''not implemented'')"

definition create_snapshot :: "'m creq \<Rightarrow> unit outcome" where
  "create_snapshot _ = Fail (Status Unimplemented ''not implemented'')"

definition delete_snapshot :: "'m creq \<Rightarrow> unit outcome" where
  "delete_snapshot _ = Fail (Status Unimplemented ''not implemented'')"

definition list_snapshots :: "'m creq \<Rightarrow> unit outcome" where
  "list_snapshots _ = Fail (Status Unimplemented ''not implemented'')"

definition controller_expand_volume :: "'m creq \<Rightarrow> unit outcome" where
  "controller_expand_volume _ = Fail (Status Unimplemented ''not implemented'')"

definition controller_get_volume :: "'m creq \<Rightarrow> unit outcome" where
  "controller_get_volume _ = Fail (Status Unimplemented ''not implemented'')"

section \<open>The interceptor\<close>

text \<open>
  \<open>client_injector\<close> of bin/controller.rs puts the volumed client into every request;
  \<open>controller_rpc\<close> is a handler behind it, on a message from the socket.
\<close>

definition inject_volume_client :: "'m creq \<Rightarrow> status + 'm creq" where
  "inject_volume_client req = Inr (set_extension VolumeServiceClient req)"

definition controller_rpc :: "('m creq \<Rightarrow> 'a outcome vol_prog) \<Rightarrow> 'm \<Rightarrow> 'a outcome vol_prog" where
  "controller_rpc handler m =
     (case inject_volume_client (new_request m) of
        Inl st \<Rightarrow> VRet (Fail st)
      | Inr req \<Rightarrow> handler req)"

lemma controller_rpc_eq [simp]:
  "controller_rpc handler m = handler (set_extension VolumeServiceClient (new_request m))"
  by (simp add: controller_rpc_def inject_volume_client_def)

lemma with_volume_client_injected [simp]:
  "with_volume_client (set_extension VolumeServiceClient (new_request m)) k = k m"
  by (simp add: with_volume_client_def)

section \<open>Facts about the helpers\<close>

lemma process_volume_simps [simp]:
  "vol_volume_id (process_volume self lv) = lv_uuid lv"
  "vol_capacity_bytes (process_volume self lv) = as_i64 (lv_capacity_bytes lv)"
  "vol_volume_context (process_volume self lv) = [(''name'', lv_name lv)]"
  "vol_accessible_topology (process_volume self lv) = [get_host_topology self]"
  by (simp_all add: process_volume_def get_access_topologies_def)

lemma hash_resource_inj:
  "hash_resource E a = hash_resource E b \<longleftrightarrow> default_hash E a = default_hash E b"
  by (simp add: hash_resource_def show_hex_inj)

lemma hash_resource_hex: "hex_name (hash_resource E n)"
proof -
  have "to_digit 16 (digit_char d) \<noteq> None" if "d < 16" for d
    using that by (simp add: to_digit_def of_char_digit_char Let_def)
  then have "\<forall>c \<in> set (show_hex (default_hash E n)). to_digit 16 c \<noteq> None"
    using show_radix_digits [of 16 "unat (default_hash E n)"] unfolding show_hex_def by auto
  then show ?thesis by (simp add: hex_name_def hash_resource_def list_all_iff)
qed

lemma hash_resource_length: "length (hash_resource E n) \<le> 16"
proof -
  have "unat (default_hash E n) < 16 ^ Suc 15"
    using unat_usize_less [of "default_hash E n"] by simp
  then show ?thesis
    unfolding hash_resource_def show_hex_def using show_radix_length [of 16 _ 15] by simp
qed

lemma requested_capacity_Inr:
  "requested_capacity r = Inr (c, l) \<longleftrightarrow>
     (case r of None \<Rightarrow> c = MIN_VOLUME_SIZE_BYTES \<and> l = 0
      | Some cap \<Rightarrow> c = cr_required_bytes cap \<and> l = cr_limit_bytes cap \<and>
          unat c < 2 ^ 63 \<and> unat l < 2 ^ 63)"
  by (auto simp: requested_capacity_def rust_simps usize_of_i64_Some split: option.splits)

section \<open>Creating a volume, against any volume service\<close>

text \<open>
  What provisioning does to the volumes, and what a response promises: the volume named
  \<open>sn\<close> was there with the size asked for, or is new and at least that large; a response
  describes it, and its filesystem is then empty.
\<close>

definition provisioned ::
  "('s \<Rightarrow> string \<Rightarrow> LV option) \<Rightarrow> ('s \<Rightarrow> string \<Rightarrow> string list) \<Rightarrow> controller \<Rightarrow> string \<Rightarrow> usize \<Rightarrow>
     's \<Rightarrow> create_volume_response outcome \<Rightarrow> 's \<Rightarrow> bool" where
  "provisioned view files self sn c s out s' \<longleftrightarrow>
     (\<exists>lv. view s' sn = Some lv \<and>
        (view s sn = Some lv \<and> view s' = view s \<and> lv_capacity_bytes lv = c \<or>
         view s sn = None \<and> view s' = (view s)(sn \<mapsto> lv) \<and> c \<le> lv_capacity_bytes lv) \<and>
        (case out of
           Reply resp \<Rightarrow>
             resp = \<lparr>cvs_volume = Some (process_volume self lv)\<rparr> \<and> files s' sn = []
         | Fail _ \<Rightarrow> True
         | Panic \<Rightarrow> False))"

context volume_service
begin

lemma run_find_or_create:
  assumes "invar s" and "run_vol (find_or_create E n sn c) srv s = (out, s')"
  shows "invar s' \<and>
    ((\<exists>lv. out = Reply lv \<and> view s sn = Some lv \<and> lv_capacity_bytes lv = c \<and> s' = s) \<or>
     (\<exists>lv. out = Reply lv \<and> view s sn = None \<and> view s' = (view s)(sn \<mapsto> lv) \<and>
        c \<le> lv_capacity_bytes lv) \<or>
     (\<exists>st. out = Fail st \<and> view s' = view s))"
proof -
  obtain r t where get: "sv_get srv \<lparr>glr_identifier = Some (Name sn)\<rparr> s = (r, t)" by fastforce
  then have t: "t = s" by (rule get_pure)
  show ?thesis
  proof (cases r)
    case (Inr old)
    with assms(1) get have "view s sn = Some old" using get_found by blast
    with assms get t Inr show ?thesis
      by (auto simp: find_or_create_def split: if_splits)
  next
    case (Inl st)
    show ?thesis
    proof (cases "st_code st = NotFound")
      case False
      with assms get t Inl show ?thesis by (auto simp: find_or_create_def)
    next
      case True
      obtain rc u where create: "sv_create srv \<lparr>clr_name = sn, clr_capacity = c,
        clr_tags = [''name='' @ n]\<rparr> s = (rc, u)" by fastforce
      with assms(2) get t Inl True have out: "out = of_result rc" and u: "s' = u"
        by (auto simp: find_or_create_def)
      show ?thesis
        using create_ok [OF assms(1), of _ _ u] create_err [OF assms(1), of _ _ u] create out u
        by (cases rc) fastforce+
    qed
  qed
qed

lemma run_admit_capacity:
  assumes "run_vol (admit_capacity E m) srv s = (out, s')"
  shows "s' = s \<and>
    (\<forall>c. out = Reply c \<longrightarrow>
       (\<exists>l total. requested_capacity (cvr_capacity_range m) = Inr (c, l) \<and>
          sv_get_free_bytes srv s = (Inr total, s) \<and> MIN_VOLUME_SIZE_BYTES \<le> c \<and> c \<le> total))"
  using assms
  by (auto simp: admit_capacity_def v_then_v_result rust_simps
      split: if_splits sum.splits prod.splits dest!: free_pure)

lemma run_provision_volume:
  assumes inv: "invar s" and run: "run_vol (provision_volume E self n c) srv s = (out, s')"
  defines "sn \<equiv> hash_resource E n"
  shows "invar s' \<and>
    (view s' = view s \<and> (\<exists>st. out = Fail st) \<or> provisioned view files self sn c s out s')"
proof -
  obtain f t where foc: "run_vol (find_or_create E n sn c) srv s = (f, t)" by fastforce
  note ft = run_find_or_create [OF inv foc]
  obtain rf u where fmt: "sv_format srv \<lparr>flr_name = sn\<rparr> t = (rf, u)" by fastforce
  have u: "invar u" "view u = view t" using format_any [OF _ fmt] ft by auto
  have empty: "files u sn = []" if "rf = Inr r" for r
    using format_ok [OF _ fmt [unfolded that]] ft by simp
  show ?thesis
  proof (cases f)
    case (Reply lv)
    with run foc fmt
    have out: "s' = u" "out = (case rf of Inl st \<Rightarrow> Fail st
        | Inr _ \<Rightarrow> Reply \<lparr>cvs_volume = Some (process_volume self lv)\<rparr>)"
      by (auto simp: provision_volume_def run_v_then v_then_v_result sn_def [symmetric] Let_def
          split: sum.splits)
    have "view t sn = Some lv \<and>
        (view s sn = Some lv \<and> view t = view s \<and> lv_capacity_bytes lv = c \<or>
         view s sn = None \<and> view t = (view s)(sn \<mapsto> lv) \<and> c \<le> lv_capacity_bytes lv)"
      using ft Reply by auto
    with out u empty show ?thesis unfolding provisioned_def by (auto split: sum.splits)
  next
    case (Fail st)
    with run foc have "s' = t" "out = Fail st"
      by (auto simp: provision_volume_def run_v_then sn_def [symmetric] Let_def)
    with Fail ft show ?thesis by auto
  next
    case Panic
    with ft show ?thesis by auto
  qed
qed

lemma run_create_volume:
  assumes inv: "invar s" and run: "run_vol (controller_rpc (create_volume E self) m) srv s = (out, s')"
  shows "invar s' \<and>
    (view s' = view s \<and> (\<exists>st. out = Fail st) \<or>
     (\<exists>c l. requested_capacity (cvr_capacity_range m) = Inr (c, l) \<and> MIN_VOLUME_SIZE_BYTES \<le> c \<and>
        provisioned view files self (hash_resource E (cvr_name m)) c s out s'))"
proof -
  obtain a t where admit: "run_vol (admit_capacity E m) srv s = (a, t)" by fastforce
  note ad = run_admit_capacity [OF this]
  show ?thesis
  proof (cases "cvr_name m \<noteq> [] \<and> cvr_volume_capabilities m \<noteq> []")
    case False
    with run inv show ?thesis by (auto simp: create_volume_def split: if_splits)
  next
    case True
    show ?thesis
    proof (cases a)
      case (Reply c)
      with run admit ad True
      have "run_vol (provision_volume E self (cvr_name m) c) srv s = (out, s')"
        by (auto simp: create_volume_def run_v_then)
      from run_provision_volume [OF inv this] ad Reply show ?thesis by blast
    next
      case (Fail st)
      with run admit ad True inv show ?thesis by (auto simp: create_volume_def run_v_then)
    next
      case Panic
      have "a \<noteq> Panic"
        using admit by (auto simp: admit_capacity_def v_then_v_result
            split: if_splits sum.splits prod.splits)
      with Panic show ?thesis by simp
    qed
  qed
qed

lemma run_delete_volume:
  assumes inv: "invar s" and run: "run_vol (controller_rpc (delete_volume E) m) srv s = (out, s')"
  shows "invar s' \<and>
    (view s' = view s \<or>
     (\<exists>lv. sv_get srv \<lparr>glr_identifier = Some (Uuid (dvr_volume_id m))\<rparr> s = (Inr lv, s) \<and>
        view s' = (view s)(lv_name lv := None) \<and> out = Reply ()))"
proof (cases "dvr_volume_id m = []")
  case True
  with run inv show ?thesis by (simp add: delete_volume_def)
next
  case False
  obtain r t where get: "sv_get srv \<lparr>glr_identifier = Some (Uuid (dvr_volume_id m))\<rparr> s = (r, t)"
    by fastforce
  then have t: "t = s" by (rule get_pure)
  show ?thesis
  proof (cases r)
    case (Inl st)
    with run False get t inv show ?thesis by (auto simp: delete_volume_def)
  next
    case (Inr lv)
    obtain rd u where del: "sv_delete srv \<lparr>dlr_name = lv_name lv\<rparr> s = (rd, u)" by fastforce
    with run False get t Inr have out: "s' = u" "out = (case rd of Inl st \<Rightarrow> Fail st | Inr _ \<Rightarrow> Reply ())"
      by (auto simp: delete_volume_def run_v_then v_then_v_result split: sum.splits)
    show ?thesis
      using delete_ok [OF inv, of "\<lparr>dlr_name = lv_name lv\<rparr>" _ u]
        delete_err [OF inv, of "\<lparr>dlr_name = lv_name lv\<rparr>" _ u] del out get t Inr
      by (cases rd) fastforce+
  qed
qed

end

context reliable_volume_service
begin

lemma run_admit_ok:
  assumes "invar s" and "requested_capacity (cvr_capacity_range m) = Inr (c, l)"
    and "MIN_VOLUME_SIZE_BYTES \<le> c" and "c \<le> bytes_free s"
  shows "run_vol (admit_capacity E m) srv s = (Reply c, s)"
  using assms by (simp add: admit_capacity_def v_then_v_result free_bytes not_less)

lemma run_create_existing:
  assumes "invar s" and "valid (hash_resource E (cvr_name m))"
    and "cvr_name m \<noteq> []" and "cvr_volume_capabilities m \<noteq> []"
    and req: "requested_capacity (cvr_capacity_range m) = Inr (c, l)"
    and bounds: "MIN_VOLUME_SIZE_BYTES \<le> c" "c \<le> bytes_free s"
    and lv: "view s (hash_resource E (cvr_name m)) = Some lv"
  shows "run_vol (controller_rpc (create_volume E self) m) srv s =
    (if lv_capacity_bytes lv \<noteq> c
     then (Fail (Status AlreadyExists
             (''attempting to create an existing volume with different capacities: found ''
              @ lv_debug E lv @ '', '' @ show_usize c @ '' bytes requested'')), s)
     else (case sv_format srv \<lparr>flr_name = hash_resource E (cvr_name m)\<rparr> s of
             (Inl st, s') \<Rightarrow> (Fail st, s')
           | (Inr _, s') \<Rightarrow> (Reply \<lparr>cvs_volume = Some (process_volume self lv)\<rparr>, s')))"
  using assms
  by (simp add: create_volume_def provision_volume_def find_or_create_def run_v_then
      run_admit_ok [of _ _ c l] get_hit v_then_v_result Let_def split: prod.splits sum.splits)

lemma run_create_absent:
  assumes "invar s" and "valid (hash_resource E (cvr_name m))"
    and "cvr_name m \<noteq> []" and "cvr_volume_capabilities m \<noteq> []"
    and req: "requested_capacity (cvr_capacity_range m) = Inr (c, l)"
    and bounds: "MIN_VOLUME_SIZE_BYTES \<le> c" "c \<le> bytes_free s"
    and none: "view s (hash_resource E (cvr_name m)) = None"
  shows "run_vol (controller_rpc (create_volume E self) m) srv s =
    (case sv_create srv \<lparr>clr_name = hash_resource E (cvr_name m), clr_capacity = c,
                         clr_tags = [''name='' @ cvr_name m]\<rparr> s of
       (Inl st, t) \<Rightarrow> (Fail st, t)
     | (Inr lv, t) \<Rightarrow>
         (case sv_format srv \<lparr>flr_name = hash_resource E (cvr_name m)\<rparr> t of
            (Inl st, s') \<Rightarrow> (Fail st, s')
          | (Inr _, s') \<Rightarrow> (Reply \<lparr>cvs_volume = Some (process_volume self lv)\<rparr>, s')))"
proof -
  obtain st where "sv_get srv \<lparr>glr_identifier = Some (Name (hash_resource E (cvr_name m)))\<rparr> s =
    (Inl st, s)" and "st_code st = NotFound"
    using get_none [OF assms(1,2) none] by blast
  with assms show ?thesis
    by (simp add: create_volume_def provision_volume_def find_or_create_def run_v_then
        run_admit_ok [of _ _ c l] v_then_v_result Let_def split: prod.splits sum.splits)
qed

text \<open>A success has passed the checks, and later calls see the same space.\<close>

lemma run_find_or_create_free:
  "invar s \<Longrightarrow> run_vol (find_or_create E n sn c) srv s = (out, s') \<Longrightarrow> bytes_free s' = bytes_free s"
  by (auto simp: find_or_create_def split: prod.splits sum.splits if_splits
      dest!: get_pure dest: free_const_create)

text \<open>
  A CreateVolume that answers with a volume, or changes the volume of its name and then fails,
  has passed the checks of its arguments.
\<close>

lemma run_create_made:
  assumes inv: "invar s" and run: "run_vol (controller_rpc (create_volume E self) m) srv s = (out, s')"
    and made: "view s' (hash_resource E (cvr_name m)) \<noteq> view s (hash_resource E (cvr_name m)) \<or>
      (\<exists>resp. out = Reply resp)"
  shows "cvr_name m \<noteq> [] \<and> cvr_volume_capabilities m \<noteq> [] \<and> bytes_free s' = bytes_free s \<and>
    (\<exists>c l. requested_capacity (cvr_capacity_range m) = Inr (c, l) \<and>
       MIN_VOLUME_SIZE_BYTES \<le> c \<and> c \<le> bytes_free s)"
proof -
  from run made have nonempty: "cvr_name m \<noteq> []" "cvr_volume_capabilities m \<noteq> []"
    by (auto simp: create_volume_def split: if_splits)
  obtain a t where admit: "run_vol (admit_capacity E m) srv s = (a, t)" by fastforce
  note ad = run_admit_capacity [OF this]
  from run made nonempty admit ad obtain c where a: "a = Reply c"
    and prov: "run_vol (provision_volume E self (cvr_name m) c) srv s = (out, s')"
    by (auto simp: create_volume_def run_v_then split: outcome.splits)
  obtain f u where foc: "run_vol (find_or_create E (cvr_name m) (hash_resource E (cvr_name m)) c)
      srv s = (f, u)" by fastforce
  have "invar u" using run_find_or_create [OF inv foc] by blast
  moreover from prov foc have "s' = u \<or>
      (\<exists>rf. sv_format srv \<lparr>flr_name = hash_resource E (cvr_name m)\<rparr> u = (rf, s'))"
    by (auto simp: provision_volume_def run_v_then Let_def v_then_v_result
        split: outcome.splits prod.splits sum.splits)
  ultimately have "bytes_free s' = bytes_free s"
    using run_find_or_create_free [OF inv foc] free_const_format by metis
  moreover have "\<exists>c l. requested_capacity (cvr_capacity_range m) = Inr (c, l) \<and>
       MIN_VOLUME_SIZE_BYTES \<le> c \<and> c \<le> bytes_free s"
    using ad a free_bytes [OF inv] by auto
  ultimately show ?thesis using nonempty by blast
qed

end

declare controller_rpc_eq [simp del]

end
