(* ===== verification/Mem_Lvm.thy ===== *)
theory Mem_Lvm
  imports Volumed
begin

text \<open>
  A concrete LVM in memory: an instance of the parameter \<open>lvm_api\<close> that satisfies
  \<open>lvm_laws\<close> and \<open>lvm_reliable\<close>, so that the theorems about volumed have inputs to be
  applied to.  It models no code of the repository.  Extents are 4 MiB, as LVM's default.
\<close>

record mem =
  mem_vgs :: "(string \<times> usize) list"
  mem_lvs :: "logical_volume list"
  mem_files :: "(string \<times> string list) list"

definition mem_find :: "mem \<Rightarrow> string \<Rightarrow> string \<Rightarrow> logical_volume option" where
  "mem_find w g n = find (\<lambda>l. lvl_volume_group_name l = g \<and> lvl_name l = n) (mem_lvs w)"

definition mem_round :: "usize \<Rightarrow> usize" where
  "mem_round c = of_nat ((unat c + 4194303) div 4194304 * 4194304)"

definition mem_add :: "volume_group \<Rightarrow> lv_create_options \<Rightarrow> mem \<Rightarrow>
    (lvm_error + logical_volume) \<times> mem" where
  "mem_add vg opt w =
     (if mem_find w (vg_name vg) (opt_name opt) \<noteq> None
      then (Inl (LvmCommand ''already exists''), w)
      else if 2 ^ 63 \<le> unat (opt_capacity_bytes opt)
      then (Inl (LvmCommand ''insufficient free space''), w)
      else let l = \<lparr>lvl_uuid = ''uuid-'' @ show_radix 10 (length (mem_lvs w)),
                    lvl_name = opt_name opt,
                    lvl_capacity_bytes = mem_round (opt_capacity_bytes opt),
                    lvl_volume_group_name = vg_name vg,
                    lvl_path = ''/dev/'' @ vg_name vg @ ''/'' @ opt_name opt\<rparr>
           in (Inr l, w\<lparr>mem_lvs := mem_lvs w @ [l]\<rparr>))"

definition mem_remove :: "volume_group \<Rightarrow> string \<Rightarrow> mem \<Rightarrow> (lvm_error + unit) \<times> mem" where
  "mem_remove vg n w =
     (if mem_find w (vg_name vg) n = None then (Inl (LvmNotFound ''no such volume''), w)
      else (Inr (), w\<lparr>mem_lvs :=
              filter (\<lambda>l. \<not> (lvl_volume_group_name l = vg_name vg \<and> lvl_name l = n)) (mem_lvs w)\<rparr>))"

definition mem_lvm :: "mem lvm_api" where
  "mem_lvm =
     \<lparr>resource_name = (\<lambda>n. if n = [] then Inl ''empty name'' else Inr n),
      resource_uuid = (\<lambda>u. if u = [] then Inl ''empty uuid'' else Inr u),
      resource_capacity =
        (\<lambda>c. if unat c mod 512 = 0 then Inr c else Inl ''not a multiple of 512''),
      capacity_text = show_usize,
      vg_from_id = (\<lambda>g w. case map_of (mem_vgs w) g of
         None \<Rightarrow> Inl (LvmNotFound ''no such group'')
       | Some c \<Rightarrow> Inr \<lparr>vg_name = g, vg_capacity_bytes = c\<rparr>),
      vg_list_lvs = (\<lambda>vg w.
         Inr (filter (\<lambda>l. lvl_volume_group_name l = vg_name vg) (mem_lvs w))),
      vg_add_lv = mem_add,
      vg_remove_lv = mem_remove,
      lv_from_id = (\<lambda>g n w. case mem_find w g n of
         None \<Rightarrow> Inl (LvmNotFound ''no such volume'') | Some l \<Rightarrow> Inr l),
      lv_from_uuid = (\<lambda>u w. case find (\<lambda>l. lvl_uuid l = u) (mem_lvs w) of
         None \<Rightarrow> Inl (LvmNotFound ''no such volume'')
       | Some l \<Rightarrow> if mem_find w (lvl_volume_group_name l) (lvl_name l) = Some l then Inr l
                   else Inl (LvmOther ''inconsistent metadata'')),
      mkfs_xfs = (\<lambda>p w. (Inr (True, []), w\<lparr>mem_files := (p, []) # mem_files w\<rparr>))\<rparr>"

definition mem_obs :: "mem lvm_observers" where
  "mem_obs =
     \<lparr>obs_lv = mem_find,
      obs_vg = (\<lambda>w g. map_of (mem_vgs w) g),
      obs_files = (\<lambda>w p. case map_of (mem_files w) p of None \<Rightarrow> [] | Some fs \<Rightarrow> fs)\<rparr>"

lemma find_append: "find P (xs @ ys) = (case find P xs of None \<Rightarrow> find P ys | Some x \<Rightarrow> Some x)"
  by (induction xs) auto

lemma find_filter_same:
  "(\<And>x. P x \<Longrightarrow> Q x) \<Longrightarrow> find P (filter Q xs) = find P xs"
  by (induction xs) auto

lemma find_filter_none: "(\<And>x. P x \<Longrightarrow> \<not> Q x) \<Longrightarrow> find P (filter Q xs) = None"
  by (induction xs) auto

lemma mem_find_Some:
  "mem_find w g n = Some l \<Longrightarrow> lvl_volume_group_name l = g \<and> lvl_name l = n"
  by (auto simp: mem_find_def find_Some_iff)

lemma mem_round_ge:
  assumes "unat c < 2 ^ 63"
  shows "c \<le> mem_round c"
proof -
  let ?k = "(unat c + 4194303) div 4194304 * 4194304"
  have "unat c \<le> ?k" and "?k \<le> unat c + 4194303"
    by linarith+
  moreover from this assms have "?k < 2 ^ 64" by simp
  moreover from \<open>?k < 2 ^ 64\<close> have "unat (mem_round c) = ?k"
    unfolding mem_round_def by (rule unat_usize_of_nat)
  ultimately show ?thesis by (simp only: word_le_nat_alt)
qed

lemma mem_add_ok:
  assumes "mem_add vg opt w = (Inr l, w')"
  shows "mem_find w (vg_name vg) (opt_name opt) = None \<and> mem_vgs w' = mem_vgs w \<and>
    mem_find w' = (mem_find w)(vg_name vg := (mem_find w (vg_name vg))(opt_name opt \<mapsto> l)) \<and>
    opt_capacity_bytes opt \<le> lvl_capacity_bytes l"
proof -
  from assms have none: "mem_find w (vg_name vg) (opt_name opt) = None"
    and l: "lvl_volume_group_name l = vg_name vg" "lvl_name l = opt_name opt"
      "lvl_capacity_bytes l = mem_round (opt_capacity_bytes opt)"
    and w': "w' = w\<lparr>mem_lvs := mem_lvs w @ [l]\<rparr>"
    and c: "unat (opt_capacity_bytes opt) < 2 ^ 63"
    by (auto simp: mem_add_def Let_def split: if_splits)
  have "mem_find w' g n =
      ((mem_find w)(vg_name vg := (mem_find w (vg_name vg))(opt_name opt \<mapsto> l))) g n" for g n
    using none l by (auto simp: mem_find_def w' find_append split: option.splits)
  with none l c w' show ?thesis by (auto simp: fun_eq_iff mem_round_ge)
qed

lemma mem_remove_ok:
  assumes "mem_remove vg n w = (Inr u, w')"
  shows "mem_vgs w' = mem_vgs w \<and>
    mem_find w' = (mem_find w)(vg_name vg := (mem_find w (vg_name vg))(n := None))"
proof -
  from assms have w': "w' = w\<lparr>mem_lvs :=
      filter (\<lambda>l. \<not> (lvl_volume_group_name l = vg_name vg \<and> lvl_name l = n)) (mem_lvs w)\<rparr>"
    by (auto simp: mem_remove_def split: if_splits)
  have "mem_find w' g m = ((mem_find w)(vg_name vg := (mem_find w (vg_name vg))(n := None))) g m"
    for g m
    unfolding mem_find_def w'
    by (cases "g = vg_name vg \<and> m = n") (auto intro: find_filter_same find_filter_none)
  with w' show ?thesis by (auto simp: fun_eq_iff)
qed

lemma mem_add_err: "mem_add vg opt w = (Inl e, w') \<Longrightarrow> w' = w"
  by (auto simp: mem_add_def Let_def split: if_splits)

lemma mem_remove_err: "mem_remove vg n w = (Inl e, w') \<Longrightarrow> w' = w"
  by (auto simp: mem_remove_def split: if_splits)

lemma mem_lookup_laws: "lvm_lookup_laws mem_lvm mem_obs"
  by (auto simp: lvm_lookup_laws_def mem_lvm_def mem_obs_def find_Some_iff
      dest: mem_find_Some split: if_splits option.splits)

lemma mem_update_laws: "lvm_update_laws mem_lvm mem_obs"
proof -
  have vgs: "mem_vgs w' = mem_vgs w" if "mem_add vg opt w = (r, w')" for vg opt r w w'
    using that by (cases r) (auto dest: mem_add_ok mem_add_err)
  have vgs': "mem_vgs w' = mem_vgs w" if "mem_remove vg n w = (r, w')" for vg n r w w'
    using that by (cases r) (auto dest: mem_remove_ok mem_remove_err)
  have files: "mem_find (w\<lparr>mem_files := fs\<rparr>) = mem_find w" for w fs
    by (simp add: mem_find_def fun_eq_iff)
  show ?thesis
    unfolding lvm_update_laws_def mem_lvm_def mem_obs_def
    using mem_add_ok mem_remove_ok
    by (auto simp: vgs vgs' files dest: mem_add_err mem_remove_err)
qed

lemma mem_laws: "lvm_laws mem_lvm mem_obs"
  by (simp add: lvm_laws_def mem_lookup_laws mem_update_laws)

lemma mem_reliable: "lvm_reliable mem_lvm mem_obs"
  by (auto simp: lvm_reliable_def mem_lvm_def mem_obs_def hex_name_def split: option.splits)

lemma mem_obs_simps [simp]:
  "obs_lv mem_obs = mem_find"
  "obs_vg mem_obs w g = map_of (mem_vgs w) g"
  by (simp_all add: mem_obs_def)

end
