(* ===== verification/Example_Inputs.thy ===== *)
theory Example_Inputs
  imports Controller Mem_Lvm
begin

text \<open>
  Concrete requests, worlds and evaluated calls on the in-memory LVM of \<open>Mem_Lvm\<close>, to which
  the witnesses of the controller's properties are applied.  No code of the repository is
  modelled here.
\<close>

section \<open>Concrete inputs for the witnesses\<close>

definition ex_env :: ctl_env where
  "ex_env = \<lparr>default_hash = (\<lambda>n. of_nat (length n)), status_text = st_message,
     lv_debug = lv_name, overflow_checks = False\<rparr>"

definition ex_ctl :: controller where
  "ex_ctl = \<lparr>ctl_node_id = ''node-1''\<rparr>"

definition ex_cfg :: volumed_config where
  "ex_cfg = \<lparr>cfg_volume_group = ''vg0'', cfg_spare_bytes = None\<rparr>"

definition ex_lost :: status where
  "ex_lost = Status Unavailable ''connection reset''"

definition ex_cap :: volume_capability where
  "ex_cap = \<lparr>cap_access_mode = Some \<lparr>am_mode = 1\<rparr>, cap_access_type = Some (MountVolume ''xfs'' [] [])\<rparr>"

definition ex_create :: "i64 \<Rightarrow> create_volume_request" where
  "ex_create n = \<lparr>cvr_name = ''pvc'',
     cvr_capacity_range = Some \<lparr>cr_required_bytes = n, cr_limit_bytes = 0\<rparr>,
     cvr_volume_capabilities = [ex_cap]\<rparr>"

text \<open>A group of 10 GiB, empty; the same with the volume of \<open>ex_create\<close> and a file on it.\<close>

definition ex_empty :: mem where
  "ex_empty = \<lparr>mem_vgs = [(''vg0'', 10737418240)], mem_lvs = [], mem_files = []\<rparr>"

definition ex_lv :: logical_volume where
  "ex_lv = \<lparr>lvl_uuid = ''uuid-0'', lvl_name = ''3'', lvl_capacity_bytes = 536870912,
     lvl_volume_group_name = ''vg0'', lvl_path = ''/dev/vg0/3''\<rparr>"

definition ex_used :: mem where
  "ex_used = \<lparr>mem_vgs = [(''vg0'', 10737418240)], mem_lvs = [ex_lv],
     mem_files = [(''/dev/vg0/3'', [''data''])]\<rparr>"

lemmas ex_defs = ex_env_def ex_ctl_def ex_cfg_def ex_lost_def ex_cap_def ex_create_def
  ex_empty_def ex_lv_def ex_used_def

abbreviation ex_server :: "mem volume_server" where
  "ex_server \<equiv> volumed_server ex_lost mem_lvm ex_cfg ''vg0''"

abbreviation ex_view :: "mem \<Rightarrow> string \<Rightarrow> LV option" where
  "ex_view \<equiv> vol_view mem_obs ''vg0''"

lemma ex_ready [simp]:
  "vol_ready mem_lvm mem_obs ''vg0'' ex_empty" "vol_ready mem_lvm mem_obs ''vg0'' ex_used"
  unfolding vol_ready_def by (simp_all add: mem_laws mem_reliable ex_defs)

lemma ex_hash [simp]: "hash_resource ex_env ''pvc'' = ''3''"
  by code_simp

lemmas mem_eval = volumed_defs get_free_bytes_def create_logical_volume_def
  delete_logical_volume_def format_logical_volume_def get_logical_volume_def get_lv_list_def
  mem_lvm_def mem_add_def mem_remove_def mem_find_def mem_round_def map_lvm_error_def
  u64_of_usize_def checked_sub_def lv_into_def

definition ex_made :: mem where
  "ex_made = ex_empty\<lparr>mem_lvs := [ex_lv]\<rparr>"

lemma ex_create_simps [simp]:
  "cvr_name (ex_create n) = ''pvc''"
  "cvr_volume_capabilities (ex_create n) = [ex_cap]"
  "cvr_capacity_range (ex_create n) = Some \<lparr>cr_required_bytes = n, cr_limit_bytes = 0\<rparr>"
  by (simp_all add: ex_create_def)

lemma ex_requested: "requested_capacity (cvr_capacity_range (ex_create 536870912)) = Inr (536870912, 0)"
  by (simp add: requested_capacity_def usize_of_i64_def)

lemma ex_bytes_free [simp]:
  "vol_bytes_free mem_obs ex_cfg ''vg0'' ex_empty = 10737418240"
  "vol_bytes_free mem_obs ex_cfg ''vg0'' ex_used = 10737418240"
  by (simp_all add: vol_bytes_free_def checked_sub_def ex_defs)

lemma show_radix_0: "show_radix 10 0 = ''0''"
  by code_simp

lemma ex_view [simp]:
  "ex_view ex_empty n = None"
  "ex_view ex_used ''3'' = Some (lv_into ex_lv)"
  by (simp_all add: vol_view_def mem_find_def ex_defs)

lemma ex_hex_3 [simp]: "hex_name ''3''"
  by code_simp

lemma ex_sv_create:
  "sv_create ex_server \<lparr>clr_name = ''3'', clr_capacity = 536870912, clr_tags = tags\<rparr> ex_empty =
    (Inr (lv_into ex_lv), ex_made)"
  by (simp add: mem_eval ex_defs ex_made_def Let_def show_radix_0)

lemma ex_sv_format:
  "sv_format ex_server \<lparr>flr_name = ''3''\<rparr> ex_made =
    (Inr (), ex_made\<lparr>mem_files := [(''/dev/vg0/3'', [])]\<rparr>)"
  by (simp add: mem_eval ex_defs ex_made_def)

lemma ex_run_empty:
  "run_vol (controller_rpc (create_volume ex_env ex_ctl) (ex_create 536870912)) ex_server ex_empty =
    (Reply \<lparr>cvs_volume = Some (process_volume ex_ctl (lv_into ex_lv))\<rparr>,
     ex_made\<lparr>mem_files := [(''/dev/vg0/3'', [])]\<rparr>)"
  by (subst volumed_reliable.run_create_absent [OF ex_ready(1) _ _ _ ex_requested])
    (simp_all add: ex_sv_create ex_sv_format MIN_VOLUME_SIZE_BYTES_def)

lemma ex_sv_format_used:
  "sv_format ex_server \<lparr>flr_name = ''3''\<rparr> ex_used =
    (Inr (), ex_used\<lparr>mem_files := [(''/dev/vg0/3'', []), (''/dev/vg0/3'', [''data''])]\<rparr>)"
  by (simp add: mem_eval ex_defs)

lemma ex_run_used:
  "run_vol (controller_rpc (create_volume ex_env ex_ctl) (ex_create 536870912)) ex_server ex_used =
    (Reply \<lparr>cvs_volume = Some (process_volume ex_ctl (lv_into ex_lv))\<rparr>,
     ex_used\<lparr>mem_files := [(''/dev/vg0/3'', []), (''/dev/vg0/3'', [''data''])]\<rparr>)"
  by (subst volumed_reliable.run_create_existing
      [where lv = "lv_into ex_lv", OF ex_ready(2) _ _ _ ex_requested])
    (simp_all add: ex_sv_format_used MIN_VOLUME_SIZE_BYTES_def, simp add: ex_lv_def)

text \<open>A size LVM rounds up: 512 MiB and 512 bytes takes 129 extents.\<close>

definition ex_lv_round :: logical_volume where
  "ex_lv_round = \<lparr>lvl_uuid = ''uuid-0'', lvl_name = ''3'', lvl_capacity_bytes = 541065216,
     lvl_volume_group_name = ''vg0'', lvl_path = ''/dev/vg0/3''\<rparr>"

lemma ex_requested_round:
  "requested_capacity (cvr_capacity_range (ex_create 536871424)) = Inr (536871424, 0)"
  by (simp add: requested_capacity_def usize_of_i64_def)

end
