(* ===== verification/Listing.thy ===== *)
theory Listing
  imports Example_Inputs
begin

text \<open>
  Listing, capacity and validation: what ListVolumes answers and what a client that follows
  its page tokens reads, what GetCapacity and ValidateVolumeCapabilities answer, and the
  requests CreateVolume rejects.
\<close>

section \<open>ListVolumes\<close>

definition list_entry :: "controller \<Rightarrow> LV \<Rightarrow> volume_entry" where
  "list_entry self lv = \<lparr>entry_volume = Some (process_volume self lv), entry_status = None\<rparr>"

definition page_size :: "usize \<Rightarrow> nat" where
  "page_size max_entries = unat (if max_entries = 0 then usize_MAX else max_entries)"

text \<open>The list of one group fits the address space.\<close>

abbreviation fits :: "'a list \<Rightarrow> bool" where
  "fits xs \<equiv> length xs < 2 ^ 64"

lemma unat_usize_MAX: "unat usize_MAX = 2 ^ 64 - 1"
  by (simp add: usize_MAX_def)

lemma take_page_size_0: "fits xs \<Longrightarrow> take (page_size 0) xs = xs"
  by (simp add: page_size_def unat_usize_MAX)

lemma run_list_volumes:
  assumes "usize_of_i32 (lvr_max_entries m) = Some n"
    and "page_start (lvr_starting_token m) = Inr start"
    and "sv_get_lv_list srv s = (Inr lvs, s')"
  shows "run_vol (controller_rpc (list_volumes E self) m) srv s =
    (case usize_add (overflow_checks E) start n of
       None \<Rightarrow> (Panic, s')
     | Some last_index \<Rightarrow>
         (Reply \<lparr>lvs_entries = take (page_size n) (map (list_entry self) lvs),
                 lvs_next_token =
                   (if unat last_index < min (page_size n) (length lvs)
                    then show_usize last_index else [])\<rparr>, s'))"
proof -
  have entry: "(\<lambda>lv. \<lparr>entry_volume = Some (process_volume self lv), entry_status = None\<rparr>) =
      list_entry self" by (simp add: list_entry_def fun_eq_iff)
  from assms show ?thesis
    by (simp add: controller_rpc_eq list_volumes_def v_then_v_result entry page_size_def Let_def min.commute
        split: option.splits)
qed

lemma usize_add_0: "usize_add oc start 0 = Some start"
  using unat_usize_less [of start] by (simp add: usize_add_def checked_add_def)

lemma usize_add_Some:
  assumes "usize_add oc a b = Some c" and "unat a + unat b < 2 ^ 64"
  shows "unat c = unat a + unat b"
proof -
  from assms have "checked_add a b = Some c" by (simp add: usize_add_def checked_add_def)
  then show ?thesis by (rule checked_add_Some)
qed

text \<open>A client that reads page after page until a response has no \<open>next_token\<close>.\<close>

fun read_pages ::
  "nat \<Rightarrow> ctl_env \<Rightarrow> controller \<Rightarrow> 's volume_server \<Rightarrow> i32 \<Rightarrow> string \<Rightarrow> 's \<Rightarrow> volume_entry list option" where
  "read_pages 0 E self srv max_entries token s = None"
| "read_pages (Suc k) E self srv max_entries token s =
     (case run_vol (controller_rpc (list_volumes E self)
              \<lparr>lvr_max_entries = max_entries, lvr_starting_token = token\<rparr>) srv s of
        (Reply r, s') \<Rightarrow>
          if lvs_next_token r = [] then Some (lvs_entries r)
          else map_option (\<lambda>rest. lvs_entries r @ rest)
                 (read_pages k E self srv max_entries (lvs_next_token r) s')
      | _ \<Rightarrow> None)"

text \<open>C29: ListVolumes answers the first \<open>max_entries\<close> volumes of the group whatever page
  the starting token asks for, and a request with a page size never gets a next token: the
  volumes after the first page cannot be listed by pages.\<close>

theorem list_volumes_first_page_only:
  assumes "usize_of_i32 (lvr_max_entries m) = Some n" and "n \<noteq> 0"
    and "page_start (lvr_starting_token m) = Inr start" and "unat start + unat n < 2 ^ 64"
    and "sv_get_lv_list srv s = (Inr lvs, s')"
  shows "run_vol (controller_rpc (list_volumes E self) m) srv s =
    (Reply \<lparr>lvs_entries = map (list_entry self) (take (unat n) lvs), lvs_next_token = []\<rparr>, s')"
proof -
  obtain c where c: "usize_add (overflow_checks E) start n = Some c"
    using assms(4) by (simp add: usize_add_def checked_add_def)
  then have "unat c = unat start + unat n" using assms(4) by (rule usize_add_Some)
  with c show ?thesis using assms(2)
    by (simp add: run_list_volumes [OF assms(1,3,5)] page_size_def take_map)
qed

definition ex_list :: "i32 \<Rightarrow> string \<Rightarrow> list_volumes_request" where
  "ex_list n token = \<lparr>lvr_max_entries = n, lvr_starting_token = token\<rparr>"

definition ex_three :: "LV list" where
  "ex_three = map (\<lambda>n. \<lparr>lv_uuid = n, lv_name = n, lv_capacity_bytes = 536870912,
     lv_volume_group = ''vg0''\<rparr>) [''a'', ''b'', ''c'']"

text \<open>A server with a fixed list of volumes, for the witnesses of the listing theorems.\<close>

definition ex_fixed :: "LV list \<Rightarrow> unit volume_server" where
  "ex_fixed lvs = \<lparr>sv_get_lv_list = (\<lambda>s. (Inr lvs, s)), sv_get_free_bytes = (\<lambda>s. (Inr 1073741824, s)),
     sv_create = (\<lambda>q s. (Inl ex_lost, s)), sv_delete = (\<lambda>q s. (Inl ex_lost, s)),
     sv_format = (\<lambda>q s. (Inl ex_lost, s)), sv_get = (\<lambda>q s. (Inl ex_lost, s))\<rparr>"

theorem list_volumes_first_page_only_witness:
  "run_vol (controller_rpc (list_volumes ex_env ex_ctl) (ex_list 2 ''2'')) (ex_fixed ex_three) () =
     (Reply \<lparr>lvs_entries = map (list_entry ex_ctl) (take 2 ex_three), lvs_next_token = []\<rparr>, ())"
proof -
  have "page_start (lvr_starting_token (ex_list 2 ''2'')) = Inr 2"
    by (simp add: page_start_def ex_list_def parse_usize_def to_digit_def Let_def)
  moreover have "sv_get_lv_list (ex_fixed ex_three) () = (Inr ex_three, ())"
    by (simp add: ex_fixed_def)
  ultimately show ?thesis
    using list_volumes_first_page_only [of "ex_list 2 ''2''" 2 2 "ex_fixed ex_three" "()" ex_three "()"]
    by (simp add: ex_list_def usize_of_i32_def)
qed

text \<open>C30: a client that lists with the default request (no page size, no token) and follows
  the tokens never finishes once there is a volume: each answer is the whole list with the
  token 0, and the token 0 is answered the same way.\<close>

theorem list_volumes_default_never_ends:
  assumes "\<And>t. sv_get_lv_list srv t = (Inr lvs, t)" and "lvs \<noteq> []" and "fits lvs"
  shows "read_pages fuel E self srv 0 [] s = None"
proof -
  have zero: "usize_of_i32 0 = Some 0" by (simp add: usize_of_i32_def)
  have start: "page_start [] = Inr 0" "page_start (show_usize 0) = Inr 0"
    by (simp_all add: page_start_def parse_show_usize)
  have page: "run_vol (controller_rpc (list_volumes E self)
      \<lparr>lvr_max_entries = 0, lvr_starting_token = token\<rparr>) srv t =
      (Reply \<lparr>lvs_entries = map (list_entry self) lvs, lvs_next_token = show_usize 0\<rparr>, t)"
    if "page_start token = Inr 0" for token t
    using run_list_volumes [OF _ _ assms(1), of "\<lparr>lvr_max_entries = 0, lvr_starting_token = token\<rparr>" 0 0]
      that assms(2,3) zero
    by (simp add: usize_add_0 take_page_size_0)
      (simp add: page_size_def unat_usize_MAX)
  have "read_pages fuel E self srv 0 token t = None" if "page_start token = Inr 0" for token t
    using that
  proof (induction fuel arbitrary: token t)
    case (Suc k)
    then show ?case using start(2) by (simp add: page [OF Suc.prems])
  qed simp
  with start(1) show ?thesis by blast
qed

theorem list_volumes_default_never_ends_witness:
  "read_pages 1000 ex_env ex_ctl (ex_fixed ex_three) 0 [] () = None"
  by (rule list_volumes_default_never_ends [of _ ex_three]) (simp_all add: ex_fixed_def ex_three_def)

text \<open>C37: a starting token near the largest \<open>usize\<close> makes the sum of the page arithmetic
  overflow: a build with overflow checks panics, and one without answers a wrapped index.\<close>

theorem list_volumes_token_overflow:
  assumes "usize_of_i32 mx = Some n" and "2 ^ 64 \<le> unat start + unat n"
    and "sv_get_lv_list srv s = (Inr lvs, s')"
  shows "run_vol (controller_rpc (list_volumes E self)
      \<lparr>lvr_max_entries = mx, lvr_starting_token = show_usize start\<rparr>) srv s =
    (if overflow_checks E then (Panic, s')
     else (Reply \<lparr>lvs_entries = take (page_size n) (map (list_entry self) lvs),
             lvs_next_token =
               (if unat (start + n) < min (page_size n) (length lvs)
                then show_usize (start + n) else [])\<rparr>, s'))"
proof -
  have "page_start (show_usize start) = Inr start"
    by (simp add: page_start_def parse_show_usize)
  moreover have "usize_add oc start n = (if oc then None else Some (start + n))" for oc
    using assms(2) by (simp add: usize_add_def checked_add_def)
  ultimately show ?thesis
    using run_list_volumes [OF _ _ assms(3), of "\<lparr>lvr_max_entries = mx,
      lvr_starting_token = show_usize start\<rparr>" n start E self] assms(1) by simp
qed

theorem list_volumes_token_overflow_witness:
  "run_vol (controller_rpc (list_volumes (ex_env\<lparr>overflow_checks := True\<rparr>) ex_ctl)
     \<lparr>lvr_max_entries = 1, lvr_starting_token = show_usize usize_MAX\<rparr>) (ex_fixed ex_three) () =
   (Panic, ())"
  by (subst list_volumes_token_overflow [of 1 1 _ _ _ ex_three "()"])
    (simp_all add: usize_of_i32_def ex_fixed_def unat_usize_MAX)

section \<open>GetCapacity\<close>

definition wants_multi_node :: "get_capacity_request \<Rightarrow> bool" where
  "wants_multi_node m \<longleftrightarrow>
     list_ex (\<lambda>cap. is_multi_node (access_mode_mode (unwrap_or (cap_access_mode cap) default_access_mode)))
       (gcr_volume_capabilities m)"

lemma find_map_list_ex: "find P (map f xs) \<noteq> None \<longleftrightarrow> list_ex (\<lambda>x. P (f x)) xs"
  by (induction xs) auto

lemma run_get_capacity:
  "run_vol (controller_rpc (get_capacity E self) m) srv s =
    (if wants_multi_node m \<or>
        (\<exists>t. gcr_accessible_topology m = Some t \<and> topology_eq (get_host_topology self) t)
     then (Reply \<lparr>gcs_available_capacity = 0, gcs_maximum_volume_size = None,
                  gcs_minimum_volume_size = None\<rparr>, s)
     else (case sv_get_free_bytes srv s of
             (Inl st, s') \<Rightarrow> (Fail (Status Internal
                (''could not get_free_bytes from volumed: '' @ status_text E st)), s')
           | (Inr bytes, s') \<Rightarrow>
               (Reply \<lparr>gcs_available_capacity = as_i64 bytes, gcs_maximum_volume_size = None,
                       gcs_minimum_volume_size = Some 536870912\<rparr>, s')))"
proof -
  have "option_topology_eq (Some a) b \<longleftrightarrow> (\<exists>t. b = Some t \<and> topology_eq a t)" for a b
    by (cases b) auto
  then show ?thesis
    unfolding controller_rpc_eq get_capacity_def with_volume_client_injected Let_def
      find_map_list_ex wants_multi_node_def [symmetric] default_get_capacity_response_def
    by (cases "sv_get_free_bytes srv s"; cases "fst (sv_get_free_bytes srv s)")
      (simp_all add: v_then_v_result as_i64_def MIN_VOLUME_SIZE_BYTES_def)
qed

lemma multi_node_modes: "is_multi_node (access_mode_mode am) \<longleftrightarrow> am_mode am \<in> {3, 4, 5}"
  by (auto simp: is_multi_node_def access_mode_mode_def mode_from_i32_def)

lemma wants_multi_node_iff:
  "wants_multi_node m \<longleftrightarrow>
     (\<exists>cap am. cap \<in> set (gcr_volume_capabilities m) \<and> cap_access_mode cap = Some am \<and> am_mode am \<in> {3, 4, 5})"
proof -
  have "is_multi_node (access_mode_mode (unwrap_or o' default_access_mode)) \<longleftrightarrow>
      (\<exists>am. o' = Some am \<and> am_mode am \<in> {3, 4, 5})" for o' :: "access_mode option"
    by (cases o') (simp_all add: multi_node_modes default_access_mode_def)
  then show ?thesis by (auto simp: wants_multi_node_def list_ex_iff)
qed

lemma unat_checked_sub: "unat (unwrap_or (checked_sub a b) 0) = unat a - unat b"
  by (cases "a < b") (simp_all add: checked_sub_def word_less_nat_alt unat_sub word_le_nat_alt)

text \<open>C31: GetCapacity in front of a volumed whose group is there: it answers zero bytes when the
  request names a multi-node access mode, which have the numbers 3 to 5, and when it asks for
  the topology of the plugin's own host; for any other topology, also that of another host, and
  for none, it answers the size of the group without the spare bytes, however much of it the
  volumes take up, with a least volume size of 512 MiB.\<close>

theorem get_capacity_answers:
  assumes ready: "vol_ready L V rn w" and size: "obs_vg V w rn = Some gsize" and bound: "unat gsize < 2 ^ 63"
    and spare: "spare = (case cfg_spare_bytes cfg of None \<Rightarrow> 0 | Some s \<Rightarrow> unat s)"
    and zero: "zero \<longleftrightarrow>
      (\<exists>cap am. cap \<in> set (gcr_volume_capabilities m) \<and> cap_access_mode cap = Some am \<and> am_mode am \<in> {3, 4, 5}) \<or>
      (\<exists>t. gcr_accessible_topology m = Some t \<and> topology_eq \<lparr>segments = [(''host'', ctl_node_id self)]\<rparr> t)"
  shows "\<exists>r. run_vol (controller_rpc (get_capacity E self) m) (volumed_server lost L cfg rn) w = (Reply r, w) \<and>
    gcs_maximum_volume_size r = None \<and>
    gcs_minimum_volume_size r = (if zero then None else Some 536870912) \<and>
    sint (gcs_available_capacity r) = (if zero then 0 else int (unat gsize - spare))"
proof -
  let ?free = "vol_bytes_free V cfg rn w"
  have free: "unat ?free = unat gsize - spare"
    using size spare by (auto simp: vol_bytes_free_def unat_checked_sub split: option.split)
  with bound have "sint (as_i64 ?free) = int (unat gsize - spare)" by (simp add: sint_as_i64)
  moreover have "sv_get_free_bytes (volumed_server lost L cfg rn) w = (Inr ?free, w)"
    by (rule volumed_reliable.free_bytes [OF ready])
  ultimately show ?thesis
    unfolding run_get_capacity wants_multi_node_iff get_host_topology_def
    by (cases zero) (use zero in \<open>simp_all\<close>)
qed

text \<open>The request asks for the topology of another host, and then for a multi-node mode.\<close>

theorem get_capacity_answers_witness:
  "(\<exists>r. run_vol (controller_rpc (get_capacity ex_env ex_ctl)
      \<lparr>gcr_volume_capabilities = [ex_cap], gcr_accessible_topology = Some \<lparr>segments = [(''host'', ''node-2'')]\<rparr>\<rparr>)
      ex_server ex_empty = (Reply r, ex_empty) \<and> sint (gcs_available_capacity r) = 10737418240) \<and>
   (\<exists>r. run_vol (controller_rpc (get_capacity ex_env ex_ctl)
      \<lparr>gcr_volume_capabilities = [ex_cap\<lparr>cap_access_mode := Some \<lparr>am_mode = 4\<rparr>\<rparr>], gcr_accessible_topology = None\<rparr>)
      ex_server ex_empty = (Reply r, ex_empty) \<and> sint (gcs_available_capacity r) = 0)"
proof -
  have size: "obs_vg mem_obs ex_empty ''vg0'' = Some 10737418240" by (simp add: ex_empty_def)
  have topology: "\<not> topology_eq \<lparr>segments = [(''host'', ''node-1'')]\<rparr> \<lparr>segments = [(''host'', ''node-2'')]\<rparr>"
    by code_simp
  note answers = get_capacity_answers [OF ex_ready(1) size _ refl refl, where cfg = ex_cfg and E = ex_env
      and self = ex_ctl and lost = ex_lost]
  show ?thesis
    using answers [of "\<lparr>gcr_volume_capabilities = [ex_cap],
        gcr_accessible_topology = Some \<lparr>segments = [(''host'', ''node-2'')]\<rparr>\<rparr>"]
      answers [of "\<lparr>gcr_volume_capabilities = [ex_cap\<lparr>cap_access_mode := Some \<lparr>am_mode = 4\<rparr>\<rparr>],
        gcr_accessible_topology = None\<rparr>"] topology
    by (auto simp: ex_cap_def ex_ctl_def ex_cfg_def)
qed

section \<open>ValidateVolumeCapabilities\<close>

text \<open>ValidateVolumeCapabilities confirms single-node block and xfs access for every
  volume that exists, whatever capabilities the request asks to validate, and answers
  NotFound for every failure of the lookup.\<close>

lemma validate_ignores_request:
  assumes "val_volume_id m \<noteq> []" and "val_volume_capabilities m \<noteq> []"
  shows "run_vol (controller_rpc (validate_volume_capabilities E) m) srv s =
    (case sv_get srv \<lparr>glr_identifier = Some (Uuid (val_volume_id m))\<rparr> s of
       (Inl st, s') \<Rightarrow> (Fail (Status NotFound (status_text E st)), s')
     | (Inr lv, s') \<Rightarrow>
         (Reply \<lparr>vrs_confirmed = Some
            \<lparr>conf_parameters = [],
             conf_volume_capabilities =
               map (\<lambda>t. \<lparr>cap_access_mode = Some \<lparr>am_mode = 1\<rparr>, cap_access_type = Some t\<rparr>)
                 [BlockVolume, MountVolume ''xfs'' [] []],
             conf_volume_context = [(''name'', lv_name lv)]\<rparr>,
            vrs_message = []\<rparr>, s'))"
  using assms
  by (cases "sv_get srv \<lparr>glr_identifier = Some (Uuid (val_volume_id m))\<rparr> s";
      cases "fst (sv_get srv \<lparr>glr_identifier = Some (Uuid (val_volume_id m))\<rparr> s)")
    (simp_all add: controller_rpc_eq validate_volume_capabilities_def v_then_v_result)

lemma validate_ignores_request_witness:
  "fst (run_vol (controller_rpc (validate_volume_capabilities ex_env)
     \<lparr>val_volume_id = ''uuid-0'', val_volume_capabilities = [ex_cap]\<rparr>) (ex_fixed []) ()) =
   Fail (Status NotFound ''connection reset'')"
  by (subst validate_ignores_request) (simp_all add: ex_fixed_def ex_lost_def ex_env_def)

section \<open>Rejected requests\<close>

text \<open>A CreateVolume without a name or without capabilities, or with a negative size or
  limit, is answered InvalidArgument before anything is asked of volumed.\<close>

lemma create_volume_rejects:
  assumes "cvr_name m = [] \<or> cvr_volume_capabilities m = [] \<or>
    (\<exists>r. cvr_capacity_range m = Some r \<and> (sint (cr_required_bytes r) < 0 \<or> sint (cr_limit_bytes r) < 0))"
  shows "\<exists>text. controller_rpc (create_volume E self) m = VRet (Fail (Status InvalidArgument text))"
  using assms
  by (auto simp: controller_rpc_eq create_volume_def admit_capacity_def requested_capacity_def
      usize_of_i64_def v_fail_def v_then_v_result)

lemma create_volume_rejects_witness:
  "\<exists>text. controller_rpc (create_volume ex_env ex_ctl) (ex_create (- 1)) =
     VRet (Fail (Status InvalidArgument text))"
  by (rule create_volume_rejects) simp

text \<open>C36: a CreateVolume whose size is under 512 MiB, also the size 0 that leaves the choice to
  the plugin, or over what volumed reports as free, is answered OutOfRange, and volumed is
  asked for nothing but its free bytes.\<close>

theorem create_volume_out_of_range:
  assumes "cvr_name m \<noteq> []" and "cvr_volume_capabilities m \<noteq> []"
    and range: "cvr_capacity_range m = Some r"
      "0 \<le> sint (cr_required_bytes r)" "0 \<le> sint (cr_limit_bytes r)"
    and free: "sv_get_free_bytes srv s = (Inr bytes, s')"
    and size: "unat (cr_required_bytes r) < 536870912 \<or> unat bytes < unat (cr_required_bytes r)"
  shows "\<exists>text. run_vol (controller_rpc (create_volume E self) m) srv s =
    (Fail (Status OutOfRange text), s')"
proof -
  have req: "requested_capacity (cvr_capacity_range m) = Inr (cr_required_bytes r, cr_limit_bytes r)"
    using range by (simp add: requested_capacity_def usize_of_i64_def)
  have "cr_required_bytes r < MIN_VOLUME_SIZE_BYTES \<or> bytes < cr_required_bytes r"
    using size by (simp only: word_less_nat_alt unat_MIN_VOLUME_SIZE)
  then have "\<exists>text. run_vol (admit_capacity E m) srv s = (Fail (Status OutOfRange text), s')"
    using free by (auto simp: admit_capacity_def req v_then_v_result)
  with assms(1,2) show ?thesis by (auto simp: controller_rpc_eq create_volume_def run_v_then)
qed

theorem create_volume_out_of_range_witness:
  "\<exists>text. run_vol (controller_rpc (create_volume ex_env ex_ctl) (ex_create 0)) (ex_fixed []) () =
     (Fail (Status OutOfRange text), ())"
  by (rule create_volume_out_of_range [where bytes = 1073741824 and
      r = "\<lparr>cr_required_bytes = 0, cr_limit_bytes = 0\<rparr>"]) (simp_all add: ex_cap_def ex_fixed_def)

text \<open>Behind its interceptor no volume RPC of the controller panics, whatever volumed
  answers; ListVolumes does not in a build without overflow checks.\<close>

lemma controller_panics:
  "fst (run_vol (controller_rpc (create_volume E self) m1) srv s) \<noteq> Panic \<and>
   fst (run_vol (controller_rpc (delete_volume E) m2) srv s) \<noteq> Panic \<and>
   fst (run_vol (controller_rpc (validate_volume_capabilities E) m3) srv s) \<noteq> Panic \<and>
   fst (run_vol (controller_rpc (get_capacity E self) m4) srv s) \<noteq> Panic \<and>
   fst (run_vol (controller_rpc (list_volumes (E\<lparr>overflow_checks := False\<rparr>) self) m5) srv s) \<noteq> Panic"
proof (intro conjI)
  have admit: "fst (run_vol (admit_capacity E m1) srv s) \<noteq> Panic" for s
    by (simp add: admit_capacity_def v_then_v_result split: prod.split sum.split)
  have foc: "fst (run_vol (find_or_create E n sn c) srv s) \<noteq> Panic" for n sn c s
    by (simp add: find_or_create_def split: prod.split sum.split)
  have prov: "fst (run_vol (provision_volume E self n c) srv s) \<noteq> Panic" for n c s
    using foc [of n "hash_resource E n" c s]
    by (auto simp: provision_volume_def run_v_then v_then_v_result Let_def
        split: prod.split sum.split outcome.split)
  show "fst (run_vol (controller_rpc (create_volume E self) m1) srv s) \<noteq> Panic"
    using admit [of s] prov
    by (auto simp: controller_rpc_eq create_volume_def run_v_then split: prod.split outcome.split)
  show "fst (run_vol (controller_rpc (delete_volume E) m2) srv s) \<noteq> Panic"
    by (simp add: controller_rpc_eq delete_volume_def v_then_v_result
        split: prod.split sum.split option.split)
  show "fst (run_vol (controller_rpc (validate_volume_capabilities E) m3) srv s) \<noteq> Panic"
    by (simp add: controller_rpc_eq validate_volume_capabilities_def v_then_v_result
        split: prod.split sum.split)
  show "fst (run_vol (controller_rpc (get_capacity E self) m4) srv s) \<noteq> Panic"
    by (simp add: controller_rpc_eq get_capacity_def v_then_v_result Let_def
        split: prod.split sum.split)
  show "fst (run_vol (controller_rpc (list_volumes (E\<lparr>overflow_checks := False\<rparr>) self) m5) srv s) \<noteq> Panic"
    by (simp add: controller_rpc_eq list_volumes_def v_then_v_result Let_def usize_add_def
        split: prod.split sum.split option.split)
qed

end
