(* ===== verification/Mount_Service.thy ===== *)
theory Mount_Service
  imports Prelude Rust_Std
begin

text \<open>
  The MountService protocol (protos/mountd.proto): its messages, the programs the node plugin
  runs against it and against the file system of its host, both sides as records of
  operations, and the contract of the service as the locale \<open>mount_service\<close>, over a table of
  mounted file systems.
\<close>

section \<open>Messages\<close>

record mount_arg =
  mnt_src :: string
  mnt_dst :: string

datatype mount_flag = MfUnknown | MfReadOnly | MfBind

primrec mount_flag_to_i32 :: "mount_flag \<Rightarrow> i32" where
  "mount_flag_to_i32 MfUnknown = 0"
| "mount_flag_to_i32 MfReadOnly = 1"
| "mount_flag_to_i32 MfBind = 2"

definition mount_flag_from_i32 :: "i32 \<Rightarrow> mount_flag option" where
  "mount_flag_from_i32 n = find (\<lambda>f. mount_flag_to_i32 f = n) [MfUnknown, MfReadOnly, MfBind]"

record mount_request =
  mr_mount :: "mount_arg option"
  mr_flags :: "i32 list"

record unmount_request =
  ur_path :: string

record block_path_request =
  bpr_uuid :: string

lemma mount_flag_from_to_i32: "mount_flag_from_i32 (mount_flag_to_i32 f) = Some f"
  by (cases f) (simp_all add: mount_flag_from_i32_def)

section \<open>Mounts\<close>

text \<open>
  The \<open>MountFlags\<close> of sys_mount the code uses, and an entry of the table of mounts: the source
  and the resolved target of the call that made it, the type of its file system, and its
  options, which are flags other than \<open>BIND\<close>.
\<close>

datatype sys_flag = BIND | RDONLY | NODEV | NOSUID

record mount_entry =
  me_src :: string
  me_dst :: string
  me_fstype :: string
  me_flags :: "sys_flag set"

primrec sys_flags_of :: "mount_flag \<Rightarrow> sys_flag set" where
  "sys_flags_of MfUnknown = {}"
| "sys_flags_of MfBind = {BIND}"
| "sys_flags_of MfReadOnly = {RDONLY}"

text \<open>Unmounting takes the topmost mount of a mount point away.\<close>

fun remove_last :: "('a \<Rightarrow> bool) \<Rightarrow> 'a list \<Rightarrow> 'a list" where
  "remove_last P [] = []"
| "remove_last P (x # xs) =
     (if list_ex P xs then x # remove_last P xs else if P x then xs else x # xs)"

lemma remove_last_snoc: "P y \<Longrightarrow> remove_last P (xs @ [y]) = xs"
  by (induction xs) auto

lemma remove_last_snoc_other: "\<not> P y \<Longrightarrow> remove_last P (xs @ [y]) = remove_last P xs @ [y]"
  by (induction xs) auto

section \<open>Node programs\<close>

text \<open>
  A handler of the node plugin: calls of the mountd client, and what it does on its own host
  (\<open>Path::exists\<close>, \<open>create_dir_all\<close>, \<open>remove_dir\<close>; an I/O error is its text).
\<close>

datatype 'a node_prog =
    NRet 'a
  | NBlockPath block_path_request "status + string \<Rightarrow> 'a node_prog"
  | NMount mount_request "status + unit \<Rightarrow> 'a node_prog"
  | NUnmount unmount_request "status + unit \<Rightarrow> 'a node_prog"
  | NExists string "bool \<Rightarrow> 'a node_prog"
  | NCreateDirAll string "string + unit \<Rightarrow> 'a node_prog"
  | NRemoveDir string "string + unit \<Rightarrow> 'a node_prog"

record 's mount_server =
  ms_block_path :: "block_path_request \<Rightarrow> 's \<Rightarrow> (status + string) \<times> 's"
  ms_mount :: "mount_request \<Rightarrow> 's \<Rightarrow> (status + unit) \<times> 's"
  ms_unmount :: "unmount_request \<Rightarrow> 's \<Rightarrow> (status + unit) \<times> 's"

record 's node_host =
  nh_exists :: "string \<Rightarrow> 's \<Rightarrow> bool"
  nh_create_dir_all :: "string \<Rightarrow> 's \<Rightarrow> (string + unit) \<times> 's"
  nh_remove_dir :: "string \<Rightarrow> 's \<Rightarrow> (string + unit) \<times> 's"

primrec run_node :: "'a node_prog \<Rightarrow> 's mount_server \<Rightarrow> 's node_host \<Rightarrow> 's \<Rightarrow> 'a \<times> 's" where
  "run_node (NRet x) srv host s = (x, s)"
| "run_node (NBlockPath q k) srv host s =
     (case ms_block_path srv q s of (r, s') \<Rightarrow> run_node (k r) srv host s')"
| "run_node (NMount q k) srv host s =
     (case ms_mount srv q s of (r, s') \<Rightarrow> run_node (k r) srv host s')"
| "run_node (NUnmount q k) srv host s =
     (case ms_unmount srv q s of (r, s') \<Rightarrow> run_node (k r) srv host s')"
| "run_node (NExists p k) srv host s = run_node (k (nh_exists host p s)) srv host s"
| "run_node (NCreateDirAll p k) srv host s =
     (case nh_create_dir_all host p s of (r, s') \<Rightarrow> run_node (k r) srv host s')"
| "run_node (NRemoveDir p k) srv host s =
     (case nh_remove_dir host p s of (r, s') \<Rightarrow> run_node (k r) srv host s')"

definition n_result :: "status + 'a \<Rightarrow> 'a outcome node_prog" where
  "n_result r = NRet (of_result r)"

definition n_fail :: "status \<Rightarrow> 'a outcome node_prog" where
  "n_fail st = NRet (Fail st)"

text \<open>The \<open>?\<close> after a call: an error ends the handler.\<close>

definition n_try :: "status + 'a \<Rightarrow> ('a \<Rightarrow> 'b outcome node_prog) \<Rightarrow> 'b outcome node_prog" where
  "n_try r k = (case r of Inl st \<Rightarrow> n_fail st | Inr x \<Rightarrow> k x)"

lemma n_simps [simp]:
  "run_node (n_result r) srv host s = (of_result r, s)"
  "run_node (n_fail st) srv host s = (Fail st, s)"
  "n_try (Inl st) k = n_fail st"
  "n_try (Inr x) k = k x"
  by (simp_all add: n_result_def n_fail_def n_try_def)

section \<open>The contract of the service\<close>

text \<open>
  \<open>table s\<close> is the table of mounts, in the order they were made, \<open>resolve s p\<close> the mount
  point a path denotes, and \<open>beneath s p\<close> the type and the options of the mount a path lies in.
  \<open>listed\<close> is the test whether a path, as written, is a mount point.
\<close>

definition listed :: "mount_entry list \<Rightarrow> string \<Rightarrow> bool" where
  "listed table p \<longleftrightarrow> paths_contain (map me_dst table) p"

text \<open>
  The entry a request asks for.  A bind mount (flag 2) is a second view of the mount its source
  lies in, with the type and options of that mount, whatever else is asked for; any other mount
  has the type and options asked for.
\<close>

definition asked_options ::
  "(string \<Rightarrow> string \<times> sys_flag set) \<Rightarrow> mount_arg \<Rightarrow> i32 list \<Rightarrow> string \<times> sys_flag set" where
  "asked_options beneath m flags =
     (if 2 \<in> set flags then beneath (mnt_src m)
      else (''xfs'', if 1 \<in> set flags then {RDONLY, NODEV, NOSUID} else {NODEV, NOSUID}))"

definition asked_entry ::
  "(string \<Rightarrow> string) \<Rightarrow> (string \<Rightarrow> string \<times> sys_flag set) \<Rightarrow> mount_arg \<Rightarrow> i32 list \<Rightarrow> mount_entry" where
  "asked_entry resolve beneath m flags =
     \<lparr>me_src = mnt_src m, me_dst = resolve (mnt_dst m),
      me_fstype = fst (asked_options beneath m flags), me_flags = snd (asked_options beneath m flags)\<rparr>"

locale mount_service =
  fixes srv :: "'s mount_server"
    and host :: "'s node_host"
    and table :: "'s \<Rightarrow> mount_entry list"
    and resolve :: "'s \<Rightarrow> string \<Rightarrow> string"
    and beneath :: "'s \<Rightarrow> string \<Rightarrow> string \<times> sys_flag set"
    and invar :: "'s \<Rightarrow> bool"
  assumes block_path_pure: "ms_block_path srv bq s = (rb, s') \<Longrightarrow> s' = s"
    and mount_ok: "invar s \<Longrightarrow> ms_mount srv mq s = (Inr u, s') \<Longrightarrow>
      invar s' \<and> (\<exists>m. mr_mount mq = Some m \<and>
        table s' = (if listed (table s) (mnt_dst m) then table s
                    else table s @ [asked_entry (resolve s) (beneath s) m (mr_flags mq)]) \<and>
        (\<not> listed (table s) (mnt_dst m) \<longrightarrow> resolve s (mnt_dst m) = mnt_dst m \<longrightarrow>
           beneath s' (mnt_dst m) = asked_options (beneath s) m (mr_flags mq)))"
    and mount_err: "invar s \<Longrightarrow> ms_mount srv mq s = (Inl st, s') \<Longrightarrow>
      invar s' \<and> (table s' = table s \<or>
        (\<exists>m. mr_mount mq = Some m \<and> table s' = table s @ [asked_entry (resolve s) (beneath s) m (mr_flags mq)]))"
    and unmount_ok: "invar s \<Longrightarrow> ms_unmount srv uq s = (Inr u, s') \<Longrightarrow>
      invar s' \<and> table s' = (if listed (table s) (ur_path uq)
        then remove_last (\<lambda>e. me_dst e = resolve s (ur_path uq)) (table s) else table s)"
    and unmount_err: "invar s \<Longrightarrow> ms_unmount srv uq s = (Inl st, s') \<Longrightarrow>
      invar s' \<and> table s' = table s"
    and create_dir: "invar s \<Longrightarrow> nh_create_dir_all host p s = (rc, s') \<Longrightarrow>
      invar s' \<and> table s' = table s \<and> (\<forall>q. nh_exists host q s \<longrightarrow> beneath s' q = beneath s q)"
    and remove_dir: "invar s \<Longrightarrow> nh_remove_dir host p s = (rr, s') \<Longrightarrow>
      invar s' \<and> table s' = table s"

end
