(* ===== verification/Mountd.thy ===== *)
theory Mountd
  imports Mount_Service Volumed
begin

text \<open>
  The mountd daemon (crates/mountd): its configuration with the check of a path against it,
  the three RPC handlers of server.rs, the deserializers of the configuration.  What it uses
  of the operating system (crates mountpoints, sys_mount, nix; \<open>std::fs\<close>) and of wax is the
  parameter \<open>os_api\<close>; its use of lvm2_cmd is \<open>lvm_api\<close> of \<open>Volumed\<close>.
\<close>

unbundle bit_operations_syntax

section \<open>The operating system\<close>

text \<open>\<open>Metadata\<close>; \<open>Permissions::readonly\<close> on Unix: no bit of the mask \<open>0o222\<close> is set.\<close>

record file_meta =
  fm_mode :: u32
  fm_uid :: u32
  fm_gid :: u32

definition meta_readonly :: "file_meta \<Rightarrow> bool" where
  "meta_readonly meta \<longleftrightarrow> fm_mode meta AND 146 = 0"

record user =
  user_name :: string
  user_uid :: u32

record user_group =
  group_name :: string
  group_gid :: u32

text \<open>
  An error is its \<open>to_string\<close> text.  A glob is the test of a path it compiles to.
\<close>

record 'w os_api =
  os_mountpaths :: "'w \<Rightarrow> string + string list"
  os_exists :: "string \<Rightarrow> 'w \<Rightarrow> bool"
  os_metadata :: "string \<Rightarrow> 'w \<Rightarrow> string + file_meta"
  os_is_dir :: "string \<Rightarrow> 'w \<Rightarrow> bool"
  os_mount :: "string \<Rightarrow> string \<Rightarrow> string \<Rightarrow> sys_flag set \<Rightarrow> 'w \<Rightarrow> (string + unit) \<times> 'w"
  os_unmount :: "string \<Rightarrow> 'w \<Rightarrow> (string + unit) \<times> 'w"
  os_chown :: "string \<Rightarrow> u32 \<Rightarrow> u32 \<Rightarrow> 'w \<Rightarrow> (string + unit) \<times> 'w"
  os_create_dir_all :: "string \<Rightarrow> 'w \<Rightarrow> (string + unit) \<times> 'w"
  os_remove_dir :: "string \<Rightarrow> 'w \<Rightarrow> (string + unit) \<times> 'w"
  glob_new :: "string \<Rightarrow> string + (string \<Rightarrow> bool)"
  user_from_name :: "string \<Rightarrow> string + user option"
  group_from_name :: "string \<Rightarrow> string + user_group option"

section \<open>Configuration\<close>

record mountd_config =
  for_user :: user
  for_group :: user_group
  whitelist :: "string list"

definition whitelisted :: "'w os_api \<Rightarrow> mountd_config \<Rightarrow> string \<Rightarrow> string option" where
  "whitelisted Os self path =
     find (\<lambda>pattern. case glob_new Os pattern of Inl e \<Rightarrow> False | Inr is_match \<Rightarrow> is_match path)
       (whitelist self)"

definition ensure_interactable ::
  "'w os_api \<Rightarrow> mountd_config \<Rightarrow> string \<Rightarrow> bool \<Rightarrow> 'w \<Rightarrow> string + unit" where
  "ensure_interactable Os self path readonly w =
     (if \<not> os_exists Os path w then Inl (''path does not exist: '' @ path)
      else
      (case map_err (\<lambda>err. ''could not get metadata: '' @ err) (os_metadata Os path w) of
         Inl e \<Rightarrow> Inl e
       | Inr meta \<Rightarrow>
           if readonly \<and> meta_readonly meta
           then Inl (''path is not readonly, but should be: '' @ path)
           else if whitelisted Os self path \<noteq> None then Inr ()
           else if fm_uid meta \<noteq> user_uid (for_user self) \<or> fm_gid meta \<noteq> group_gid (for_group self)
           then Inl (''mountpoint is not owned by '' @ user_name (for_user self) @ '':''
                     @ group_name (for_group self) @ '' -> '' @ path @ '' (''
                     @ show_u32 (fm_uid meta) @ '':'' @ show_u32 (fm_gid meta) @ '')'')
           else Inr ()))"

definition get_owner_pair :: "mountd_config \<Rightarrow> u32 \<times> u32" where
  "get_owner_pair self = (user_uid (for_user self), group_gid (for_group self))"

text \<open>
  The deserializers of the configuration: a YAML value that is not a string is refused by the
  visitor with serde's message, from the description of the value and what was expected.
\<close>

datatype yaml_value = YamlStr string | YamlOther string

definition deserialize_user_from_username :: "'w os_api \<Rightarrow> yaml_value \<Rightarrow> string + user" where
  "deserialize_user_from_username Os v =
     (case v of
        YamlOther d \<Rightarrow> Inl (''invalid type: '' @ d @ '', expected a string containing a linux username'')
      | YamlStr username \<Rightarrow>
          and_then (map_err (\<lambda>err. ''could not get UID from username `'' @ username @ ''`: '' @ err)
                      (user_from_name Os username))
            (\<lambda>u. ok_or u (''could not deduce UID from username `'' @ username
                          @ ''`: user not found'')))"

definition deserialize_group_from_group :: "'w os_api \<Rightarrow> yaml_value \<Rightarrow> string + user_group" where
  "deserialize_group_from_group Os v =
     (case v of
        YamlOther d \<Rightarrow> Inl (''invalid type: '' @ d @ '', expected a string containing a linux group'')
      | YamlStr groupname \<Rightarrow>
          and_then (map_err (\<lambda>err. ''could not get GID from group `'' @ groupname @ ''`: '' @ err)
                      (group_from_name Os groupname))
            (\<lambda>g. ok_or g (''could not deduce GID from group `'' @ groupname
                          @ ''`: group not found'')))"

section \<open>Handlers\<close>

text \<open>
  mountd has no interceptor: its handlers use the message of the request only.  The whole of
  a handler is one step of the operating system.
\<close>

definition get_lvm_block_path ::
  "'w lvm_api \<Rightarrow> block_path_request \<Rightarrow> 'w \<Rightarrow> string outcome \<times> 'w" where
  "get_lvm_block_path L req w =
     (of_result
        (and_then (map_err (Status InvalidArgument) (resource_uuid L (bpr_uuid req)))
           (\<lambda>uuid.
         and_then (map_err (\<lambda>err. case err of
                              LvmNotFound _ \<Rightarrow> Status NotFound (lvm_error_text err)
                            | _ \<Rightarrow> Status Internal (lvm_error_text err))
                     (lv_from_uuid L uuid w))
           (\<lambda>lv. Inr (lvl_path lv)))), w)"

text \<open>\<open>MountFlag::from_i32\<close> of every flag, and \<open>From<MountFlag> for MountFlags\<close> of the union.\<close>

definition map_flags :: "i32 list \<Rightarrow> status + mount_flag list" where
  "map_flags flags =
     collect_results
       (map (\<lambda>flag. ok_or (mount_flag_from_i32 flag) (Status InvalidArgument ''invalid mount flag''))
          flags)"

definition sys_flags :: "mount_flag list \<Rightarrow> sys_flag set" where
  "sys_flags fs = (\<Union>f \<in> set fs. sys_flags_of f)"

definition mount :: "'w os_api \<Rightarrow> mountd_config \<Rightarrow> mount_request \<Rightarrow> 'w \<Rightarrow> unit outcome \<times> 'w" where
  "mount Os cfg req w =
     (case map_err (\<lambda>err. Status Internal (''could not get mountpoints: '' @ err)) (os_mountpaths Os w) of
        Inl st \<Rightarrow> (Fail st, w)
      | Inr mounts \<Rightarrow>
     (case ok_or (mr_mount req) (Status InvalidArgument ''missing required `mount` arg'') of
        Inl st \<Rightarrow> (Fail st, w)
      | Inr m \<Rightarrow>
     if mnt_src m = [] then (Fail (Status InvalidArgument ''missing required field `src` in mount''), w)
     else if mnt_dst m = [] then (Fail (Status InvalidArgument ''missing required field `dst` in mount''), w)
     else
     (case map_err (\<lambda>err. Status PermissionDenied
             (''specified source `'' @ mnt_src m @ ''` cannot be mounted by current config: '' @ err))
             (ensure_interactable Os cfg (mnt_src m) False w) of
        Inl st \<Rightarrow> (Fail st, w)
      | Inr _ \<Rightarrow>
     (case map_err (\<lambda>err. Status PermissionDenied
             (''specified destination `'' @ mnt_dst m @ ''` cannot be mounted by current config: '' @ err))
             (ensure_interactable Os cfg (mnt_dst m)
                (List.member (mr_flags req) (mount_flag_to_i32 MfReadOnly)) w) of
        Inl st \<Rightarrow> (Fail st, w)
      | Inr _ \<Rightarrow>
     if \<not> os_is_dir Os (mnt_dst m) w
     then (Fail (Status FailedPrecondition (''mount dst is not a directory: '' @ mnt_dst m)), w)
     else if paths_contain mounts (mnt_dst m) then (Reply (), w)
     else
     (case map_flags (mr_flags req) of
        Inl st \<Rightarrow> (Fail st, w)
      | Inr mapped \<Rightarrow>
     (case os_mount Os (mnt_src m) (mnt_dst m) ''xfs'' (sys_flags mapped \<union> {NODEV, NOSUID}) w of
        (Inl err, w') \<Rightarrow> (Fail (Status Internal (''could not mount request: '' @ err)), w')
      | (Inr _, w') \<Rightarrow>
     (case get_owner_pair cfg of
        (uid, gid) \<Rightarrow>
     (case os_chown Os (mnt_dst m) uid gid w' of
        (Inl err, w'') \<Rightarrow>
          (Fail (Status Internal (''could not chown mount for specified user ('' @ show_u32 uid
                 @ '':'' @ show_u32 gid @ ''): '' @ err)), w'')
      | (Inr _, w'') \<Rightarrow> (Reply (), w'')))))))))"

definition unmount :: "'w os_api \<Rightarrow> mountd_config \<Rightarrow> unmount_request \<Rightarrow> 'w \<Rightarrow> unit outcome \<times> 'w" where
  "unmount Os cfg req w =
     (case map_err (\<lambda>err. Status Internal (''could not get mountpoints: '' @ err)) (os_mountpaths Os w) of
        Inl st \<Rightarrow> (Fail st, w)
      | Inr mounts \<Rightarrow>
     if ur_path req = []
     then (Fail (Status InvalidArgument ''missing required field `path` in unmount''), w)
     else if \<not> paths_contain mounts (ur_path req) then (Reply (), w)
     else
     (case map_err (\<lambda>err. Status PermissionDenied
             (''specified mountpoint `'' @ ur_path req @ ''` cannot be unmounted by current config: '' @ err))
             (ensure_interactable Os cfg (ur_path req) False w) of
        Inl st \<Rightarrow> (Fail st, w)
      | Inr _ \<Rightarrow>
     (case os_unmount Os (ur_path req) w of
        (Inl err, w') \<Rightarrow> (Fail (Status Internal (''could not unmount endpoint: '' @ err)), w')
      | (Inr _, w') \<Rightarrow> (Reply (), w'))))"

text \<open>The served RPCs, and the host of the node plugin.\<close>

definition mountd_server ::
  "status \<Rightarrow> 'w lvm_api \<Rightarrow> 'w os_api \<Rightarrow> mountd_config \<Rightarrow> 'w mount_server" where
  "mountd_server lost L Os cfg =
     \<lparr>ms_block_path = (\<lambda>q w. client_result lost (get_lvm_block_path L q w)),
      ms_mount = (\<lambda>q w. client_result lost (mount Os cfg q w)),
      ms_unmount = (\<lambda>q w. client_result lost (unmount Os cfg q w))\<rparr>"

definition os_host :: "'w os_api \<Rightarrow> 'w node_host" where
  "os_host Os =
     \<lparr>nh_exists = os_exists Os, nh_create_dir_all = os_create_dir_all Os,
      nh_remove_dir = os_remove_dir Os\<rparr>"

section \<open>What the operating system promises\<close>

text \<open>
  Observers: the table of mounts, the mount point a path denotes, and the type and options of
  the mount a path lies in.  As documented for mount(2), a mount that succeeds adds one entry at
  the end: with the type and flags of the call, or, for \<open>MS_BIND\<close>, which ignores both, with the
  type and options of the mount its source lies in.  Where the target is given by its own mount
  point, that path lies in the new mount afterwards.  An unmount that succeeds takes the last
  entry of its mount point away, nothing else changes the table, and \<open>mountpaths\<close> lists the mount
  points of the table.  Setting an owner or creating directories moves no path that exists.
\<close>

record 'w os_observers =
  obs_table :: "'w \<Rightarrow> mount_entry list"
  obs_resolve :: "'w \<Rightarrow> string \<Rightarrow> string"
  obs_beneath :: "'w \<Rightarrow> string \<Rightarrow> string \<times> sys_flag set"

definition new_options ::
  "'w os_observers \<Rightarrow> 'w \<Rightarrow> string \<Rightarrow> string \<Rightarrow> sys_flag set \<Rightarrow> string \<times> sys_flag set" where
  "new_options V w src ty flags = (if BIND \<in> flags then obs_beneath V w src else (ty, flags))"

definition os_laws :: "'w os_api \<Rightarrow> 'w os_observers \<Rightarrow> bool" where
  "os_laws Os V \<longleftrightarrow>
     (\<forall>w ps. os_mountpaths Os w = Inr ps \<longrightarrow> set ps = me_dst ` set (obs_table V w)) \<and>
     (\<forall>w w' src dst ty flags u. os_mount Os src dst ty flags w = (Inr u, w') \<longrightarrow>
        obs_table V w' = obs_table V w @
          [\<lparr>me_src = src, me_dst = obs_resolve V w dst, me_fstype = fst (new_options V w src ty flags),
            me_flags = snd (new_options V w src ty flags)\<rparr>] \<and>
        (obs_resolve V w dst = dst \<longrightarrow> obs_beneath V w' dst = new_options V w src ty flags)) \<and>
     (\<forall>w w' src dst ty flags e. os_mount Os src dst ty flags w = (Inl e, w') \<longrightarrow>
        obs_table V w' = obs_table V w) \<and>
     (\<forall>w w' p u. os_unmount Os p w = (Inr u, w') \<longrightarrow>
        obs_table V w' = remove_last (\<lambda>e. me_dst e = obs_resolve V w p) (obs_table V w)) \<and>
     (\<forall>w w' p e. os_unmount Os p w = (Inl e, w') \<longrightarrow> obs_table V w' = obs_table V w) \<and>
     (\<forall>w w' p uid gid r. os_chown Os p uid gid w = (r, w') \<longrightarrow>
        obs_table V w' = obs_table V w \<and> obs_beneath V w' = obs_beneath V w) \<and>
     (\<forall>w w' p r. os_create_dir_all Os p w = (r, w') \<longrightarrow> obs_table V w' = obs_table V w \<and>
        (\<forall>q. os_exists Os q w \<longrightarrow> obs_beneath V w' q = obs_beneath V w q)) \<and>
     (\<forall>w w' p r. os_remove_dir Os p w = (r, w') \<longrightarrow> obs_table V w' = obs_table V w)"

lemma os_laws_rules:
  assumes "os_laws Os V"
  shows os_listed: "os_mountpaths Os w = Inr ps \<Longrightarrow> set ps = me_dst ` set (obs_table V w)"
    and os_mount_ok: "os_mount Os src dst ty flags w = (Inr u, w') \<Longrightarrow>
      obs_table V w' = obs_table V w @
        [\<lparr>me_src = src, me_dst = obs_resolve V w dst, me_fstype = fst (new_options V w src ty flags),
          me_flags = snd (new_options V w src ty flags)\<rparr>]"
    and os_mount_beneath: "os_mount Os src dst ty flags w = (Inr u, w') \<Longrightarrow> obs_resolve V w dst = dst \<Longrightarrow>
      obs_beneath V w' dst = new_options V w src ty flags"
    and os_mount_err: "os_mount Os src dst ty flags w = (Inl e, w') \<Longrightarrow> obs_table V w' = obs_table V w"
    and os_unmount_ok: "os_unmount Os p w = (Inr u, w') \<Longrightarrow>
      obs_table V w' = remove_last (\<lambda>e. me_dst e = obs_resolve V w p) (obs_table V w)"
    and os_unmount_err: "os_unmount Os p w = (Inl e, w') \<Longrightarrow> obs_table V w' = obs_table V w"
    and os_chown_table: "os_chown Os p uid gid w = (rc, w') \<Longrightarrow> obs_table V w' = obs_table V w"
    and os_chown_beneath: "os_chown Os p uid gid w = (rc, w') \<Longrightarrow> obs_beneath V w' = obs_beneath V w"
    and os_create_table: "os_create_dir_all Os p w = (rd, w') \<Longrightarrow> obs_table V w' = obs_table V w"
    and os_create_beneath: "os_create_dir_all Os p w = (rd, w') \<Longrightarrow> os_exists Os q w \<Longrightarrow>
      obs_beneath V w' q = obs_beneath V w q"
    and os_remove_table: "os_remove_dir Os p w = (rr, w') \<Longrightarrow> obs_table V w' = obs_table V w"
  using assms unfolding os_laws_def by - (elim conjE, metis)+

lemma listed_mountpaths:
  assumes "os_laws Os V" and "os_mountpaths Os w = Inr ps"
  shows "paths_contain ps p \<longleftrightarrow> listed (obs_table V w) p"
  using os_listed [OF assms] by (simp add: listed_def paths_contain_iff)

section \<open>Facts about the handlers\<close>

text \<open>The checks a mount request passes before the table is looked at.\<close>

definition mount_allowed ::
  "'w os_api \<Rightarrow> mountd_config \<Rightarrow> mount_request \<Rightarrow> mount_arg \<Rightarrow> 'w \<Rightarrow> bool" where
  "mount_allowed Os cfg q m w \<longleftrightarrow>
     mr_mount q = Some m \<and> mnt_src m \<noteq> [] \<and> mnt_dst m \<noteq> [] \<and>
     ensure_interactable Os cfg (mnt_src m) False w = Inr () \<and>
     ensure_interactable Os cfg (mnt_dst m) (1 \<in> set (mr_flags q)) w = Inr () \<and>
     os_is_dir Os (mnt_dst m) w"

lemma mount_refused:
  assumes "\<And>m. mr_mount q = Some m \<Longrightarrow> \<not> mount_allowed Os cfg q m w"
  shows "\<exists>st. mount Os cfg q w = (Fail st, w)"
proof (cases "os_mountpaths Os w")
  case (Inr mounts)
  show ?thesis
  proof (cases "mr_mount q")
    case (Some m)
    then show ?thesis using assms [OF Some] Inr
      by (cases "ensure_interactable Os cfg (mnt_src m) False w";
          cases "ensure_interactable Os cfg (mnt_dst m) (1 \<in> set (mr_flags q)) w")
        (auto simp: mount_def mount_allowed_def)
  next
    case None
    with Inr show ?thesis by (simp add: mount_def)
  qed
qed (simp add: mount_def)

lemma mount_run:
  assumes "mount_allowed Os cfg q m w" and "os_mountpaths Os w = Inr mounts"
  shows "mount Os cfg q w =
    (if paths_contain mounts (mnt_dst m) then (Reply (), w)
     else case map_flags (mr_flags q) of
            Inl st \<Rightarrow> (Fail st, w)
          | Inr mapped \<Rightarrow>
     (case os_mount Os (mnt_src m) (mnt_dst m) ''xfs'' (sys_flags mapped \<union> {NODEV, NOSUID}) w of
        (Inl err, w') \<Rightarrow> (Fail (Status Internal (''could not mount request: '' @ err)), w')
      | (Inr _, w') \<Rightarrow>
     (case os_chown Os (mnt_dst m) (user_uid (for_user cfg)) (group_gid (for_group cfg)) w' of
        (Inl err, w'') \<Rightarrow>
          (Fail (Status Internal (''could not chown mount for specified user (''
                 @ show_u32 (user_uid (for_user cfg)) @ '':'' @ show_u32 (group_gid (for_group cfg))
                 @ ''): '' @ err)), w'')
      | (Inr _, w'') \<Rightarrow> (Reply (), w''))))"
  using assms unfolding mount_def get_owner_pair_def prod.case mount_allowed_def by simp

lemma map_flags_Inr: "map_flags fs = Inr gs \<longleftrightarrow> map mount_flag_from_i32 fs = map Some gs"
proof -
  have "map (\<lambda>f. ok_or (mount_flag_from_i32 f) e) fs = map Inr gs \<longleftrightarrow>
      map mount_flag_from_i32 fs = map Some gs" for e :: status
  proof (induction fs arbitrary: gs)
    case (Cons f fs)
    show ?case by (cases gs) (simp_all add: Cons.IH ok_or_Inr)
  qed auto
  then show ?thesis by (simp add: map_flags_def collect_results_map_Inr)
qed

lemma map_flags_Inl:
  "map_flags fs = Inl st \<Longrightarrow> st = Status InvalidArgument ''invalid mount flag'' \<and>
     (\<exists>f \<in> set fs. mount_flag_from_i32 f = None)"
  by (auto simp: map_flags_def ok_or_Inl dest!: collect_results_map_Inl)

lemma mount_flag_from_i32_Some: "mount_flag_from_i32 f = Some g \<longleftrightarrow> f = mount_flag_to_i32 g"
  by (cases g) (auto simp: mount_flag_from_i32_def)

lemma sys_flags_mapped:
  assumes "map_flags fs = Inr gs"
  shows "sys_flags gs = (if 2 \<in> set fs then {BIND} else {}) \<union> (if 1 \<in> set fs then {RDONLY} else {})"
proof -
  have "map mount_flag_from_i32 fs = map Some gs \<Longrightarrow> sys_flags gs =
      (if 2 \<in> set fs then {BIND} else {}) \<union> (if 1 \<in> set fs then {RDONLY} else {})"
  proof (induction gs arbitrary: fs)
    case (Cons g gs)
    then obtain f fs' where fs: "fs = f # fs'" "f = mount_flag_to_i32 g"
      "map mount_flag_from_i32 fs' = map Some gs"
      by (cases fs) (auto simp: mount_flag_from_i32_Some)
    have "sys_flags (g # gs) = sys_flags_of g \<union> sys_flags gs" by (simp add: sys_flags_def)
    with fs Cons.IH [OF fs(3)] show ?case by (cases g) auto
  qed (simp add: sys_flags_def)
  with assms show ?thesis by (simp add: map_flags_Inr)
qed

lemma asked_options_mapped:
  assumes "map_flags fs = Inr gs"
  shows "asked_options (obs_beneath V w) m fs =
    new_options V w (mnt_src m) ''xfs'' (sys_flags gs \<union> {NODEV, NOSUID})"
  by (auto simp: asked_options_def new_options_def sys_flags_mapped [OF assms])

lemma asked_entry_mapped:
  assumes "map_flags fs = Inr gs" and "ops = new_options V w (mnt_src m) ''xfs'' (sys_flags gs \<union> {NODEV, NOSUID})"
  shows "asked_entry resolve (obs_beneath V w) m fs =
    \<lparr>me_src = mnt_src m, me_dst = resolve (mnt_dst m), me_fstype = fst ops, me_flags = snd ops\<rparr>"
  using assms by (simp add: asked_entry_def asked_options_mapped)

text \<open>What a call of mount has done, whatever it answers.\<close>

lemma mount_effect:
  assumes laws: "os_laws Os V" and run: "mount Os cfg q w = (out, w')"
  shows "(\<exists>st. out = Fail st) \<and> obs_table V w' = obs_table V w \<or>
    (\<exists>m. mount_allowed Os cfg q m w \<and> out \<noteq> Panic \<and>
       (if listed (obs_table V w) (mnt_dst m)
        then out = Reply () \<and> w' = w
        else (\<exists>gs. map_flags (mr_flags q) = Inr gs) \<and>
          obs_table V w' = obs_table V w @
            [asked_entry (obs_resolve V w) (obs_beneath V w) m (mr_flags q)] \<and>
          (obs_resolve V w (mnt_dst m) = mnt_dst m \<longrightarrow>
            obs_beneath V w' (mnt_dst m) = asked_options (obs_beneath V w) m (mr_flags q))))"
proof (cases "\<exists>m mounts. mount_allowed Os cfg q m w \<and> os_mountpaths Os w = Inr mounts")
  case False
  then have "\<exists>st. mount Os cfg q w = (Fail st, w)"
  proof (cases "os_mountpaths Os w")
    case (Inr mounts)
    with False show ?thesis by (intro mount_refused) auto
  qed (simp add: mount_def)
  with run show ?thesis by auto
next
  case True
  then obtain m mounts where ok: "mount_allowed Os cfg q m w" "os_mountpaths Os w = Inr mounts"
    by blast
  note run' = run [unfolded mount_run [OF ok] listed_mountpaths [OF laws ok(2)]]
  show ?thesis
  proof (cases "listed (obs_table V w) (mnt_dst m)")
    case True
    with run' ok(1) show ?thesis by auto
  next
    case False
    show ?thesis
    proof (cases "map_flags (mr_flags q)")
      case (Inl st)
      with run' False show ?thesis by auto
    next
      case (Inr gs)
      obtain r w1 where mnt: "os_mount Os (mnt_src m) (mnt_dst m) ''xfs''
        (sys_flags gs \<union> {NODEV, NOSUID}) w = (r, w1)" by fastforce
      obtain rc w2 where own: "os_chown Os (mnt_dst m) (user_uid (for_user cfg))
        (group_gid (for_group cfg)) w1 = (rc, w2)" by fastforce
      show ?thesis
      proof (cases r)
        case (Inl e)
        with run' False Inr mnt os_mount_err [OF laws] show ?thesis by auto
      next
        case (Inr u)
        with run' False \<open>map_flags (mr_flags q) = Inr gs\<close> mnt own
        have "w' = w2" "out \<noteq> Panic" by (auto split: sum.splits)
        moreover have "obs_table V w2 =
            obs_table V w @ [asked_entry (obs_resolve V w) (obs_beneath V w) m (mr_flags q)]"
          using os_mount_ok [OF laws mnt [unfolded Inr]] os_chown_table [OF laws own]
          by (simp add: asked_entry_mapped [OF \<open>map_flags (mr_flags q) = Inr gs\<close> refl])
        moreover have "obs_resolve V w (mnt_dst m) = mnt_dst m \<Longrightarrow>
            obs_beneath V w2 (mnt_dst m) = asked_options (obs_beneath V w) m (mr_flags q)"
          using os_mount_beneath [OF laws mnt [unfolded Inr]] os_chown_beneath [OF laws own]
          by (simp add: asked_options_mapped [OF \<open>map_flags (mr_flags q) = Inr gs\<close>])
        ultimately show ?thesis using ok(1) False \<open>map_flags (mr_flags q) = Inr gs\<close> by auto
      qed
    qed
  qed
qed

lemma unmount_effect:
  assumes laws: "os_laws Os V" and run: "unmount Os cfg q w = (out, w')"
  shows "(\<exists>st. out = Fail st) \<and> obs_table V w' = obs_table V w \<or>
    out = Reply () \<and> ur_path q \<noteq> [] \<and>
      (if listed (obs_table V w) (ur_path q)
       then ensure_interactable Os cfg (ur_path q) False w = Inr () \<and>
         obs_table V w' = remove_last (\<lambda>e. me_dst e = obs_resolve V w (ur_path q)) (obs_table V w)
       else w' = w)"
proof (cases "os_mountpaths Os w")
  case (Inl e)
  with run show ?thesis by (auto simp: unmount_def)
next
  case (Inr mounts)
  note l = listed_mountpaths [OF laws Inr]
  obtain r w1 where um: "os_unmount Os (ur_path q) w = (r, w1)" by fastforce
  show ?thesis
  proof (cases "ur_path q = [] \<or> \<not> listed (obs_table V w) (ur_path q) \<or>
      ensure_interactable Os cfg (ur_path q) False w \<noteq> Inr ()")
    case True
    with run Inr show ?thesis
      by (cases "ensure_interactable Os cfg (ur_path q) False w")
        (auto simp: unmount_def l split: if_splits)
  next
    case False
    with run Inr um have "w' = w1" "out = (case r of
        Inl err \<Rightarrow> Fail (Status Internal (''could not unmount endpoint: '' @ err)) | Inr _ \<Rightarrow> Reply ())"
      by (auto simp: unmount_def l split: sum.splits)
    with False um os_unmount_ok [OF laws] os_unmount_err [OF laws] show ?thesis
      by (cases r) auto
  qed
qed

lemma block_path_run: "get_lvm_block_path L q w = (out, w') \<Longrightarrow> w' = w \<and> out \<noteq> Panic"
  by (auto simp: get_lvm_block_path_def)

section \<open>mountd implements the service\<close>

definition mnt_invar :: "'w os_api \<Rightarrow> 'w os_observers \<Rightarrow> 'w \<Rightarrow> bool" where
  "mnt_invar Os V w \<longleftrightarrow> os_laws Os V"

lemma client_result_Inr: "client_result lost ow = (Inr x, w) \<longleftrightarrow> ow = (Reply x, w)"
  by (cases ow; cases "fst ow") (auto simp: client_result_def)

lemma client_result_Inl:
  "client_result lost ow = (Inl st, w) \<longleftrightarrow> ow = (Fail st, w) \<or> ow = (Panic, w) \<and> st = lost"
  by (cases ow; cases "fst ow") (auto simp: client_result_def)

interpretation mountd: mount_service
  "mountd_server lost L Os cfg" "os_host Os" "obs_table V" "obs_resolve V" "obs_beneath V"
  "mnt_invar Os V"
  for lost :: status and L :: "'w lvm_api" and Os :: "'w os_api" and cfg :: mountd_config
    and V :: "'w os_observers"
proof (unfold_locales, goal_cases)
  case (1 bq s rb s')
  then show ?case
    by (cases rb) (auto simp: mountd_server_def client_result_Inr client_result_Inl dest: block_path_run)
next
  case (2 s mq u s')
  then have "mount Os cfg mq s = (Reply u, s')"
    by (simp add: mountd_server_def client_result_Inr)
  from mount_effect [OF _ this, of V] 2(1) show ?case
    by (auto simp: mnt_invar_def mount_allowed_def split: if_splits)
next
  case (3 s mq st s')
  then obtain out where "mount Os cfg mq s = (out, s')" and "out \<noteq> Reply ()"
    by (auto simp: mountd_server_def client_result_Inl)
  from mount_effect [OF _ this(1), of V] this(2) 3(1) show ?case
    by (auto simp: mnt_invar_def mount_allowed_def split: if_splits)
next
  case (4 s uq u s')
  then have "unmount Os cfg uq s = (Reply u, s')"
    by (simp add: mountd_server_def client_result_Inr)
  from unmount_effect [OF _ this, of V] 4(1) show ?case
    by (auto simp: mnt_invar_def split: if_splits)
next
  case (5 s uq st s')
  then obtain out where "unmount Os cfg uq s = (out, s')" and "out \<noteq> Reply ()"
    by (auto simp: mountd_server_def client_result_Inl)
  from unmount_effect [OF _ this(1), of V] this(2) 5(1) show ?case
    by (auto simp: mnt_invar_def)
next
  case (6 s p rc s')
  then show ?case by (auto simp: mnt_invar_def os_host_def dest: os_create_table os_create_beneath)
next
  case (7 s p rr s')
  then show ?case by (auto simp: mnt_invar_def os_host_def dest: os_remove_table)
qed

end
