(* ===== verification/Daemon.thy ===== *)
theory Daemon
  imports Mountd
begin

text \<open>
  The four programs from their start to their end (crates/volumed/src/main.rs,
  crates/mountd/src/main.rs, crates/csi/src/bin/controller.rs and bin/node.rs): the order in
  which a daemon reads its configuration, binds its socket, connects to its peer, serves and
  removes the socket file, and how each failure ends it.  Serving itself is one step.
\<close>

section \<open>The programs\<close>

text \<open>
  What the programs use of tokio, ctrlc and tonic, over a world: an error is the text
  \<open>main\<close> returns.  A program ends with success, with an error, or by the panic of an \<open>expect\<close>.
\<close>

record 'w daemon_api =
  dm_bind :: "string \<Rightarrow> 'w \<Rightarrow> (string + unit) \<times> 'w"
  dm_set_handler :: "string + unit"
  dm_connect :: "string \<Rightarrow> 'w \<Rightarrow> string + unit"
  dm_serve :: "'w \<Rightarrow> (string + unit) \<times> 'w"
  dm_remove_file :: "string \<Rightarrow> 'w \<Rightarrow> (string + unit) \<times> 'w"

datatype exit = ExitOk | ExitErr string | ExitPanic string

definition serve_and_clean :: "'w daemon_api \<Rightarrow> string \<Rightarrow> 'w \<Rightarrow> exit \<times> 'w" where
  "serve_and_clean D socket_path w =
     (case dm_serve D w of
        (Inl err, w') \<Rightarrow> (ExitErr err, w')
      | (Inr _, w') \<Rightarrow>
     (case dm_remove_file D socket_path w' of
        (Inl err, w'') \<Rightarrow> (ExitErr err, w'')
      | (Inr _, w'') \<Rightarrow> (ExitOk, w'')))"

definition bind_and_serve :: "'w daemon_api \<Rightarrow> string \<Rightarrow> ('w \<Rightarrow> exit \<times> 'w) \<Rightarrow> 'w \<Rightarrow> exit \<times> 'w" where
  "bind_and_serve D socket_path rest w =
     (case dm_bind D socket_path w of
        (Inl err, w') \<Rightarrow> (ExitErr err, w')
      | (Inr _, w') \<Rightarrow>
     (case dm_set_handler D of
        Inl err \<Rightarrow> (ExitPanic ''could not set Ctrl-C handler'', w')
      | Inr _ \<Rightarrow> rest w'))"

text \<open>
  \<open>client_injector\<close> connects to the peer of a plugin, volumed or mountd, when the layers of the
  server are built, which is after the socket has been bound.  Each plugin has its own one,
  with the same message.
\<close>

definition client_injector ::
  "'w daemon_api \<Rightarrow> string \<Rightarrow> ('w \<Rightarrow> exit \<times> 'w) \<Rightarrow> 'w \<Rightarrow> exit \<times> 'w" where
  "client_injector D peer rest w =
     (case dm_connect D peer w of
        Inl err \<Rightarrow> (ExitPanic ''could not connect to volumed socket'', w)
      | Inr _ \<Rightarrow> rest w)"

definition mount_client_injector ::
  "'w daemon_api \<Rightarrow> string \<Rightarrow> ('w \<Rightarrow> exit \<times> 'w) \<Rightarrow> 'w \<Rightarrow> exit \<times> 'w" where
  "mount_client_injector D peer rest w =
     (case dm_connect D peer w of
        Inl err \<Rightarrow> (ExitPanic ''could not connect to volumed socket'', w)
      | Inr _ \<Rightarrow> rest w)"

definition controller_main :: "'w daemon_api \<Rightarrow> string \<Rightarrow> string \<Rightarrow> 'w \<Rightarrow> exit \<times> 'w" where
  "controller_main D socket_path volumed_socket w =
     bind_and_serve D socket_path
       (client_injector D volumed_socket (serve_and_clean D socket_path)) w"

definition node_main :: "'w daemon_api \<Rightarrow> string \<Rightarrow> string \<Rightarrow> 'w \<Rightarrow> exit \<times> 'w" where
  "node_main D socket_path mountd_socket w =
     bind_and_serve D socket_path
       (mount_client_injector D mountd_socket (serve_and_clean D socket_path)) w"

lemma mount_client_injector_eq: "mount_client_injector D = client_injector D"
  by (simp add: fun_eq_iff mount_client_injector_def client_injector_def)

lemma node_main_eq: "node_main = controller_main"
  by (simp add: fun_eq_iff node_main_def controller_main_def mount_client_injector_eq)

definition volumed_main ::
  "'w daemon_api \<Rightarrow> 'w lvm_api \<Rightarrow> string \<Rightarrow> string + 'f \<Rightarrow> ('f \<Rightarrow> string + volumed_config) \<Rightarrow> string \<Rightarrow>
     'w \<Rightarrow> exit \<times> 'w" where
  "volumed_main D L config opened parse socket_path w =
     (case volumed_setup L config opened parse w of
        Inl err \<Rightarrow> (ExitErr err, w)
      | Inr _ \<Rightarrow> bind_and_serve D socket_path (serve_and_clean D socket_path) w)"

definition mountd_setup ::
  "string \<Rightarrow> string + 'f \<Rightarrow> ('f \<Rightarrow> string + mountd_config) \<Rightarrow> string + mountd_config" where
  "mountd_setup path opened parse =
     and_then (map_err (\<lambda>err. ''could not open config file '' @ path @ '': '' @ err) opened)
       (\<lambda>cfg_file. map_err (\<lambda>err. ''invalid config at '' @ path @ '': '' @ err) (parse cfg_file))"

definition mountd_main ::
  "'w daemon_api \<Rightarrow> string \<Rightarrow> string + 'f \<Rightarrow> ('f \<Rightarrow> string + mountd_config) \<Rightarrow> string \<Rightarrow> 'w \<Rightarrow> exit \<times> 'w" where
  "mountd_main D config opened parse socket_path w =
     (case mountd_setup config opened parse of
        Inl err \<Rightarrow> (ExitErr err, w)
      | Inr _ \<Rightarrow> bind_and_serve D socket_path (serve_and_clean D socket_path) w)"

section \<open>Socket files\<close>

text \<open>
  What the programs rely on: binding a Unix socket makes its file and fails where the file
  exists, removing the file removes it, and serving keeps it.
\<close>

definition daemon_laws :: "'w daemon_api \<Rightarrow> ('w \<Rightarrow> string \<Rightarrow> bool) \<Rightarrow> bool" where
  "daemon_laws D file \<longleftrightarrow>
     (\<forall>p w w' u. dm_bind D p w = (Inr u, w') \<longrightarrow> \<not> file w p \<and> file w' p) \<and>
     (\<forall>p w w' e. dm_bind D p w = (Inl e, w') \<longrightarrow> file w' p = file w p) \<and>
     (\<forall>p w w' r. dm_serve D w = (r, w') \<longrightarrow> file w' p = file w p) \<and>
     (\<forall>p w w' u. dm_remove_file D p w = (Inr u, w') \<longrightarrow> \<not> file w' p) \<and>
     (\<forall>p w w' e. dm_remove_file D p w = (Inl e, w') \<longrightarrow> file w' p = file w p)"

lemma daemon_rules:
  assumes "daemon_laws D file"
  shows bind_ok: "dm_bind D p w = (Inr u, w') \<Longrightarrow> \<not> file w p \<and> file w' p"
    and bind_err: "dm_bind D p w = (Inl e, w') \<Longrightarrow> file w' p = file w p"
    and serve_file: "dm_serve D w = (r, w') \<Longrightarrow> file w' p = file w p"
    and remove_ok: "dm_remove_file D p w = (Inr u, w') \<Longrightarrow> \<not> file w' p"
    and remove_err: "dm_remove_file D p w = (Inl e, w') \<Longrightarrow> file w' p = file w p"
  using assms unfolding daemon_laws_def by - (elim conjE, metis)+

lemma serve_and_clean_file:
  assumes laws: "daemon_laws D file" and run: "serve_and_clean D p w = (ex, w')" and "file w p"
  shows "file w' p \<longleftrightarrow> ex \<noteq> ExitOk"
proof -
  obtain r u where s: "dm_serve D w = (r, u)" by fastforce
  obtain rr v where d: "dm_remove_file D p u = (rr, v)" by fastforce
  from serve_file [OF laws s] assms(3) have "file u p" by simp
  with run s d show ?thesis
    using remove_ok [OF laws, of p u _ v] remove_err [OF laws, of p u _ v]
    by (cases r; cases rr) (auto simp: serve_and_clean_def)
qed

lemma bind_and_serve_file:
  assumes laws: "daemon_laws D file" and run: "bind_and_serve D p rest w = (ex, w')"
    and rest: "\<And>u ex v. rest u = (ex, v) \<Longrightarrow> file u p \<Longrightarrow> file v p \<longleftrightarrow> ex \<noteq> ExitOk"
  shows "ex = ExitOk \<and> \<not> file w p \<and> \<not> file w' p \<or>
    ex \<noteq> ExitOk \<and> (file w' p \<longleftrightarrow> file w p \<or> (\<exists>u w1. dm_bind D p w = (Inr u, w1)))"
proof -
  obtain r u where b: "dm_bind D p w = (r, u)" by fastforce
  show ?thesis
  proof (cases r)
    case (Inl e)
    with run b have "w' = u" "ex = ExitErr e" by (auto simp: bind_and_serve_def)
    with b Inl bind_err [OF laws b [unfolded Inl]] show ?thesis by simp
  next
    case (Inr x)
    from bind_ok [OF laws b [unfolded Inr]] have f: "\<not> file w p" "file u p" by simp_all
    show ?thesis
    proof (cases "dm_set_handler D")
      case (Inl e)
      with run b \<open>r = Inr x\<close> f show ?thesis by (auto simp: bind_and_serve_def)
    next
      case (Inr y)
      with run b \<open>r = Inr x\<close> have "rest u = (ex, w')" by (simp add: bind_and_serve_def)
      from rest [OF this f(2)] f b \<open>r = Inr x\<close> show ?thesis by auto
    qed
  qed
qed

lemma client_injector_file:
  assumes "daemon_laws D file"
    and "client_injector D peer (serve_and_clean D p) u = (ex, v)" and "file u p"
  shows "file v p \<longleftrightarrow> ex \<noteq> ExitOk"
  using assms serve_and_clean_file [OF assms(1)] by (auto simp: client_injector_def split: sum.splits)

text \<open>A host that has socket files and a set of peers that listen, for the witnesses.\<close>

definition ex_daemon :: "string list \<Rightarrow> string list daemon_api" where
  "ex_daemon peers =
     \<lparr>dm_bind = (\<lambda>p w. if p \<in> set w then (Inl ''Address already in use'', w) else (Inr (), p # w)),
      dm_set_handler = Inr (),
      dm_connect = (\<lambda>p w. if p \<in> set peers then Inr () else Inl ''Connection refused''),
      dm_serve = (\<lambda>w. (Inr (), w)),
      dm_remove_file = (\<lambda>p w. if p \<in> set w then (Inr (), filter (\<lambda>q. q \<noteq> p) w)
                              else (Inl ''No such file or directory'', w))\<rparr>"

lemma ex_daemon_laws: "daemon_laws (ex_daemon peers) (\<lambda>w p. p \<in> set w)"
  by (auto simp: daemon_laws_def ex_daemon_def split: if_splits)

lemma plugin_socket_file:
  assumes "daemon_laws D file" and "controller_main D p peer w = (ex, w')"
  shows "ex = ExitOk \<and> \<not> file w p \<and> \<not> file w' p \<or>
    ex \<noteq> ExitOk \<and> (file w' p \<longleftrightarrow> file w p \<or> (\<exists>u w1. dm_bind D p w = (Inr u, w1)))"
  by (rule bind_and_serve_file [OF assms(1) assms(2) [unfolded controller_main_def]
        client_injector_file [OF assms(1)]])

text \<open>C39: a plugin started before its peer panics with its socket file left behind, and every
  later start on that path fails to bind, also when the peer then listens.\<close>

theorem early_start_blocks_restart:
  assumes laws: "daemon_laws D file" "daemon_laws D' file"
    and bound: "dm_bind D p w = (Inr (), w1)" and handler: "dm_set_handler D = Inr ()"
    and refused: "dm_connect D peer w1 = Inl err"
    and plugin: "main = controller_main \<or> main = node_main"
  shows "main D p peer w = (ExitPanic ''could not connect to volumed socket'', w1) \<and>
    (\<exists>err' w2. main D' p peer w1 = (ExitErr err', w2) \<and> file w2 p)"
proof -
  have main: "main = controller_main" using plugin by (auto simp: node_main_eq)
  have first: "main D p peer w = (ExitPanic ''could not connect to volumed socket'', w1)"
    using bound handler refused
    by (simp add: main controller_main_def bind_and_serve_def client_injector_def)
  have there: "file w1 p" using bind_ok [OF laws(1) bound] by simp
  obtain r w2 where b: "dm_bind D' p w1 = (r, w2)" by fastforce
  obtain e where r: "r = Inl e"
    using there b bind_ok [OF laws(2), of p w1 _ w2] by (cases r) auto
  then have "main D' p peer w1 = (ExitErr e, w2)"
    using b by (simp add: main controller_main_def bind_and_serve_def)
  moreover have "file w2 p" using there bind_err [OF laws(2) b [unfolded r]] by simp
  ultimately show ?thesis using first by blast
qed

theorem early_start_blocks_restart_witness:
  "controller_main (ex_daemon []) ''sock'' ''peer'' [] =
     (ExitPanic ''could not connect to volumed socket'', [''sock'']) \<and>
   (\<exists>err' w2. controller_main (ex_daemon [''peer'']) ''sock'' ''peer'' [''sock''] = (ExitErr err', w2) \<and>
      ''sock'' \<in> set w2)"
  by (rule early_start_blocks_restart [OF ex_daemon_laws ex_daemon_laws])
    (simp_all add: ex_daemon_def)

text \<open>C38: each of the four programs that ends with success has found no file at its socket path
  and has left none.  One that ends by an error or a panic either has changed nothing, or there
  is a file at the path exactly when there was one before or the program could bind its socket:
  a failure that has changed anything leaves the file of the socket behind.\<close>

theorem socket_files:
  assumes laws: "daemon_laws D file"
    and main: "volumed_main D L config opened parse p w = (ex, w') \<or>
      mountd_main D config opened' parse' p w = (ex, w') \<or>
      controller_main D p peer w = (ex, w') \<or> node_main D p peer w = (ex, w')"
  shows "ex = ExitOk \<and> \<not> file w p \<and> \<not> file w' p \<or>
    ex \<noteq> ExitOk \<and> (w' = w \<or> (file w' p \<longleftrightarrow> file w p \<or> (\<exists>u w1. dm_bind D p w = (Inr u, w1))))"
proof -
  have tail: "?thesis" if "bind_and_serve D p (serve_and_clean D p) w = (ex, w')"
  proof -
    have "ex = ExitOk \<and> \<not> file w p \<and> \<not> file w' p \<or>
        ex \<noteq> ExitOk \<and> (file w' p \<longleftrightarrow> file w p \<or> (\<exists>u w1. dm_bind D p w = (Inr u, w1)))"
      by (rule bind_and_serve_file [OF laws that serve_and_clean_file [OF laws]])
    then show ?thesis by blast
  qed
  have "ex \<noteq> ExitOk \<and> w' = w \<or> bind_and_serve D p (serve_and_clean D p) w = (ex, w') \<or>
      controller_main D p peer w = (ex, w')"
    using main by (auto simp: volumed_main_def mountd_main_def node_main_eq split: sum.splits)
  then show ?thesis using tail plugin_socket_file [OF laws] by blast
qed

text \<open>A node plugin that ends well, and one whose peer does not listen.\<close>

theorem socket_files_witness:
  "node_main (ex_daemon [''peer'']) ''sock'' ''peer'' [] = (ExitOk, []) \<and>
   (\<exists>text. node_main (ex_daemon []) ''sock'' ''peer'' [] = (ExitPanic text, [''sock'']) \<and> ''sock'' \<in> set [''sock''])"
proof -
  note eval = node_main_def bind_and_serve_def mount_client_injector_def serve_and_clean_def ex_daemon_def
  have node: "node_main (ex_daemon [''peer'']) ''sock'' ''peer'' [] = (ExitOk, [])" by (simp add: eval)
  have early: "node_main (ex_daemon []) ''sock'' ''peer'' [] =
      (ExitPanic ''could not connect to volumed socket'', [''sock''])" by (simp add: eval)
  from socket_files [OF ex_daemon_laws disjI2 [OF disjI2 [OF disjI2 [OF node]]]]
    socket_files [OF ex_daemon_laws disjI2 [OF disjI2 [OF disjI2 [OF early]]]] node early
  show ?thesis by simp
qed

end
