(* ===== verification/Node.thy ===== *)
theory Node
  imports Csi Mountd
begin

text \<open>
  The CSI node service (crates/csi/src/node.rs): every RPC handler as a program over the
  MountService client and the file system of the host, behind the interceptor of bin/node.rs,
  and what the handlers do against any server that keeps the contract \<open>mount_service\<close>.
\<close>

section \<open>Handlers\<close>

record node_plugin =
  nod_node_id :: string

text \<open>\<open>extensions().get::<Client>().unwrap()\<close>.\<close>

definition with_mount_client :: "'m creq \<Rightarrow> ('m \<Rightarrow> 'a outcome node_prog) \<Rightarrow> 'a outcome node_prog" where
  "with_mount_client req k =
     (if get_extension req = Some MountServiceClient then k (message req) else NRet Panic)"

definition node_capability :: "node_rpc_type \<Rightarrow> node_service_capability" where
  "node_capability c = \<lparr>nsc_type = Some (node_rpc_to_i32 c)\<rparr>"

definition wants_readonly :: "volume_capability option \<Rightarrow> bool" where
  "wants_readonly capability =
     unwrap_or
       (map_option (\<lambda>access_mode. am_mode access_mode = mode_to_i32 SingleNodeReaderOnly)
          (Option.bind capability cap_access_mode))
       False"

definition node_stage_volume :: "node_stage_request creq \<Rightarrow> unit outcome node_prog" where
  "node_stage_volume request = with_mount_client request (\<lambda>req.
     if nsr_volume_id req = []
     then n_fail (Status InvalidArgument ''`volume_id` cannot be empty'')
     else if nsr_staging_target_path req = []
     then n_fail (Status InvalidArgument ''`staging_target_path` cannot be empty'')
     else if nsr_volume_capability req = None
     then n_fail (Status InvalidArgument ''`volume_capability` cannot be empty'')
     else
     NBlockPath \<lparr>bpr_uuid = nsr_volume_id req\<rparr> (\<lambda>resp. n_try resp (\<lambda>mount_src.
     NExists mount_src (\<lambda>src_exists.
     if \<not> src_exists
     then n_fail (Status FailedPrecondition
            (''volume with id `'' @ nsr_volume_id req
             @ ''` does not have a valid mount path: is it active?''))
     else
     NExists (nsr_staging_target_path req) (\<lambda>dst_exists.
     if \<not> dst_exists
     then n_fail (Status FailedPrecondition
            (''volume with id `'' @ nsr_volume_id req
             @ ''` does not have a valid mount destination: '' @ nsr_staging_target_path req))
     else
     NMount
       \<lparr>mr_mount = Some \<lparr>mnt_src = mount_src, mnt_dst = nsr_staging_target_path req\<rparr>,
        mr_flags = (if wants_readonly (nsr_volume_capability req)
                    then [mount_flag_to_i32 MfReadOnly] else [])\<rparr>
       n_result)))))"

definition node_unstage_volume :: "node_unstage_request creq \<Rightarrow> unit outcome node_prog" where
  "node_unstage_volume request = with_mount_client request (\<lambda>req.
     if nur_volume_id req = []
     then n_fail (Status InvalidArgument ''`volume_id` cannot be empty'')
     else if nur_staging_target_path req = []
     then n_fail (Status InvalidArgument ''`staging_target_path` cannot be empty'')
     else
     NBlockPath \<lparr>bpr_uuid = nur_volume_id req\<rparr> (\<lambda>resp. n_try resp (\<lambda>unmount_src.
     NExists unmount_src (\<lambda>src_exists.
     if \<not> src_exists
     then n_fail (Status FailedPrecondition
            (''volume with id `'' @ nur_volume_id req
             @ ''` does not have a valid mount path: is it active?''))
     else NUnmount \<lparr>ur_path = nur_staging_target_path req\<rparr> n_result))))"

definition node_publish_volume :: "node_publish_request creq \<Rightarrow> unit outcome node_prog" where
  "node_publish_volume request = with_mount_client request (\<lambda>req.
     if npr_volume_id req = []
     then n_fail (Status InvalidArgument ''`volume_id` cannot be empty'')
     else if npr_staging_target_path req = []
     then n_fail (Status InvalidArgument ''`staging_target_path` cannot be empty'')
     else if npr_volume_capability req = None
     then n_fail (Status InvalidArgument ''`volume_capability` cannot be empty'')
     else
     NBlockPath \<lparr>bpr_uuid = npr_volume_id req\<rparr> (\<lambda>resp. n_try resp (\<lambda>_.
     NCreateDirAll (npr_target_path req) (\<lambda>made.
     n_try (map_err (\<lambda>err. Status Internal (''could not create target path: '' @ err)) made) (\<lambda>_.
     NExists (npr_staging_target_path req) (\<lambda>src_exists.
     if \<not> src_exists
     then n_fail (Status FailedPrecondition
            (''volume with id `'' @ npr_volume_id req
             @ ''` does not have a valid mount path: was it staged?''))
     else
     NMount
       \<lparr>mr_mount = Some \<lparr>mnt_src = npr_staging_target_path req, mnt_dst = npr_target_path req\<rparr>,
        mr_flags = concat [[mount_flag_to_i32 MfBind],
                           if wants_readonly (npr_volume_capability req)
                           then [mount_flag_to_i32 MfReadOnly] else []]\<rparr>
       n_result))))))"

definition node_unpublish_volume :: "node_unpublish_request creq \<Rightarrow> unit outcome node_prog" where
  "node_unpublish_volume request = with_mount_client request (\<lambda>req.
     if nup_volume_id req = []
     then n_fail (Status InvalidArgument ''`volume_id` cannot be empty'')
     else if nup_target_path req = []
     then n_fail (Status InvalidArgument ''`target_path` cannot be empty'')
     else
     NBlockPath \<lparr>bpr_uuid = nup_volume_id req\<rparr> (\<lambda>resp. n_try resp (\<lambda>_.
     NUnmount \<lparr>ur_path = nup_target_path req\<rparr> (\<lambda>resp. n_try resp (\<lambda>_.
     NRemoveDir (nup_target_path req) (\<lambda>_. NRet (Reply ())))))))"

text \<open>The bodies of these two are \<open>todo!()\<close>.\<close>

definition node_get_volume_stats :: "'m creq \<Rightarrow> unit outcome" where
  "node_get_volume_stats _ = Panic"

definition node_expand_volume :: "'m creq \<Rightarrow> unit outcome" where
  "node_expand_volume _ = Panic"

definition node_get_capabilities :: "unit creq \<Rightarrow> node_service_capability list outcome" where
  "node_get_capabilities _ = Reply [node_capability StageUnstageVolume]"

definition node_get_info :: "node_plugin \<Rightarrow> unit creq \<Rightarrow> node_get_info_response outcome" where
  "node_get_info self _ =
     Reply \<lparr>ngi_node_id = nod_node_id self,
            ngi_max_volumes_per_node = 0,
            ngi_accessible_topology = Some \<lparr>segments = [(''host'', nod_node_id self)]\<rparr>\<rparr>"

section \<open>The interceptor\<close>

definition inject_mount_client :: "'m creq \<Rightarrow> status + 'm creq" where
  "inject_mount_client req = Inr (set_extension MountServiceClient req)"

definition node_rpc :: "('m creq \<Rightarrow> 'a outcome node_prog) \<Rightarrow> 'm \<Rightarrow> 'a outcome node_prog" where
  "node_rpc handler m =
     (case inject_mount_client (new_request m) of
        Inl st \<Rightarrow> NRet (Fail st)
      | Inr req \<Rightarrow> handler req)"

lemma node_rpc_eq:
  "node_rpc handler m = handler (set_extension MountServiceClient (new_request m))"
  by (simp add: node_rpc_def inject_mount_client_def)

lemma with_mount_client_injected [simp]:
  "with_mount_client (set_extension MountServiceClient (new_request m)) k = k m"
  by (simp add: with_mount_client_def)

section \<open>What the handlers do, against any mount service\<close>

text \<open>The mount a stage and a publish ask for.\<close>

definition access_flags :: "volume_capability option \<Rightarrow> i32 list" where
  "access_flags cap = (if wants_readonly cap then [1] else [])"

context mount_service
begin

lemma run_mount:
  assumes inv: "invar s" and q: "mr_mount q = Some m" and run: "ms_mount srv q s = (r, s')"
  shows "invar s' \<and>
    (table s' = table s \<or> table s' = table s @ [asked_entry (resolve s) (beneath s) m (mr_flags q)]) \<and>
    (r = Inr () \<longrightarrow> table s' = (if listed (table s) (mnt_dst m) then table s
       else table s @ [asked_entry (resolve s) (beneath s) m (mr_flags q)]) \<and>
     (\<not> listed (table s) (mnt_dst m) \<longrightarrow> resolve s (mnt_dst m) = mnt_dst m \<longrightarrow>
        beneath s' (mnt_dst m) = asked_options (beneath s) m (mr_flags q)))"
proof (cases r)
  case (Inl st)
  with mount_err [OF inv] run q show ?thesis by fastforce
next
  case (Inr u)
  from mount_ok [OF inv run [unfolded this]] q Inr show ?thesis by auto
qed

lemma run_stage:
  assumes inv: "invar s" and run: "run_node (node_rpc node_stage_volume m) srv host s = (out, s')"
  defines "entry \<equiv> \<lambda>p. asked_entry (resolve s) (beneath s)
    \<lparr>mnt_src = p, mnt_dst = nsr_staging_target_path m\<rparr> (access_flags (nsr_volume_capability m))"
  shows "invar s' \<and> (\<exists>st. out = Fail st) \<and> table s' = table s \<or>
    invar s' \<and> (\<exists>p. ms_block_path srv \<lparr>bpr_uuid = nsr_volume_id m\<rparr> s = (Inr p, s) \<and> nh_exists host p s \<and>
       (table s' = table s \<or> table s' = table s @ [entry p]) \<and> out \<noteq> Panic \<and>
       (out = Reply () \<longrightarrow> table s' =
          (if listed (table s) (nsr_staging_target_path m) then table s else table s @ [entry p]) \<and>
        (\<not> listed (table s) (nsr_staging_target_path m) \<longrightarrow>
           resolve s (nsr_staging_target_path m) = nsr_staging_target_path m \<longrightarrow>
           beneath s' (nsr_staging_target_path m) = (me_fstype (entry p), me_flags (entry p)))))"
proof -
  obtain r t where bp: "ms_block_path srv \<lparr>bpr_uuid = nsr_volume_id m\<rparr> s = (r, t)" by fastforce
  then have t: "t = s" by (rule block_path_pure)
  let ?q = "\<lambda>p. \<lparr>mr_mount = Some \<lparr>mnt_src = p, mnt_dst = nsr_staging_target_path m\<rparr>,
    mr_flags = access_flags (nsr_volume_capability m)\<rparr>"
  show ?thesis
  proof (cases "nsr_volume_id m = [] \<or> nsr_staging_target_path m = [] \<or>
      nsr_volume_capability m = None \<or> (\<exists>st. r = Inl st) \<or>
      (\<exists>p. r = Inr p \<and> (\<not> nh_exists host p s \<or> \<not> nh_exists host (nsr_staging_target_path m) s))")
    case True
    with run bp t inv show ?thesis
      by (auto simp: node_rpc_eq node_stage_volume_def split: if_splits)
  next
    case False
    then obtain p where r: "r = Inr p" "nh_exists host p s" by (cases r) auto
    obtain rm u where mnt: "ms_mount srv (?q p) s = (rm, u)" by fastforce
    with run bp t False r have "s' = u" "out = of_result rm"
      by (auto simp: node_rpc_eq node_stage_volume_def access_flags_def split: if_splits)
    with run_mount [OF inv _ mnt] bp t r show ?thesis
      by (auto simp: entry_def of_result_Reply asked_entry_def)
  qed
qed

lemma run_stage_reply:
  assumes inv: "invar s" and run: "run_node (node_rpc node_stage_volume m) srv host s = (Reply u, s')"
  shows "\<exists>p. ms_block_path srv \<lparr>bpr_uuid = nsr_volume_id m\<rparr> s = (Inr p, s) \<and> nh_exists host p s \<and>
    table s' = (if listed (table s) (nsr_staging_target_path m) then table s
      else table s @ [asked_entry (resolve s) (beneath s)
        \<lparr>mnt_src = p, mnt_dst = nsr_staging_target_path m\<rparr> (access_flags (nsr_volume_capability m))])"
proof -
  have "Reply u = Reply ()" "\<And>st. Reply u \<noteq> Fail st" by simp_all
  with run_stage [OF inv run] show ?thesis by meson
qed

text \<open>Afterwards the staging path lies in the mount that was made.\<close>

lemma run_stage_beneath:
  assumes inv: "invar s" and run: "run_node (node_rpc node_stage_volume m) srv host s = (Reply u, s')"
    and absent: "\<not> listed (table s) (nsr_staging_target_path m)"
    and canonical: "resolve s (nsr_staging_target_path m) = nsr_staging_target_path m"
  shows "beneath s' (nsr_staging_target_path m) =
    (''xfs'', if wants_readonly (nsr_volume_capability m) then {RDONLY, NODEV, NOSUID} else {NODEV, NOSUID})"
proof -
  have "Reply u = Reply ()" "\<And>st. Reply u \<noteq> Fail st" by simp_all
  with run_stage [OF inv run] absent canonical show ?thesis
    by (auto simp: asked_entry_def asked_options_def access_flags_def)
qed

lemma run_publish:
  assumes inv: "invar s" and run: "run_node (node_rpc node_publish_volume m) srv host s = (out, s')"
  defines "entry \<equiv> \<lambda>t. asked_entry (resolve t) (beneath t)
    \<lparr>mnt_src = npr_staging_target_path m, mnt_dst = npr_target_path m\<rparr>
    (2 # access_flags (npr_volume_capability m))"
  shows "invar s' \<and> (\<exists>st. out = Fail st) \<and> table s' = table s \<or>
    invar s' \<and> (\<exists>p t. ms_block_path srv \<lparr>bpr_uuid = npr_volume_id m\<rparr> s = (Inr p, s) \<and>
       nh_create_dir_all host (npr_target_path m) s = (Inr (), t) \<and>
       (table s' = table s \<or> table s' = table s @ [entry t]) \<and> out \<noteq> Panic \<and>
       (out = Reply () \<longrightarrow> table s' =
          (if listed (table s) (npr_target_path m) then table s else table s @ [entry t])))"
proof -
  obtain r t0 where bp: "ms_block_path srv \<lparr>bpr_uuid = npr_volume_id m\<rparr> s = (r, t0)" by fastforce
  then have t0: "t0 = s" by (rule block_path_pure)
  obtain rc t where mk: "nh_create_dir_all host (npr_target_path m) s = (rc, t)" by fastforce
  from create_dir [OF inv mk] have t: "invar t" "table t = table s" by auto
  let ?q = "\<lparr>mr_mount = Some \<lparr>mnt_src = npr_staging_target_path m, mnt_dst = npr_target_path m\<rparr>,
    mr_flags = 2 # access_flags (npr_volume_capability m)\<rparr>"
  show ?thesis
  proof (cases "npr_volume_id m = [] \<or> npr_staging_target_path m = [] \<or>
      npr_volume_capability m = None \<or> (\<exists>st. r = Inl st) \<or> (\<exists>e. rc = Inl e) \<or>
      \<not> nh_exists host (npr_staging_target_path m) t")
    case True
    with run bp t0 inv mk t show ?thesis
      by (cases r; cases rc) (auto simp: node_rpc_eq node_publish_volume_def split: if_splits)
  next
    case False
    then obtain p where r: "r = Inr p" "rc = Inr ()" by (cases r; cases rc) auto
    obtain rm u where mnt: "ms_mount srv ?q t = (rm, u)" by fastforce
    with run bp t0 False r mk have "s' = u" "out = of_result rm"
      by (auto simp: node_rpc_eq node_publish_volume_def access_flags_def split: if_splits)
    with run_mount [OF t(1) _ mnt] bp t0 t r mk show ?thesis
      by (auto simp: entry_def of_result_Reply)
  qed
qed

lemma run_publish_reply:
  assumes inv: "invar s" and run: "run_node (node_rpc node_publish_volume m) srv host s = (Reply u, s')"
  shows "\<exists>t. nh_create_dir_all host (npr_target_path m) s = (Inr (), t) \<and>
    table s' = (if listed (table s) (npr_target_path m) then table s
      else table s @ [asked_entry (resolve t) (beneath t)
        \<lparr>mnt_src = npr_staging_target_path m, mnt_dst = npr_target_path m\<rparr>
        (2 # access_flags (npr_volume_capability m))])"
proof -
  have "Reply u = Reply ()" "\<And>st. Reply u \<noteq> Fail st" by simp_all
  with run_publish [OF inv run] show ?thesis by meson
qed

lemma run_unmount:
  assumes inv: "invar s" and run: "ms_unmount srv \<lparr>ur_path = p\<rparr> s = (r, s')"
  shows "invar s' \<and> table s' = (if r = Inr () \<and> listed (table s) p
    then remove_last (\<lambda>e. me_dst e = resolve s p) (table s) else table s)"
  using unmount_err [OF inv, of "\<lparr>ur_path = p\<rparr>"] unmount_ok [OF inv, of "\<lparr>ur_path = p\<rparr>"] run
  by (cases r) fastforce+

lemma run_unpublish:
  assumes inv: "invar s" and run: "run_node (node_rpc node_unpublish_volume m) srv host s = (out, s')"
  shows "invar s' \<and> out \<noteq> Panic \<and> table s' =
    (if out = Reply () \<and> listed (table s) (nup_target_path m)
     then remove_last (\<lambda>e. me_dst e = resolve s (nup_target_path m)) (table s) else table s)"
proof -
  obtain r t0 where bp: "ms_block_path srv \<lparr>bpr_uuid = nup_volume_id m\<rparr> s = (r, t0)" by fastforce
  then have t0: "t0 = s" by (rule block_path_pure)
  obtain ru u where um: "ms_unmount srv \<lparr>ur_path = nup_target_path m\<rparr> s = (ru, u)" by fastforce
  obtain rr v where rm: "nh_remove_dir host (nup_target_path m) u = (rr, v)" by fastforce
  from run_unmount [OF inv um] have u: "invar u" by simp
  show ?thesis
    using run bp t0 inv um rm run_unmount [OF inv um] remove_dir [OF u rm]
    by (cases r; cases ru)
      (auto simp: node_rpc_eq node_unpublish_volume_def n_fail_def split: if_splits)
qed

lemma run_unstage:
  assumes inv: "invar s" and run: "run_node (node_rpc node_unstage_volume m) srv host s = (out, s')"
  shows "invar s' \<and> out \<noteq> Panic \<and> table s' =
    (if out = Reply () \<and> listed (table s) (nur_staging_target_path m)
     then remove_last (\<lambda>e. me_dst e = resolve s (nur_staging_target_path m)) (table s) else table s)"
proof -
  obtain r t0 where bp: "ms_block_path srv \<lparr>bpr_uuid = nur_volume_id m\<rparr> s = (r, t0)" by fastforce
  then have t0: "t0 = s" by (rule block_path_pure)
  obtain ru u where um: "ms_unmount srv \<lparr>ur_path = nur_staging_target_path m\<rparr> s = (ru, u)" by fastforce
  show ?thesis
    using run bp t0 inv um run_unmount [OF inv um]
    by (cases r; cases ru)
      (auto simp: node_rpc_eq node_unstage_volume_def n_fail_def split: if_splits)
qed

end

end
