(* ===== verification/Identity.thy ===== *)
theory Identity
  imports Controller Node
begin

text \<open>
  The CSI identity service (crates/csi/src/identity.rs), which both plugins serve: the
  readiness probe, as a program over the VolumeService client, and the constant answers.
\<close>

section \<open>Handlers\<close>

datatype verifier = ControllerVerifier | NodeVerifier

definition verify :: "verifier \<Rightarrow> 'm creq \<Rightarrow> bool option outcome vol_prog" where
  "verify self request =
     (case self of
        ControllerVerifier \<Rightarrow>
          if get_extension request \<noteq> Some VolumeServiceClient then VRet Panic
          else VGetFreeBytes (\<lambda>resp. VRet (Reply (result_ok (map_sum id (\<lambda>_. True) resp))))
      | NodeVerifier \<Rightarrow>
          if get_extension request \<noteq> Some MountServiceClient then VRet Panic
          else VRet (Reply (Some True)))"

record rlvm_identity =
  idn_verifier :: verifier

definition identity_new :: "verifier \<Rightarrow> rlvm_identity" where
  "identity_new v = \<lparr>idn_verifier = v\<rparr>"

definition plugin_service :: "plugin_service_type \<Rightarrow> plugin_capability" where
  "plugin_service t = \<lparr>pc_type = Some (PluginService (plugin_service_to_i32 t))\<rparr>"

definition get_plugin_info :: "'m creq \<Rightarrow> plugin_info_response outcome" where
  "get_plugin_info _ =
     Reply \<lparr>pi_name = ''org.github.rlvm'', pi_vendor_version = ''0.1.0'', pi_manifest = []\<rparr>"

definition get_plugin_capabilities :: "'m creq \<Rightarrow> plugin_capability list outcome" where
  "get_plugin_capabilities _ =
     Reply [plugin_service ControllerService, plugin_service VolumeAccessibilityConstraints]"

definition probe :: "rlvm_identity \<Rightarrow> 'm creq \<Rightarrow> probe_response outcome vol_prog" where
  "probe self request =
     v_then (verify (idn_verifier self) request) (\<lambda>ready. VRet (Reply \<lparr>probe_ready = ready\<rparr>))"

text \<open>The same service behind the interceptor of the node plugin.\<close>

definition node_identity_rpc :: "('m creq \<Rightarrow> 'a outcome vol_prog) \<Rightarrow> 'm \<Rightarrow> 'a outcome vol_prog" where
  "node_identity_rpc handler m =
     (case inject_mount_client (new_request m) of
        Inl st \<Rightarrow> VRet (Fail st)
      | Inr req \<Rightarrow> handler req)"

text \<open>
  Its requests carry no client of volumed, so that it has no call to make: with the verifier of
  the controller it would panic instead (\<open>node_identity_calls_nothing\<close>).
\<close>

fun without_volumed :: "'a outcome vol_prog \<Rightarrow> 'a outcome node_prog" where
  "without_volumed (VRet x) = NRet x"
| "without_volumed p = NRet Panic"

lemma node_identity_calls_nothing:
  "node_identity_rpc (probe (identity_new v)) m =
     VRet (case v of ControllerVerifier \<Rightarrow> Panic | NodeVerifier \<Rightarrow> Reply \<lparr>probe_ready = Some True\<rparr>)"
  by (cases v) (simp_all add: node_identity_rpc_def inject_mount_client_def probe_def identity_new_def verify_def)

end
