(* ===== verification/Programs.thy ===== *)
theory Programs
  imports Daemon Identity
begin

text \<open>
  The command lines of the four programs (the \<open>Cli\<close> structs of the four main files), with
  their default values, the programs started from them, and the node ids the two plugins
  report.  What clap has parsed is an argument: an option that was not given is \<open>None\<close>.
\<close>

section \<open>The plugins\<close>

record plugin_args =
  given_node_id :: "string option"
  given_socket_path :: "string option"
  given_peer :: string

record plugin_cli =
  cli_node_id :: string
  cli_socket_path :: string
  cli_peer :: string

text \<open>\<open>fresh\<close> is what \<open>Uuid::new_v4\<close> returns for this start; ids are their texts.\<close>

definition controller_cli :: "string \<Rightarrow> plugin_args \<Rightarrow> plugin_cli" where
  "controller_cli fresh args =
     \<lparr>cli_node_id = unwrap_or (given_node_id args) fresh,
      cli_socket_path = unwrap_or (given_socket_path args) ''/run/rlvm/controller.sock'',
      cli_peer = given_peer args\<rparr>"

definition node_cli :: "string \<Rightarrow> plugin_args \<Rightarrow> plugin_cli" where
  "node_cli fresh args =
     \<lparr>cli_node_id = unwrap_or (given_node_id args) fresh,
      cli_socket_path = unwrap_or (given_socket_path args) ''/run/rlvm/node.sock'',
      cli_peer = given_peer args\<rparr>"

definition controller_new :: "string \<Rightarrow> controller" where
  "controller_new node_id = \<lparr>ctl_node_id = node_id\<rparr>"

definition node_new :: "string \<Rightarrow> node_plugin" where
  "node_new node_id = \<lparr>nod_node_id = node_id\<rparr>"

text \<open>A start of a program: the service it serves, and how it ends.\<close>

definition controller_program ::
  "'w daemon_api \<Rightarrow> string \<Rightarrow> plugin_args \<Rightarrow> 'w \<Rightarrow> controller \<times> exit \<times> 'w" where
  "controller_program D fresh given w =
     (let args = controller_cli fresh given
      in (controller_new (cli_node_id args),
          controller_main D (cli_socket_path args) (cli_peer args) w))"

definition node_program ::
  "'w daemon_api \<Rightarrow> string \<Rightarrow> plugin_args \<Rightarrow> 'w \<Rightarrow> node_plugin \<times> exit \<times> 'w" where
  "node_program D fresh given w =
     (let args = node_cli fresh given
      in (node_new (cli_node_id args), node_main D (cli_socket_path args) (cli_peer args) w))"

section \<open>The daemons\<close>

record daemon_args =
  given_config :: "string option"
  given_socket :: "string option"

record daemon_cli =
  cli_config :: string
  cli_socket :: string

definition volumed_cli :: "daemon_args \<Rightarrow> daemon_cli" where
  "volumed_cli args =
     \<lparr>cli_config = unwrap_or (given_config args) ''/etc/volumed/volumed.yaml'',
      cli_socket = unwrap_or (given_socket args) ''/run/volumed/volumed.sock''\<rparr>"

definition mountd_cli :: "daemon_args \<Rightarrow> daemon_cli" where
  "mountd_cli args =
     \<lparr>cli_config = unwrap_or (given_config args) ''/etc/mountd/mountd.yaml'',
      cli_socket = unwrap_or (given_socket args) ''/run/mountd/mountd.sock''\<rparr>"

text \<open>The structs the two daemons serve (\<open>VolumedServer\<close>, \<open>MountdServer\<close>).\<close>

record volumed_service =
  vls_config :: volumed_config

definition volumed_new :: "volumed_config \<Rightarrow> volumed_service" where
  "volumed_new config = \<lparr>vls_config = config\<rparr>"

record mountd_service =
  mds_config :: mountd_config

definition mountd_new :: "mountd_config \<Rightarrow> mountd_service" where
  "mountd_new cfg = \<lparr>mds_config = cfg\<rparr>"

text \<open>
  volumed serves its struct behind the interceptor for the volume group; a start that fails in
  its checks serves nothing.
\<close>

definition volumed_program ::
  "'w daemon_api \<Rightarrow> 'w lvm_api \<Rightarrow> (string \<Rightarrow> string + 'f) \<Rightarrow> ('f \<Rightarrow> string + volumed_config) \<Rightarrow>
     daemon_args \<Rightarrow> 'w \<Rightarrow> (volumed_service \<times> string) option \<times> exit \<times> 'w" where
  "volumed_program D L open_file parse given w =
     (let args = volumed_cli given; opened = open_file (cli_config args)
      in (map_option (\<lambda>(cfg, resource). (volumed_new cfg, resource))
            (result_ok (volumed_setup L (cli_config args) opened parse w)),
          volumed_main D L (cli_config args) opened parse (cli_socket args) w))"

definition mountd_program ::
  "'w daemon_api \<Rightarrow> (string \<Rightarrow> string + 'f) \<Rightarrow> ('f \<Rightarrow> string + mountd_config) \<Rightarrow>
     daemon_args \<Rightarrow> 'w \<Rightarrow> mountd_service option \<times> exit \<times> 'w" where
  "mountd_program D open_file parse given w =
     (let args = mountd_cli given; opened = open_file (cli_config args)
      in (map_option mountd_new (result_ok (mountd_setup (cli_config args) opened parse)),
          mountd_main D (cli_config args) opened parse (cli_socket args) w))"

section \<open>Topologies\<close>

lemma topology_matches_id:
  "\<exists>info t. node_get_info nd q = Reply info \<and> ngi_accessible_topology info = Some t \<and>
     (list_ex (topology_eq t) (vol_accessible_topology (process_volume self lv)) \<longleftrightarrow>
      ngi_node_id info = ctl_node_id self)"
  by (auto simp: node_get_info_def topology_eq_def map_eq_def get_host_topology_def)

text \<open>C40: a volume the controller plugin reports is accessible from the node of a node plugin, by
  the topologies the two give, exactly when their node ids are the same; plugins started
  without \<open>--node-id\<close> draw one each, so that a volume is accessible from no node unless the
  draws collide, and a restart of either plugin, which draws again, cuts its volumes off.\<close>

theorem plugin_topologies:
  assumes "controller_program D fresh_c args_c w = (ctl, c)"
    and "node_program D' fresh_n args_n w' = (nd, n)"
  shows "\<exists>info t. node_get_info nd q = Reply info \<and> ngi_accessible_topology info = Some t \<and>
    (list_ex (topology_eq t) (vol_accessible_topology (process_volume ctl lv)) \<longleftrightarrow>
      (case (given_node_id args_n, given_node_id args_c) of
         (Some i, Some j) \<Rightarrow> i = j
       | (Some i, None) \<Rightarrow> i = fresh_c
       | (None, Some j) \<Rightarrow> fresh_n = j
       | (None, None) \<Rightarrow> fresh_n = fresh_c))"
  using topology_matches_id [of nd q ctl lv] assms
  by (auto simp: controller_program_def node_program_def controller_cli_def node_cli_def
      controller_new_def node_new_def node_get_info_def Let_def split: option.splits)

theorem plugin_topologies_witness:
  "\<forall>lv. \<exists>info t. node_get_info (node_new ''b'') (new_request ()) = Reply info \<and> ngi_accessible_topology info = Some t \<and>
    \<not> list_ex (topology_eq t) (vol_accessible_topology (process_volume (controller_new ''a'') lv))"
proof -
  let ?args = "\<lparr>given_node_id = None, given_socket_path = None, given_peer = ''peer''\<rparr>"
  have "controller_program (ex_daemon []) ''a'' ?args [] =
      (controller_new ''a'', controller_main (ex_daemon []) ''/run/rlvm/controller.sock'' ''peer'' [])"
    and "node_program (ex_daemon []) ''b'' ?args [] =
      (node_new ''b'', node_main (ex_daemon []) ''/run/rlvm/node.sock'' ''peer'' [])"
    by (simp_all add: controller_program_def node_program_def controller_cli_def node_cli_def)
  from plugin_topologies [OF this, of "new_request ()"] show ?thesis by simp
qed

end
