(* ===== verification/Calls.thy ===== *)
theory Calls
  imports Volume_Service
begin

text \<open>
  What a client program asks of volumed, and how often: the call a program awaits
  (\<open>pending\<close>), a bound on the calls of every path through a program together with a condition
  on each call and on the result (\<open>conforms\<close>), calls that are lost on the way, and the runs of
  a program that is scheduled alone.
\<close>

section \<open>Calls\<close>

datatype vol_call =
    AskLvList
  | AskFreeBytes
  | AskCreate create_lv_request
  | AskDelete delete_lv_request
  | AskFormat format_lv_request
  | AskLv get_lv_request

fun pending :: "'a vol_prog \<Rightarrow> vol_call option" where
  "pending (VRet x) = None"
| "pending (VGetLvList k) = Some AskLvList"
| "pending (VGetFreeBytes k) = Some AskFreeBytes"
| "pending (VCreateLogicalVolume q k) = Some (AskCreate q)"
| "pending (VDeleteLogicalVolume q k) = Some (AskDelete q)"
| "pending (VFormatLogicalVolume q k) = Some (AskFormat q)"
| "pending (VGetLogicalVolume q k) = Some (AskLv q)"

text \<open>The state after a call has been served.\<close>

fun serve_call :: "'s volume_server \<Rightarrow> vol_call \<Rightarrow> 's \<Rightarrow> 's" where
  "serve_call srv AskLvList s = snd (sv_get_lv_list srv s)"
| "serve_call srv AskFreeBytes s = snd (sv_get_free_bytes srv s)"
| "serve_call srv (AskCreate q) s = snd (sv_create srv q s)"
| "serve_call srv (AskDelete q) s = snd (sv_delete srv q s)"
| "serve_call srv (AskFormat q) s = snd (sv_format srv q s)"
| "serve_call srv (AskLv q) s = snd (sv_get srv q s)"

text \<open>
  The connection fails: the generated client returns the status \<open>st\<close> for the pending call.
\<close>

fun vol_lost :: "status \<Rightarrow> 'a vol_prog \<Rightarrow> 'a vol_prog" where
  "vol_lost st (VRet x) = VRet x"
| "vol_lost st (VGetLvList k) = k (Inl st)"
| "vol_lost st (VGetFreeBytes k) = k (Inl st)"
| "vol_lost st (VCreateLogicalVolume q k) = k (Inl st)"
| "vol_lost st (VDeleteLogicalVolume q k) = k (Inl st)"
| "vol_lost st (VFormatLogicalVolume q k) = k (Inl st)"
| "vol_lost st (VGetLogicalVolume q k) = k (Inl st)"

section \<open>Conditions on every path\<close>

text \<open>
  \<open>conforms P Q p n\<close>: whatever is answered, \<open>p\<close> ends in \<open>Q\<close> after at most \<open>n\<close> calls, each in
  \<open>P\<close>.
\<close>

primrec conforms :: "(vol_call \<Rightarrow> bool) \<Rightarrow> ('a \<Rightarrow> bool) \<Rightarrow> 'a vol_prog \<Rightarrow> nat \<Rightarrow> bool" where
  "conforms P Q (VRet x) n = Q x"
| "conforms P Q (VGetLvList k) n = (0 < n \<and> P AskLvList \<and> (\<forall>r. conforms P Q (k r) (n - 1)))"
| "conforms P Q (VGetFreeBytes k) n = (0 < n \<and> P AskFreeBytes \<and> (\<forall>r. conforms P Q (k r) (n - 1)))"
| "conforms P Q (VCreateLogicalVolume q k) n =
     (0 < n \<and> P (AskCreate q) \<and> (\<forall>r. conforms P Q (k r) (n - 1)))"
| "conforms P Q (VDeleteLogicalVolume q k) n =
     (0 < n \<and> P (AskDelete q) \<and> (\<forall>r. conforms P Q (k r) (n - 1)))"
| "conforms P Q (VFormatLogicalVolume q k) n =
     (0 < n \<and> P (AskFormat q) \<and> (\<forall>r. conforms P Q (k r) (n - 1)))"
| "conforms P Q (VGetLogicalVolume q k) n =
     (0 < n \<and> P (AskLv q) \<and> (\<forall>r. conforms P Q (k r) (n - 1)))"

lemma conforms_mono:
  assumes "conforms P Q p n" and "n \<le> n'" and "\<And>c. P c \<Longrightarrow> P' c" and "\<And>x. Q x \<Longrightarrow> Q' x"
  shows "conforms P' Q' p n'"
  using assms(1,2)
  by (induction p arbitrary: n n')
    (simp_all add: assms(3,4), (meson diff_le_mono less_le_trans rangeI)+)

lemma conforms_bind:
  assumes "conforms P R p m"
    and "\<And>x. R (Reply x) \<Longrightarrow> conforms P Q (k x) n"
    and "\<And>st. R (Fail st) \<Longrightarrow> Q (Fail st)" and "R Panic \<Longrightarrow> Q Panic"
  shows "conforms P Q (v_then p k) (m + n)"
  using assms(1)
proof (induction p arbitrary: m)
  case (VRet x)
  then show ?case using assms(2-4)
    by (cases x) (auto intro: conforms_mono [where n = n and P = P and Q = Q])
qed (auto simp: gr0_conv_Suc)

lemma conforms_map: "conforms P Q (map_vol_prog f p) n \<longleftrightarrow> conforms P (\<lambda>x. Q (f x)) p n"
  by (induction p arbitrary: n) simp_all

lemma conforms_pending: "conforms P Q p n \<Longrightarrow> pending p = Some c \<Longrightarrow> P c \<and> 0 < n"
  by (cases p) auto

lemma conforms_ended: "conforms P Q p 0 \<Longrightarrow> \<exists>x. p = VRet x \<and> Q x"
  by (cases p) auto

lemma conforms_lost: "conforms P Q p n \<Longrightarrow> conforms P Q (vol_lost st p) (n - 1)"
  by (cases p) simp_all

lemma vol_step_served:
  "vol_step srv p s p' s' \<Longrightarrow> \<exists>c. pending p = Some c \<and> s' = serve_call srv c s"
  by (induction rule: vol_step.induct) simp_all

lemma conforms_step:
  "vol_step srv p s p' s' \<Longrightarrow> conforms P Q p n \<Longrightarrow> 0 < n \<and> conforms P Q p' (n - 1)"
  by (induction rule: vol_step.induct) simp_all

lemma conforms_next: "vol_next srv p s = (p', s') \<Longrightarrow> conforms P Q p n \<Longrightarrow> conforms P Q p' (n - 1)"
  by (cases p) (auto split: prod.splits)

section \<open>Runs of conforming programs\<close>

lemma conforms_reach:
  assumes "vol_reach srv ps s ps' s'" and "\<forall>i < length ps. conforms (P i) (Q i) (ps ! i) (b i)"
  shows "\<forall>i < length ps. conforms (P i) (Q i) (ps' ! i) (b i)"
  using assms
proof (induction rule: vol_reach.induct)
  case (reach_step ps s ps' s' i p s'')
  then have IH: "\<forall>i < length ps. conforms (P i) (Q i) (ps' ! i) (b i)" by blast
  show ?case
  proof (intro allI impI)
    fix j
    assume j: "j < length ps"
    show "conforms (P j) (Q j) (ps'[i := p] ! j) (b j)"
    proof (cases "j = i")
      case True
      with IH j have "conforms (P j) (Q j) p (b j - 1)"
        using conforms_step [OF reach_step(3)] by simp
      then have "conforms (P j) (Q j) p (b j)" by (rule conforms_mono) simp_all
      with True reach_step(2) show ?thesis by simp
    next
      case False
      with IH j show ?thesis by simp
    qed
  qed
qed simp

text \<open>A schedule spends the calls of the programs it names.\<close>

lemma conforms_sched:
  assumes "vol_sched srv is ps s = (ps', s')"
    and "\<forall>i < length ps. conforms (P i) (Q i) (ps ! i) (b i)"
  shows "\<forall>i < length ps. conforms (P i) (Q i) (ps' ! i) (b i - count_list is i)"
  using assms
proof (induction "is" arbitrary: ps s b)
  case (Cons j "is")
  show ?case
  proof (cases "j < length ps")
    case False
    with Cons.prems(1) have "vol_sched srv is ps s = (ps', s')" by simp
    from Cons.IH [OF this Cons.prems(2)] False show ?thesis by auto
  next
    case True
    obtain p t where n: "vol_next srv (ps ! j) s = (p, t)" by fastforce
    with Cons.prems(1) True have run: "vol_sched srv is (ps[j := p]) t = (ps', s')" by simp
    let ?b = "b(j := b j - 1)"
    have "\<forall>i < length (ps[j := p]). conforms (P i) (Q i) (ps[j := p] ! i) (?b i)"
      using Cons.prems(2) True conforms_next [OF n] by (auto simp: nth_list_update)
    from Cons.IH [OF run this] show ?thesis by (auto split: if_splits)
  qed
qed simp

lemma vol_sched_append:
  "vol_sched srv (is @ js) ps s =
     (case vol_sched srv is ps s of (ps', s') \<Rightarrow> vol_sched srv js ps' s')"
  by (induction "is" arbitrary: ps s) (auto split: prod.splits)

lemma vol_sched_length: "vol_sched srv is ps s = (ps', s') \<Longrightarrow> length ps' = length ps"
  using vol_sched_reach vol_reach_length by metis

text \<open>A program that is scheduled alone, often enough, runs as in sequence.\<close>

lemma run_vol_next: "vol_next srv p s = (p', s') \<Longrightarrow> run_vol p srv s = run_vol p' srv s'"
  by (cases p) (auto split: prod.splits)

lemma sched_alone:
  assumes "conforms P Q p n" and "i < length ps" and "ps ! i = p"
  shows "vol_sched srv (replicate n i) ps s =
    (case run_vol p srv s of (x, s') \<Rightarrow> (ps[i := VRet x], s'))"
  using assms
proof (induction n arbitrary: ps p s)
  case 0
  then obtain x where "p = VRet x" using conforms_ended by blast
  with 0 show ?case using list_update_id [of ps i] by simp
next
  case (Suc n)
  obtain p' s' where nx: "vol_next srv p s = (p', s')" by fastforce
  with Suc.prems have "conforms P Q p' n" using conforms_next by fastforce
  from Suc.IH [OF this, of "ps[i := p']"] Suc.prems nx show ?case
    by (simp add: run_vol_next [OF nx])
qed

text \<open>An invariant of the server's state that every call keeps is kept by every run.\<close>

lemma run_vol_invariant:
  assumes call: "\<And>v s. I s \<Longrightarrow> I (serve_call srv v s)"
    and "run_vol p srv s = (x, s')" and "I s"
  shows "I s'"
  using assms(2,3)
proof (induction p arbitrary: s)
  case (VGetLvList k)
  then show ?case using call [of s AskLvList] by (cases "sv_get_lv_list srv s") auto
next
  case (VGetFreeBytes k)
  then show ?case using call [of s AskFreeBytes] by (cases "sv_get_free_bytes srv s") auto
next
  case (VCreateLogicalVolume q k)
  then show ?case using call [of s "AskCreate q"] by (cases "sv_create srv q s") auto
next
  case (VDeleteLogicalVolume q k)
  then show ?case using call [of s "AskDelete q"] by (cases "sv_delete srv q s") auto
next
  case (VFormatLogicalVolume q k)
  then show ?case using call [of s "AskFormat q"] by (cases "sv_format srv q s") auto
next
  case (VGetLogicalVolume q k)
  then show ?case using call [of s "AskLv q"] by (cases "sv_get srv q s") auto
qed simp

end
