(* ===== verification/Controller_Plugin.thy ===== *)
theory Controller_Plugin
  imports Calls Identity
begin

text \<open>
  The controller plugin as bin/controller.rs serves it: every RPC of the CSI controller and
  identity services, behind the interceptor, as one program over the VolumeService client.
  What each RPC asks of volumed (\<open>permitted\<close>), how many calls it takes (\<open>call_bound\<close>), and
  that every call ends without a panic, for any volumed and any schedule.
\<close>

section \<open>The served RPCs\<close>

datatype controller_call =
    CreateVolumeCall create_volume_request
  | DeleteVolumeCall delete_volume_request
  | ValidateCall validate_request
  | ListVolumesCall list_volumes_request
  | GetCapacityCall get_capacity_request
  | ControllerGetCapabilitiesCall
  | ControllerPublishVolumeCall
  | ControllerUnpublishVolumeCall
  | CreateSnapshotCall
  | DeleteSnapshotCall
  | ListSnapshotsCall
  | ControllerExpandVolumeCall
  | ControllerGetVolumeCall
  | GetPluginInfoCall
  | GetPluginCapabilitiesCall
  | ProbeCall

datatype controller_reply =
    CreateVolumeReply create_volume_response
  | ValidateReply validate_response
  | ListVolumesReply list_volumes_response
  | GetCapacityReply get_capacity_response
  | ControllerCapabilitiesReply "controller_service_capability list"
  | PluginInfoReply plugin_info_response
  | PluginCapabilitiesReply "plugin_capability list"
  | ProbeReply probe_response
  | EmptyReply unit

abbreviation answers :: "('a \<Rightarrow> controller_reply) \<Rightarrow> 'a outcome vol_prog \<Rightarrow> controller_reply outcome vol_prog" where
  "answers f p \<equiv> map_vol_prog (map_outcome f) p"

fun controller_serve ::
  "ctl_env \<Rightarrow> controller \<Rightarrow> controller_call \<Rightarrow> controller_reply outcome vol_prog" where
  "controller_serve E self (CreateVolumeCall q) =
     answers CreateVolumeReply (controller_rpc (create_volume E self) q)"
| "controller_serve E self (DeleteVolumeCall q) =
     answers EmptyReply (controller_rpc (delete_volume E) q)"
| "controller_serve E self (ValidateCall q) =
     answers ValidateReply (controller_rpc (validate_volume_capabilities E) q)"
| "controller_serve E self (ListVolumesCall q) =
     answers ListVolumesReply (controller_rpc (list_volumes E self) q)"
| "controller_serve E self (GetCapacityCall q) =
     answers GetCapacityReply (controller_rpc (get_capacity E self) q)"
| "controller_serve E self ControllerGetCapabilitiesCall =
     answers ControllerCapabilitiesReply
       (controller_rpc (\<lambda>req. VRet (controller_get_capabilities req)) ())"
| "controller_serve E self ControllerPublishVolumeCall =
     answers EmptyReply (controller_rpc (\<lambda>req. VRet (controller_publish_volume req)) ())"
| "controller_serve E self ControllerUnpublishVolumeCall =
     answers EmptyReply (controller_rpc (\<lambda>req. VRet (controller_unpublish_volume req)) ())"
| "controller_serve E self CreateSnapshotCall =
     answers EmptyReply (controller_rpc (\<lambda>req. VRet (create_snapshot req)) ())"
| "controller_serve E self DeleteSnapshotCall =
     answers EmptyReply (controller_rpc (\<lambda>req. VRet (delete_snapshot req)) ())"
| "controller_serve E self ListSnapshotsCall =
     answers EmptyReply (controller_rpc (\<lambda>req. VRet (list_snapshots req)) ())"
| "controller_serve E self ControllerExpandVolumeCall =
     answers EmptyReply (controller_rpc (\<lambda>req. VRet (controller_expand_volume req)) ())"
| "controller_serve E self ControllerGetVolumeCall =
     answers EmptyReply (controller_rpc (\<lambda>req. VRet (controller_get_volume req)) ())"
| "controller_serve E self GetPluginInfoCall =
     answers PluginInfoReply (controller_rpc (\<lambda>req. VRet (get_plugin_info req)) ())"
| "controller_serve E self GetPluginCapabilitiesCall =
     answers PluginCapabilitiesReply (controller_rpc (\<lambda>req. VRet (get_plugin_capabilities req)) ())"
| "controller_serve E self ProbeCall =
     answers ProbeReply (controller_rpc (probe (identity_new ControllerVerifier)) ())"

section \<open>What an RPC asks of volumed\<close>

text \<open>
  CreateVolume reads the free bytes, and looks up, creates and formats the volume of the hash
  of the requested name only, with the requested size; DeleteVolume looks up the uuid of the
  request; the others only read.
\<close>

definition sized :: "create_volume_request \<Rightarrow> usize \<Rightarrow> bool" where
  "sized q c \<longleftrightarrow> (\<exists>l. requested_capacity (cvr_capacity_range q) = Inr (c, l)) \<and> MIN_VOLUME_SIZE_BYTES \<le> c"

fun permitted :: "ctl_env \<Rightarrow> controller_call \<Rightarrow> vol_call \<Rightarrow> bool" where
  "permitted E (CreateVolumeCall q) c =
     (case c of
        AskFreeBytes \<Rightarrow> True
      | AskLv g \<Rightarrow> glr_identifier g = Some (Name (hash_resource E (cvr_name q)))
      | AskCreate cq \<Rightarrow> clr_name cq = hash_resource E (cvr_name q) \<and> sized q (clr_capacity cq)
          \<and> clr_tags cq = [''name='' @ cvr_name q] \<and> cvr_name q \<noteq> []
      | AskFormat f \<Rightarrow> flr_name f = hash_resource E (cvr_name q)
      | _ \<Rightarrow> False)"
| "permitted E (DeleteVolumeCall q) c =
     (case c of
        AskLv g \<Rightarrow> glr_identifier g = Some (Uuid (dvr_volume_id q)) \<and> dvr_volume_id q \<noteq> []
      | AskDelete d \<Rightarrow> dvr_volume_id q \<noteq> []
      | _ \<Rightarrow> False)"
| "permitted E (ValidateCall q) c =
     (\<exists>g. c = AskLv g \<and> glr_identifier g = Some (Uuid (val_volume_id q)) \<and> val_volume_id q \<noteq> [])"
| "permitted E (ListVolumesCall q) c = (c = AskLvList)"
| "permitted E (GetCapacityCall q) c = (c = AskFreeBytes)"
| "permitted E ProbeCall c = (c = AskFreeBytes)"
| "permitted E _ c = False"

text \<open>The RPCs behind a call of volumed that writes.\<close>

fun_cases permitted_createE: "permitted E c (AskCreate cq)"
fun_cases permitted_deleteE: "permitted E c (AskDelete d)"
fun_cases permitted_formatE: "permitted E c (AskFormat f)"

lemmas permitted_writeE = permitted_createE permitted_deleteE permitted_formatE

fun call_bound :: "controller_call \<Rightarrow> nat" where
  "call_bound (CreateVolumeCall q) = 4"
| "call_bound (DeleteVolumeCall q) = 2"
| "call_bound (ValidateCall q) = 1"
| "call_bound (ListVolumesCall q) = 1"
| "call_bound (GetCapacityCall q) = 1"
| "call_bound ProbeCall = 1"
| "call_bound _ = 0"

text \<open>Only the page arithmetic of ListVolumes can panic, in a build with overflow checks.\<close>

definition may_panic :: "ctl_env \<Rightarrow> controller_call \<Rightarrow> bool" where
  "may_panic E c \<longleftrightarrow> overflow_checks E \<and> (\<exists>q. c = ListVolumesCall q)"

abbreviation served_well :: "ctl_env \<Rightarrow> controller_call \<Rightarrow> 'a outcome \<Rightarrow> bool" where
  "served_well E call out \<equiv> out = Panic \<longrightarrow> may_panic E call"

lemma conforms_find_or_create:
  assumes "sized q c" and "cvr_name q \<noteq> []"
  shows "conforms (permitted E (CreateVolumeCall q)) (\<lambda>out. out \<noteq> Panic)
     (find_or_create E (cvr_name q) (hash_resource E (cvr_name q)) c) 2"
  using assms by (simp add: find_or_create_def v_fail_def v_result_def split: sum.split)

lemma conforms_admit:
  "conforms (permitted E (CreateVolumeCall q))
     (\<lambda>out. case out of Reply c \<Rightarrow> sized q c | Fail _ \<Rightarrow> True | Panic \<Rightarrow> False) (admit_capacity E q) 1"
  by (auto simp: admit_capacity_def v_then_v_result v_fail_def sized_def not_less split: sum.split)

lemma conforms_provision:
  assumes "sized q c" and "cvr_name q \<noteq> []"
  shows "conforms (permitted E (CreateVolumeCall q)) (\<lambda>out. out \<noteq> Panic)
     (provision_volume E self (cvr_name q) c) 3"
proof -
  have "conforms (permitted E (CreateVolumeCall q)) (\<lambda>out. out \<noteq> Panic)
     (provision_volume E self (cvr_name q) c) (2 + 1)"
    unfolding provision_volume_def Let_def
    by (rule conforms_bind [OF conforms_find_or_create [OF assms]])
      (simp_all add: v_then_v_result split: sum.split)
  then show ?thesis by simp
qed

lemma conforms_create:
  "conforms (permitted E (CreateVolumeCall q)) (\<lambda>out. out \<noteq> Panic)
     (controller_rpc (create_volume E self) q) 4"
proof (cases "cvr_name q = []")
  case False
  have "conforms (permitted E (CreateVolumeCall q)) (\<lambda>out. out \<noteq> Panic)
      (v_then (admit_capacity E q) (provision_volume E self (cvr_name q))) (1 + 3)"
    by (rule conforms_bind [OF conforms_admit]) (auto intro: conforms_provision [OF _ False])
  with False show ?thesis by (simp add: controller_rpc_eq create_volume_def v_fail_def)
qed (simp add: controller_rpc_eq create_volume_def v_fail_def)

lemma map_outcome_Panic [simp]: "map_outcome f out = Panic \<longleftrightarrow> out = Panic"
  by (cases out) simp_all

lemma conforms_serve:
  "conforms (permitted E call) (served_well E call) (controller_serve E self call) (call_bound call)"
proof (cases call)
  case (CreateVolumeCall q)
  show ?thesis unfolding CreateVolumeCall
    by (simp add: conforms_map del: permitted.simps)
      (rule conforms_mono [OF conforms_create], auto)
next
  case (DeleteVolumeCall q)
  then show ?thesis
    by (simp add: conforms_map controller_rpc_eq delete_volume_def v_then_v_result v_fail_def
        split: sum.split option.split)
next
  case (ValidateCall q)
  then show ?thesis
    by (simp add: conforms_map controller_rpc_eq validate_volume_capabilities_def v_then_v_result
        v_fail_def split: sum.split)
next
  case (ListVolumesCall q)
  then show ?thesis
    by (auto simp: conforms_map controller_rpc_eq list_volumes_def v_then_v_result Let_def
        may_panic_def usize_add_def split: sum.split option.split)
next
  case (GetCapacityCall q)
  then show ?thesis
    by (simp add: conforms_map controller_rpc_eq get_capacity_def v_then_v_result Let_def
        split: sum.split)
next
  case ProbeCall
  then show ?thesis
    by (simp add: conforms_map controller_rpc_eq probe_def verify_def identity_new_def
        with_volume_client_def         get_extension_def set_extension_def)
qed (simp_all add: controller_rpc_eq controller_get_capabilities_def controller_publish_volume_def
    controller_unpublish_volume_def create_snapshot_def delete_snapshot_def list_snapshots_def
    controller_expand_volume_def controller_get_volume_def get_plugin_info_def
    get_plugin_capabilities_def)

end
