(* ===== verification/Interleaving.thy ===== *)
theory Interleaving
  imports Example_Inputs
begin

text \<open>
  Concurrent requests: the handlers of the plugin are tasks that a runtime may switch at every
  awaited call.  A rely-guarantee argument for programs that never delete (\<open>safe\<close>), the
  CreateVolume handler as such a program, and the race of two creates of one name.
\<close>

section \<open>Programs that only add volumes\<close>

text \<open>
  \<open>safe srv I view Q p s\<close>: between its calls, while others only add volumes, \<open>p\<close> never asks to
  delete, and if it ends it ends in \<open>Q\<close>.
\<close>

primrec safe ::
  "'s volume_server \<Rightarrow> ('s \<Rightarrow> bool) \<Rightarrow> ('s \<Rightarrow> string \<Rightarrow> LV option) \<Rightarrow> ('a \<Rightarrow> 's \<Rightarrow> bool) \<Rightarrow>
     'a vol_prog \<Rightarrow> 's \<Rightarrow> bool" where
  "safe srv I view Q (VRet x) s = Q x s"
| "safe srv I view Q (VGetLvList k) s = (\<forall>t r t'. I t \<and> view s \<subseteq>\<^sub>m view t \<and>
     sv_get_lv_list srv t = (r, t') \<longrightarrow> safe srv I view Q (k r) t')"
| "safe srv I view Q (VGetFreeBytes k) s = (\<forall>t r t'. I t \<and> view s \<subseteq>\<^sub>m view t \<and>
     sv_get_free_bytes srv t = (r, t') \<longrightarrow> safe srv I view Q (k r) t')"
| "safe srv I view Q (VCreateLogicalVolume q k) s = (\<forall>t r t'. I t \<and> view s \<subseteq>\<^sub>m view t \<and>
     sv_create srv q t = (r, t') \<longrightarrow> safe srv I view Q (k r) t')"
| "safe srv I view Q (VDeleteLogicalVolume q k) s = False"
| "safe srv I view Q (VFormatLogicalVolume q k) s = (\<forall>t r t'. I t \<and> view s \<subseteq>\<^sub>m view t \<and>
     sv_format srv q t = (r, t') \<longrightarrow> safe srv I view Q (k r) t')"
| "safe srv I view Q (VGetLogicalVolume q k) s = (\<forall>t r t'. I t \<and> view s \<subseteq>\<^sub>m view t \<and>
     sv_get srv q t = (r, t') \<longrightarrow> safe srv I view Q (k r) t')"

definition stable :: "('s \<Rightarrow> string \<Rightarrow> LV option) \<Rightarrow> ('a \<Rightarrow> 's \<Rightarrow> bool) \<Rightarrow> bool" where
  "stable view Q \<longleftrightarrow> (\<forall>x s t. Q x s \<longrightarrow> view s \<subseteq>\<^sub>m view t \<longrightarrow> Q x t)"

lemma safe_mono:
  assumes "stable view Q" and "safe srv I view Q p s" and "view s \<subseteq>\<^sub>m view t"
  shows "safe srv I view Q p t"
proof -
  have "view s \<subseteq>\<^sub>m view u" if "view t \<subseteq>\<^sub>m view u" for u
    using assms(3) that by (rule map_le_trans)
  with assms show ?thesis by (cases p) (simp_all add: stable_def, blast+)
qed

lemma safe_v_then:
  assumes "safe srv I view P p s"
    and "\<And>x t. P (Reply x) t \<Longrightarrow> safe srv I view Q (k x) t"
    and "\<And>st t. P (Fail st) t \<Longrightarrow> Q (Fail st) t"
    and "\<And>t. P Panic t \<Longrightarrow> Q Panic t"
  shows "safe srv I view Q (v_then p k) s"
  using assms(1)
proof (induction p arbitrary: s)
  case (VRet x)
  with assms(2-4) show ?case by (cases x) auto
qed (simp; blast)+

text \<open>How a CreateVolume for the hashed name \<open>sn\<close> may end.\<close>

definition created ::
  "('s \<Rightarrow> string \<Rightarrow> LV option) \<Rightarrow> controller \<Rightarrow> string \<Rightarrow> create_volume_response outcome \<Rightarrow> 's \<Rightarrow> bool" where
  "created view self sn out s \<longleftrightarrow>
     (case out of
        Reply resp \<Rightarrow> \<exists>lv. view s sn = Some lv \<and> resp = \<lparr>cvs_volume = Some (process_volume self lv)\<rparr>
      | Fail _ \<Rightarrow> True
      | Panic \<Rightarrow> False)"

lemma map_le_Some: "f \<subseteq>\<^sub>m g \<Longrightarrow> f x = Some y \<Longrightarrow> g x = Some y"
  by (auto simp: map_le_def dom_def)

context volume_service
begin

lemma safe_step:
  assumes "safe srv invar view Q p s" and "vol_step srv p s p' s'" and "invar s"
  shows "safe srv invar view Q p' s' \<and> view s \<subseteq>\<^sub>m view s'"
proof -
  have "view s' n = Some lv" if "view s n = Some lv" for n lv
    using step_view [OF assms(2,3) that] assms(1) by (cases p) auto
  then have "view s \<subseteq>\<^sub>m view s'" by (auto simp: map_le_def)
  moreover have "safe srv invar view Q p' s'"
    using assms(2,1,3) by (induction rule: vol_step.induct) (simp_all, (metis map_le_refl)+)
  ultimately show ?thesis by blast
qed

lemma safe_reach:
  assumes "vol_reach srv ps s ps' s'" and "invar s" and "\<And>i. stable view (Q i)"
    and "\<forall>i < length ps. safe srv invar view (Q i) (ps ! i) s"
  shows "(\<forall>i < length ps. safe srv invar view (Q i) (ps' ! i) s') \<and> view s \<subseteq>\<^sub>m view s'"
  using assms
proof (induction rule: vol_reach.induct)
  case (reach_refl ps s)
  then show ?case by simp
next
  case (reach_step ps s ps' s' i p s'')
  then have IH: "\<forall>i < length ps. safe srv invar view (Q i) (ps' ! i) s'" "view s \<subseteq>\<^sub>m view s'"
    by blast+
  have inv: "invar s'" using reach_invar [OF reach_step(1) reach_step(5)] .
  have i: "i < length ps" using vol_reach_length [OF reach_step(1)] reach_step(2) by simp
  have moved: "safe srv invar view (Q i) p s''" "view s' \<subseteq>\<^sub>m view s''"
    using safe_step [OF _ reach_step(3) inv] IH(1) i by blast+
  have "safe srv invar view (Q j) (ps'[i := p] ! j) s''" if "j < length ps" for j
    using moved IH(1) that safe_mono [OF reach_step(6)] reach_step(2)
    by (cases "j = i") auto
  then show ?case using IH(2) moved(2) map_le_trans by blast
qed

text \<open>The parts of CreateVolume.\<close>

lemma safe_admit: "safe srv invar view (\<lambda>x s. x \<noteq> Panic) (admit_capacity E m) s"
  by (auto simp: admit_capacity_def v_then_v_result v_fail_def split: sum.splits)

lemma safe_find_or_create:
  "safe srv invar view
     (\<lambda>x s. case x of Reply lv \<Rightarrow> view s sn = Some lv | Fail _ \<Rightarrow> True | Panic \<Rightarrow> False)
     (find_or_create E n sn c) s"
proof -
  have "case of_result r of Reply lv \<Rightarrow> view u' sn = Some lv | Fail _ \<Rightarrow> True | Panic \<Rightarrow> False"
    if "invar u" "sv_create srv \<lparr>clr_name = sn, clr_capacity = c, clr_tags = tags\<rparr> u = (r, u')"
    for u r u' tags
    using create_ok [OF that(1), of _ _ u'] that(2) by (cases r) auto
  then show ?thesis
    using get_found get_pure unfolding find_or_create_def v_fail_def v_result_def
    by (simp split: sum.splits) blast
qed

lemma stable_created: "stable view (created view self sn)"
  unfolding stable_def
proof (intro allI impI)
  fix x s t
  assume "created view self sn x s" and le: "view s \<subseteq>\<^sub>m view t"
  then show "created view self sn x t"
    by (cases x) (auto simp: created_def map_le_Some [OF le])
qed

lemma safe_create:
  "safe srv invar view (created view self (hash_resource E (cvr_name m)))
     (controller_rpc (create_volume E self) m) s"
proof -
  let ?sn = "hash_resource E (cvr_name m)"
  have fmt: "safe srv invar view (created view self ?sn)
      (VFormatLogicalVolume \<lparr>flr_name = ?sn\<rparr> (\<lambda>resp. v_then (v_result resp)
         (\<lambda>_. VRet (Reply \<lparr>cvs_volume = Some (process_volume self lv)\<rparr>)))) t"
    if "view t ?sn = Some lv" for lv t
  proof -
    have "view u' ?sn = Some lv"
      if "invar u" "view t \<subseteq>\<^sub>m view u" "sv_format srv fq u = (r, u')" for u u' r fq
      using format_any [OF that(1,3)] map_le_Some [OF that(2)] \<open>view t ?sn = Some lv\<close> by simp
    then show ?thesis by (auto simp: v_then_v_result created_def split: sum.splits)
  qed
  have prov: "safe srv invar view (created view self ?sn) (provision_volume E self (cvr_name m) c) t" for c t
    unfolding provision_volume_def Let_def
    by (rule safe_v_then [OF safe_find_or_create])
      (simp_all add: fmt created_def del: safe.simps)
  have "safe srv invar view (created view self ?sn)
      (v_then (admit_capacity E m) (\<lambda>c. provision_volume E self (cvr_name m) c)) s"
    by (rule safe_v_then [OF safe_admit]) (simp_all add: prov created_def)
  then show ?thesis
    by (simp add: controller_rpc_eq create_volume_def v_fail_def created_def)
qed

lemma creates_reach:
  assumes "vol_reach srv (map (controller_rpc (create_volume E self)) ms) s ps' s'" and "invar s"
  shows "view s \<subseteq>\<^sub>m view s'"
    and "i < length ms \<Longrightarrow> ps' ! i = VRet out \<Longrightarrow>
      created view self (hash_resource E (cvr_name (ms ! i))) out s'"
proof -
  have "\<forall>i < length (map (controller_rpc (create_volume E self)) ms).
      safe srv invar view (created view self (hash_resource E (cvr_name (ms ! i))))
        (map (controller_rpc (create_volume E self)) ms ! i) s"
    by (simp add: safe_create)
  note r = safe_reach [OF assms stable_created this]
  from r show "view s \<subseteq>\<^sub>m view s'" by blast
  from r show "created view self (hash_resource E (cvr_name (ms ! i))) out s'"
    if "i < length ms" "ps' ! i = VRet out"
    using that by force
qed

lemma create_taken:
  assumes "invar s" and "view s (clr_name q) = Some lv"
  shows "\<exists>st s'. sv_create srv q s = (Inl st, s') \<and> view s' = view s"
proof -
  obtain r s' where "sv_create srv q s = (r, s')" by fastforce
  then show ?thesis
    using create_ok [OF assms(1), of q _ s'] create_err [OF assms(1), of q _ s'] assms(2)
    by (cases r) auto
qed

end

section \<open>Concurrent creates\<close>

text \<open>Two creates of one name on an empty group, one after the other and interleaved.\<close>

abbreviation ex_call :: "create_volume_response outcome vol_prog" where
  "ex_call \<equiv> controller_rpc (create_volume ex_env ex_ctl) (ex_create 536870912)"

lemmas ex_prog = controller_rpc_eq create_volume_def admit_capacity_def provision_volume_def
  find_or_create_def v_then_v_result Let_def ex_requested [simplified]

lemma ex_sv_free:
  "sv_get_free_bytes ex_server ex_empty = (Inr 10737418240, ex_empty)"
  "sv_get_free_bytes ex_server ex_made = (Inr 10737418240, ex_made)"
  by (simp_all add: mem_eval ex_defs ex_made_def)

lemma ex_sv_get:
  "sv_get ex_server \<lparr>glr_identifier = Some (Name ''3'')\<rparr> ex_empty =
     (Inl (Status NotFound ''no such volume''), ex_empty)"
  "sv_get ex_server \<lparr>glr_identifier = Some (Name ''3'')\<rparr> ex_made = (Inr (lv_into ex_lv), ex_made)"
  by (simp_all add: mem_eval ex_defs ex_made_def)

lemma ex_sv_create_taken:
  "sv_create ex_server \<lparr>clr_name = ''3'', clr_capacity = 536870912, clr_tags = tags\<rparr> ex_made =
     (Inl (Status InvalidArgument ''already exists''), ex_made)"
  by (simp add: mem_eval ex_defs ex_made_def)

lemmas ex_sched = ex_prog ex_sv_free ex_sv_get ex_sv_create ex_sv_create_taken ex_sv_format
  MIN_VOLUME_SIZE_BYTES_def

lemma ex_race:
  "vol_sched ex_server [0, 0, 1, 1, 0, 1] [ex_call, ex_call] ex_empty =
    ([VFormatLogicalVolume \<lparr>flr_name = ''3''\<rparr> (\<lambda>r. v_then (v_result r)
        (\<lambda>_. VRet (Reply \<lparr>cvs_volume = Some (process_volume ex_ctl (lv_into ex_lv))\<rparr>))),
      VRet (Fail (Status InvalidArgument ''already exists''))], ex_made)"
  by (simp add: ex_sched)

lemma ex_both:
  "vol_sched ex_server [0, 0, 0, 1, 1, 0, 1] [ex_call, ex_call] ex_empty =
    ([VRet (Reply \<lparr>cvs_volume = Some (process_volume ex_ctl (lv_into ex_lv))\<rparr>),
      VRet (Reply \<lparr>cvs_volume = Some (process_volume ex_ctl (lv_into ex_lv))\<rparr>)],
     ex_made\<lparr>mem_files := [(''/dev/vg0/3'', []), (''/dev/vg0/3'', [])]\<rparr>)"
proof -
  have "sv_format ex_server \<lparr>flr_name = ''3''\<rparr> (ex_made\<lparr>mem_files := [(''/dev/vg0/3'', [])]\<rparr>) =
      (Inr (), ex_made\<lparr>mem_files := [(''/dev/vg0/3'', []), (''/dev/vg0/3'', [])]\<rparr>)"
    by (simp add: mem_eval ex_defs ex_made_def)
  moreover have "lv_capacity_bytes (lv_into ex_lv) = 536870912" by (simp add: ex_lv_def)
  ultimately show ?thesis by (simp add: ex_sched)
qed

text \<open>C15: however CreateVolume calls interleave, no volume is removed or changed, no call
  panics, and every call that has succeeded has named a volume that is there under its
  hashed name.\<close>

theorem concurrent_creates:
  assumes "lvm_laws L V"
    and "vol_reach (volumed_server lost L cfg rn)
      (map (controller_rpc (create_volume E self)) ms) w ps' w'"
  shows "vol_view V rn w \<subseteq>\<^sub>m vol_view V rn w' \<and>
    (\<forall>i out. i < length ms \<longrightarrow> ps' ! i = VRet out \<longrightarrow>
       created (vol_view V rn) self (hash_resource E (cvr_name (ms ! i))) out w')"
  using volumed.creates_reach [OF assms(2), of V] assms(1) by (simp add: vol_invar_def)

theorem concurrent_creates_witness:
  "created ex_view ex_ctl ''3''
     (Reply \<lparr>cvs_volume = Some (process_volume ex_ctl (lv_into ex_lv))\<rparr>)
     (ex_made\<lparr>mem_files := [(''/dev/vg0/3'', []), (''/dev/vg0/3'', [])]\<rparr>)"
  using concurrent_creates [OF mem_laws, of ex_lost ex_cfg "''vg0''" ex_env ex_ctl
      "[ex_create 536870912, ex_create 536870912]"] vol_sched_reach [OF ex_both]
  by (fastforce simp: nth_Cons')

text \<open>Two concurrent CreateVolume calls that both succeed, and whose names have one hash,
  have answered with one volume.\<close>

lemma concurrent_creates_agree:
  assumes laws: "lvm_laws L V"
    and reach: "vol_reach (volumed_server lost L cfg rn)
      (map (controller_rpc (create_volume E self)) ms) w ps' w'"
    and i: "i < length ms" "ps' ! i = VRet (Reply r)"
    and j: "j < length ms" "ps' ! j = VRet (Reply r')"
    and hash: "default_hash E (cvr_name (ms ! i)) = default_hash E (cvr_name (ms ! j))"
  shows "r = r'"
proof -
  note answered = volumed.creates_reach(2) [OF reach, of V]
  have "hash_resource E (cvr_name (ms ! i)) = hash_resource E (cvr_name (ms ! j))"
    using hash by (simp add: hash_resource_inj)
  then show ?thesis
    using answered [OF _ i] answered [OF _ j] laws by (auto simp: vol_invar_def created_def)
qed

lemma concurrent_creates_agree_witness:
  "\<exists>r. vol_sched ex_server [0, 0, 0, 1, 1, 0, 1] [ex_call, ex_call] ex_empty =
     ([VRet (Reply r), VRet (Reply r)],
      ex_made\<lparr>mem_files := [(''/dev/vg0/3'', []), (''/dev/vg0/3'', [])]\<rparr>)"
proof -
  obtain r r' where both: "vol_sched ex_server [0, 0, 0, 1, 1, 0, 1] [ex_call, ex_call] ex_empty =
     ([VRet (Reply r), VRet (Reply r')],
      ex_made\<lparr>mem_files := [(''/dev/vg0/3'', []), (''/dev/vg0/3'', [])]\<rparr>)"
    using ex_both by blast
  have "r = r'"
    using concurrent_creates_agree [OF mem_laws, where ms = "[ex_create 536870912, ex_create 536870912]"
        and i = 0 and j = 1, simplified, OF vol_sched_reach [OF both]] by simp
  with both show ?thesis by blast
qed

text \<open>A CreateVolume whose lookup said the volume is missing, and whose name is taken by
  the time it creates it, fails and leaves every volume as it is.\<close>

lemma create_race_loser:
  assumes laws: "lvm_laws L V"
    and missing: "sv_get (volumed_server lost L cfg rn)
      \<lparr>glr_identifier = Some (Name (hash_resource E n))\<rparr> w = (Inl st, w1)" "st_code st = NotFound"
    and moved: "vol_next (volumed_server lost L cfg rn) (provision_volume E self n c) w = (p, w1)"
    and taken: "vol_view V rn w2 (hash_resource E n) = Some lv"
  shows "\<exists>st' w3. run_vol p (volumed_server lost L cfg rn) w2 = (Fail st', w3) \<and>
    vol_view V rn w3 = vol_view V rn w2"
proof -
  let ?q = "\<lparr>clr_name = hash_resource E n, clr_capacity = c, clr_tags = [''name='' @ n]\<rparr>"
  obtain st' w3 where "sv_create (volumed_server lost L cfg rn) ?q w2 = (Inl st', w3)"
    and "vol_view V rn w3 = vol_view V rn w2"
    using volumed.create_taken [of L V w2 rn ?q lv lost cfg] laws taken
    by (auto simp: vol_invar_def)
  with missing moved show ?thesis
    by (auto simp: provision_volume_def find_or_create_def Let_def run_v_then)
qed

lemma create_race_loser_witness:
  "\<exists>st' w3. run_vol (fst (vol_next ex_server (provision_volume ex_env ex_ctl ''pvc'' 536870912) ex_empty))
     ex_server ex_made = (Fail st', w3) \<and> ex_view w3 = ex_view ex_made"
proof (rule create_race_loser [OF mem_laws])
  show "sv_get ex_server \<lparr>glr_identifier = Some (Name (hash_resource ex_env ''pvc''))\<rparr> ex_empty =
      (Inl (Status NotFound ''no such volume''), ex_empty)"
    by (simp add: ex_sv_get)
  show "vol_next ex_server (provision_volume ex_env ex_ctl ''pvc'' 536870912) ex_empty =
      (fst (vol_next ex_server (provision_volume ex_env ex_ctl ''pvc'' 536870912) ex_empty), ex_empty)"
    by (simp add: provision_volume_def find_or_create_def Let_def ex_sv_get)
  show "ex_view ex_made (hash_resource ex_env ''pvc'') = Some (lv_into ex_lv)"
    by (simp add: vol_view_def mem_find_def ex_made_def ex_lv_def)
qed simp

end
