(* ===== verification/Controller_System.thy ===== *)
theory Controller_System
  imports Controller_Plugin Interleaving
begin

text \<open>
  The controller plugin and volumed as one open system: a client may send any RPC at any
  time, the handlers run interleaved at their calls, a call or its answer may be lost on the
  way, and a handler may be dropped when its caller goes away.  What holds in every reachable
  state, and the race of two deletes with a create.
\<close>

section \<open>The open system\<close>

text \<open>
  A state is the RPCs received so far, the handlers that are running or have ended, each with
  its RPC, and the state of volumed's host.
\<close>

inductive plugin_run ::
  "'s volume_server \<Rightarrow> ctl_env \<Rightarrow> controller \<Rightarrow> 's \<Rightarrow> controller_call list \<Rightarrow>
     (controller_call \<times> controller_reply outcome vol_prog) list \<Rightarrow> 's \<Rightarrow> bool"
  for srv :: "'s volume_server" and E :: ctl_env and self :: controller and s0 :: 's where
  run_start: "plugin_run srv E self s0 [] [] s0"
| run_arrive: "plugin_run srv E self s0 hs ts s \<Longrightarrow>
    plugin_run srv E self s0 (hs @ [c]) (ts @ [(c, controller_serve E self c)]) s"
| run_serve: "plugin_run srv E self s0 hs (xs @ (c, p) # ys) s \<Longrightarrow> vol_step srv p s p' s' \<Longrightarrow>
    plugin_run srv E self s0 hs (xs @ (c, p') # ys) s'"
| run_lose_call: "plugin_run srv E self s0 hs (xs @ (c, p) # ys) s \<Longrightarrow>
    plugin_run srv E self s0 hs (xs @ (c, vol_lost st p) # ys) s"
| run_lose_answer: "plugin_run srv E self s0 hs (xs @ (c, p) # ys) s \<Longrightarrow> pending p = Some v \<Longrightarrow>
    plugin_run srv E self s0 hs (xs @ (c, vol_lost st p) # ys) (serve_call srv v s)"
| run_drop: "plugin_run srv E self s0 hs (xs @ (c, p) # ys) s \<Longrightarrow>
    plugin_run srv E self s0 hs (xs @ ys) s"

text \<open>Every handler conforms to the RPC it answers, which has been received.\<close>

definition task_ok :: "ctl_env \<Rightarrow> controller_call list \<Rightarrow> controller_call \<times> 'a outcome vol_prog \<Rightarrow> bool" where
  "task_ok E hs t \<longleftrightarrow> fst t \<in> set hs \<and>
     conforms (permitted E (fst t)) (served_well E (fst t)) (snd t) (call_bound (fst t))"

lemma task_ok_weaker:
  assumes "task_ok E hs (c, p)"
    and "conforms (permitted E c) (served_well E c) p' (call_bound c - 1)"
  shows "task_ok E hs (c, p')"
  using assms conforms_mono [of "permitted E c" "served_well E c" p' "call_bound c - 1" "call_bound c"
      "permitted E c" "served_well E c"]
  by (simp add: task_ok_def)

lemma task_ok_step:
  assumes "task_ok E hs (c, p)" and "vol_step srv p s p' s'"
  shows "task_ok E hs (c, p')"
  using assms conforms_step [OF assms(2)]
  by (intro task_ok_weaker [OF assms(1)]) (auto simp: task_ok_def)

lemma task_ok_lost:
  assumes "task_ok E hs (c, p)"
  shows "task_ok E hs (c, vol_lost st p)"
  using assms by (intro task_ok_weaker [OF assms] conforms_lost) (auto simp: task_ok_def)

lemma task_ok_new: "task_ok E (hs @ [c]) (c, controller_serve E self c)"
  using conforms_serve by (simp add: task_ok_def)

lemma task_ok_more: "task_ok E hs t \<Longrightarrow> task_ok E (hs @ [c]) t"
  by (simp add: task_ok_def)

lemma run_tasks_ok: "plugin_run srv E self s0 hs ts s \<Longrightarrow> \<forall>t \<in> set ts. task_ok E hs t"
  by (induction rule: plugin_run.induct)
    (auto intro: task_ok_new task_ok_more task_ok_lost elim: task_ok_step)

section \<open>What an RPC does to the volumes\<close>

text \<open>The volume \<open>lv\<close> under the name \<open>n\<close> is one that a received CreateVolume has asked for.\<close>

definition accounted :: "ctl_env \<Rightarrow> controller_call list \<Rightarrow> string \<Rightarrow> LV \<Rightarrow> bool" where
  "accounted E hs n lv \<longleftrightarrow>
     (\<exists>q c. CreateVolumeCall q \<in> set hs \<and> cvr_name q \<noteq> [] \<and> n = hash_resource E (cvr_name q) \<and>
        sized q c \<and> c \<le> lv_capacity_bytes lv)"

section \<open>Schedules are runs of the system\<close>

lemma run_all_arrive:
  "plugin_run srv E self s0 hs (zip hs (map (controller_serve E self) hs)) s0"
proof (induction hs rule: rev_induct)
  case (snoc c hs)
  from run_arrive [OF this, of c] show ?case by simp
qed (simp add: run_start)

lemma run_reach:
  assumes "vol_reach srv ps s ps' s'" and "plugin_run srv E self s0 hs (zip cs ps) s"
    and "length cs = length ps"
  shows "plugin_run srv E self s0 hs (zip cs ps') s'"
  using assms
proof (induction rule: vol_reach.induct)
  case (reach_step ps s ps' s' i p s'')
  let ?z = "zip cs ps'"
  have len: "length cs = length ps'" using vol_reach_length [OF reach_step(1)] reach_step(6) by simp
  have "?z = take i ?z @ (cs ! i, ps' ! i) # drop (Suc i) ?z"
    using reach_step(2) len by (metis id_take_nth_drop length_zip min.idem nth_zip)
  with reach_step have "plugin_run srv E self s0 hs
      (take i ?z @ (cs ! i, ps' ! i) # drop (Suc i) ?z) s'" by simp
  from run_serve [OF this reach_step(3)]
  have "plugin_run srv E self s0 hs (?z[i := (cs ! i, p)]) s''"
    using reach_step(2) len by (simp add: upd_conv_take_nth_drop)
  also have "?z[i := (cs ! i, p)] = zip cs (ps'[i := p])"
    using update_zip [of cs ps' i "(cs ! i, p)"] by simp
  finally show ?case .
qed simp

lemma run_sched:
  assumes "vol_sched srv is (map (controller_serve E self) hs) s0 = (ps, s)"
  shows "plugin_run srv E self s0 hs (zip hs ps) s"
  by (rule run_reach [OF vol_sched_reach [OF assms] run_all_arrive]) simp

section \<open>An example run\<close>

abbreviation ex_request :: controller_call where
  "ex_request \<equiv> CreateVolumeCall (ex_create 536870912)"

abbreviation ex_response :: controller_reply where
  "ex_response \<equiv> CreateVolumeReply \<lparr>cvs_volume = Some (process_volume ex_ctl (lv_into ex_lv))\<rparr>"

abbreviation ex_done :: mem where
  "ex_done \<equiv> ex_made\<lparr>mem_files := [(''/dev/vg0/3'', [])]\<rparr>"

lemma ex_request_alone:
  "vol_sched ex_server (replicate 4 0) (map (controller_serve ex_env ex_ctl) [ex_request]) ex_empty =
    ([VRet (Reply ex_response)], ex_done)"
  using sched_alone [OF conforms_serve [of ex_env ex_request ex_ctl], of 0
      "[controller_serve ex_env ex_ctl ex_request]" ex_server ex_empty]
  by (simp add: run_map_vol_prog ex_run_empty)

section \<open>Requests and endings\<close>

lemma sized_bounds:
  assumes "sized q c"
  shows "512 * 1024 * 1024 \<le> unat c \<and> unat c < 2 ^ 63"
  using assms
  by (auto simp: sized_def requested_capacity_Inr word_le_nat_alt unat_MIN_VOLUME_SIZE split: option.splits)

text \<open>C11: every RPC of the controller ends: whatever volumed answers and however the handlers
  interleave, a schedule that moves each handler as often as it makes calls, at most four for
  CreateVolume, two for DeleteVolume and one for the others, leaves each with a reply or a
  status; only ListVolumes in a build with overflow checks may end in a panic instead.\<close>

theorem controller_calls_end:
  assumes sched: "vol_sched srv is (map (controller_serve E self) calls) s = (ps', s')"
    and often: "\<forall>i < length calls. call_bound (calls ! i) \<le> count_list is i"
  shows "\<forall>i < length calls. \<exists>out. ps' ! i = VRet out \<and>
    (out = Panic \<longrightarrow> overflow_checks E \<and> (\<exists>q. calls ! i = ListVolumesCall q))"
proof (intro allI impI)
  fix i
  assume i: "i < length calls"
  have "conforms (permitted E (calls ! i)) (served_well E (calls ! i)) (ps' ! i)
      (call_bound (calls ! i) - count_list is i)"
    using conforms_sched [OF sched, of "\<lambda>i. permitted E (calls ! i)" "\<lambda>i. served_well E (calls ! i)"
        "\<lambda>i. call_bound (calls ! i)"] i by (simp add: conforms_serve)
  with often i show "\<exists>out. ps' ! i = VRet out \<and>
      (out = Panic \<longrightarrow> overflow_checks E \<and> (\<exists>q. calls ! i = ListVolumesCall q))"
    using conforms_ended by (fastforce simp: may_panic_def)
qed

theorem controller_calls_end_witness:
  "\<exists>out. fst (vol_sched ex_server [1, 0, 0, 1, 0, 0]
      (map (controller_serve ex_env ex_ctl) [ex_request, ProbeCall]) ex_empty) ! 0 = VRet out \<and>
    out \<noteq> Panic"
  using controller_calls_end [of ex_server "[1, 0, 0, 1, 0, 0]" ex_env ex_ctl "[ex_request, ProbeCall]"
      ex_empty _ _, OF surjective_pairing]
  by (fastforce simp: less_Suc_eq ex_env_def)

section \<open>Two deletes and a create\<close>

text \<open>C16: DeleteVolume is not atomic: where a delete has looked its volume up and is overtaken
  by a retry of the same delete and by a CreateVolume whose name has the same hash, all three
  succeed and the volume the create has answered with, whatever its id, is gone.\<close>

theorem delete_overtaken_removes_new_volume:
  assumes laws: "lvm_laws L V"
    and id: "dvr_volume_id d \<noteq> []"
    and found: "sv_get (volumed_server lost L cfg rn) \<lparr>glr_identifier = Some (Uuid (dvr_volume_id d))\<rparr> w =
      (Inr old, w)"
    and first: "sv_delete (volumed_server lost L cfg rn) \<lparr>dlr_name = lv_name old\<rparr> w = (Inr (), w1)"
    and hash: "hash_resource E (cvr_name q) = lv_name old"
    and create: "run_vol (controller_rpc (create_volume E self) q) (volumed_server lost L cfg rn) w1 =
      (Reply resp, w2)"
    and second: "sv_delete (volumed_server lost L cfg rn) \<lparr>dlr_name = lv_name old\<rparr> w2 = (Inr (), w3)"
  shows "\<exists>is new. vol_sched (volumed_server lost L cfg rn) is
      (map (controller_serve E self) [DeleteVolumeCall d, DeleteVolumeCall d, CreateVolumeCall q]) w =
      ([VRet (Reply (EmptyReply ())), VRet (Reply (EmptyReply ())), VRet (Reply (CreateVolumeReply resp))], w3) \<and>
    resp = \<lparr>cvs_volume = Some (process_volume self new)\<rparr> \<and>
    vol_view V rn w2 (lv_name old) = Some new \<and> vol_view V rn w3 (lv_name old) = None"
proof -
  let ?srv = "volumed_server lost L cfg rn"
  let ?ps = "map (controller_serve E self) [DeleteVolumeCall d, DeleteVolumeCall d, CreateVolumeCall q]"
  let ?done = "VRet (Reply (EmptyReply ()))"
  let ?waiting = "VDeleteLogicalVolume \<lparr>dlr_name = lv_name old\<rparr> (\<lambda>r. map_vol_prog (map_outcome EmptyReply)
      (v_then (v_result r) (\<lambda>_. VRet (Reply ()))))"
  have deletes: "vol_sched ?srv [0, 1, 1] ?ps w =
      ([?waiting, ?done, controller_serve E self (CreateVolumeCall q)], w1)"
    using id found first
    by (simp add: controller_rpc_eq delete_volume_def v_then_v_result comp_def)
  have created: "vol_sched ?srv (replicate 4 2) [?waiting, ?done, controller_serve E self (CreateVolumeCall q)] w1 =
      ([?waiting, ?done, VRet (Reply (CreateVolumeReply resp))], w2)"
  proof -
    let ?qs = "[?waiting, ?done, controller_serve E self (CreateVolumeCall q)]"
    have "vol_sched ?srv (replicate (call_bound (CreateVolumeCall q)) 2) ?qs w1 =
        (case run_vol (controller_serve E self (CreateVolumeCall q)) ?srv w1 of
           (x, s') \<Rightarrow> (?qs[2 := VRet x], s'))"
      by (rule sched_alone [OF conforms_serve]) simp_all
    with create show ?thesis
      by (simp add: run_map_vol_prog numeral_2_eq_2 del: vol_sched.simps)
  qed
  have last: "vol_sched ?srv [0] [?waiting, ?done, VRet (Reply (CreateVolumeReply resp))] w2 =
      ([?done, ?done, VRet (Reply (CreateVolumeReply resp))], w3)"
    using second by (simp add: v_then_v_result)
  have inv: "vol_invar L V w1" "vol_invar L V w2" using laws by (simp_all add: vol_invar_def)
  from volumed.run_create_volume [OF inv(1) create] hash obtain new
    where new: "vol_view V rn w2 (lv_name old) = Some new"
      "resp = \<lparr>cvs_volume = Some (process_volume self new)\<rparr>"
    by (auto simp: provisioned_def)
  have "vol_sched ?srv ([0, 1, 1] @ replicate 4 2 @ [0]) ?ps w =
      ([?done, ?done, VRet (Reply (CreateVolumeReply resp))], w3)"
    unfolding vol_sched_append deletes created last prod.case by simp
  moreover have "vol_view V rn w3 (lv_name old) = None"
    using volumed.delete_ok [OF inv(2) second] by simp
  ultimately show ?thesis using new by blast
qed

text \<open>A group with the volume of \<open>ex_create\<close> and another one; the new volume has a new uuid.\<close>

definition ex_extra :: logical_volume where
  "ex_extra = \<lparr>lvl_uuid = ''uuid-7'', lvl_name = ''f'', lvl_capacity_bytes = 536870912,
     lvl_volume_group_name = ''vg0'', lvl_path = ''/dev/vg0/f''\<rparr>"

definition ex_group :: "logical_volume list \<Rightarrow> mem" where
  "ex_group lvs = ex_empty\<lparr>mem_lvs := lvs\<rparr>"

definition ex_again :: logical_volume where
  "ex_again = ex_lv\<lparr>lvl_uuid := ''uuid-1''\<rparr>"

lemmas ex_group_eval = mem_eval ex_defs ex_group_def ex_extra_def ex_again_def

lemma show_radix_1: "show_radix 10 (Suc 0) = ''1''"
  by code_simp

lemma ex_group_calls:
  "sv_get ex_server \<lparr>glr_identifier = Some (Uuid ''uuid-0'')\<rparr> (ex_group [ex_lv, ex_extra]) =
     (Inr (lv_into ex_lv), ex_group [ex_lv, ex_extra])"
  "sv_delete ex_server \<lparr>dlr_name = ''3''\<rparr> (ex_group [ex_lv, ex_extra]) = (Inr (), ex_group [ex_extra])"
  "sv_create ex_server \<lparr>clr_name = ''3'', clr_capacity = 536870912, clr_tags = tags\<rparr> (ex_group [ex_extra]) =
     (Inr (lv_into ex_again), ex_group [ex_extra, ex_again])"
  "sv_format ex_server \<lparr>flr_name = ''3''\<rparr> (ex_group [ex_extra, ex_again]) =
     (Inr (), (ex_group [ex_extra, ex_again])\<lparr>mem_files := [(''/dev/vg0/3'', [])]\<rparr>)"
  "sv_delete ex_server \<lparr>dlr_name = ''3''\<rparr>
       ((ex_group [ex_extra, ex_again])\<lparr>mem_files := [(''/dev/vg0/3'', [])]\<rparr>) =
     (Inr (), (ex_group [ex_extra])\<lparr>mem_files := [(''/dev/vg0/3'', [])]\<rparr>)"
  by (simp_all add: ex_group_eval Let_def show_radix_1)

lemma ex_group_create:
  "run_vol (controller_rpc (create_volume ex_env ex_ctl) (ex_create 536870912)) ex_server (ex_group [ex_extra]) =
    (Reply \<lparr>cvs_volume = Some (process_volume ex_ctl (lv_into ex_again))\<rparr>,
     (ex_group [ex_extra, ex_again])\<lparr>mem_files := [(''/dev/vg0/3'', [])]\<rparr>)"
proof (subst volumed_reliable.run_create_absent [OF _ _ _ _ ex_requested, of mem_lvm mem_obs])
  show "vol_ready mem_lvm mem_obs ''vg0'' (ex_group [ex_extra])"
    unfolding vol_ready_def by (simp add: mem_laws mem_reliable ex_group_def ex_empty_def)
  show "536870912 \<le> vol_bytes_free mem_obs ex_cfg ''vg0'' (ex_group [ex_extra])"
    by (simp add: vol_bytes_free_def checked_sub_def ex_group_def ex_defs)
  show "ex_view (ex_group [ex_extra]) (hash_resource ex_env (cvr_name (ex_create 536870912))) = None"
    by simp (simp add: vol_view_def mem_find_def ex_group_def ex_extra_def)
qed (simp_all add: ex_group_calls MIN_VOLUME_SIZE_BYTES_def)

theorem delete_overtaken_removes_new_volume_witness:
  "ex_view ((ex_group [ex_extra])\<lparr>mem_files := [(''/dev/vg0/3'', [])]\<rparr>) ''3'' = None \<and>
   lv_uuid (lv_into ex_again) \<noteq> ''uuid-0''"
proof -
  have "lv_name (lv_into ex_lv) = ''3''" by (simp add: ex_lv_def)
  moreover have "lv_uuid (lv_into ex_again) \<noteq> ''uuid-0''" by (simp add: ex_again_def)
  ultimately show ?thesis
    using delete_overtaken_removes_new_volume [OF mem_laws, of "\<lparr>dvr_volume_id = ''uuid-0''\<rparr>"
        ex_lost ex_cfg "''vg0''" "ex_group [ex_lv, ex_extra]" "lv_into ex_lv" "ex_group [ex_extra]"
        ex_env "ex_create 536870912" ex_ctl, OF _ _ _ _ ex_group_create]
    by (auto simp: ex_group_calls)
qed

end
