(* ===== verification/Volumed_Steps.thy ===== *)
theory Volumed_Steps
  imports Volumed Calls
begin

text \<open>
  volumed's handlers as sequences of single LVM commands.  The handlers run on several threads
  and take no lock, so that the commands of two RPCs may alternate.  The programs here are
  translated from server.rs and main.rs a second time, command by command; run in one piece
  they equal the handlers of \<open>Volumed\<close>.  \<open>lvm_step\<close> is one command, and \<open>lvm_guarded\<close> a
  condition on every command a program may still run.
\<close>

section \<open>Programs over LVM\<close>

datatype 'a lvm_prog =
    LvmRet 'a
  | LvmVgFromId string "lvm_error + volume_group \<Rightarrow> 'a lvm_prog"
  | LvmListLvs volume_group "lvm_error + logical_volume list \<Rightarrow> 'a lvm_prog"
  | LvmAddLv volume_group lv_create_options "lvm_error + logical_volume \<Rightarrow> 'a lvm_prog"
  | LvmRemoveLv volume_group string "lvm_error + unit \<Rightarrow> 'a lvm_prog"
  | LvmFromId string string "lvm_error + logical_volume \<Rightarrow> 'a lvm_prog"
  | LvmFromUuid string "lvm_error + logical_volume \<Rightarrow> 'a lvm_prog"
  | LvmMkfs string "string + bool \<times> string \<Rightarrow> 'a lvm_prog"

primrec run_lvm :: "'a lvm_prog \<Rightarrow> 'w lvm_api \<Rightarrow> 'w \<Rightarrow> 'a \<times> 'w" where
  "run_lvm (LvmRet x) L w = (x, w)"
| "run_lvm (LvmVgFromId g k) L w = run_lvm (k (vg_from_id L g w)) L w"
| "run_lvm (LvmListLvs vg k) L w = run_lvm (k (vg_list_lvs L vg w)) L w"
| "run_lvm (LvmAddLv vg opt k) L w = (case vg_add_lv L vg opt w of (r, w') \<Rightarrow> run_lvm (k r) L w')"
| "run_lvm (LvmRemoveLv vg n k) L w = (case vg_remove_lv L vg n w of (r, w') \<Rightarrow> run_lvm (k r) L w')"
| "run_lvm (LvmFromId g n k) L w = run_lvm (k (lv_from_id L g n w)) L w"
| "run_lvm (LvmFromUuid u k) L w = run_lvm (k (lv_from_uuid L u w)) L w"
| "run_lvm (LvmMkfs p k) L w = (case mkfs_xfs L p w of (r, w') \<Rightarrow> run_lvm (k r) L w')"

definition lvm_fail :: "status \<Rightarrow> 'a outcome lvm_prog" where
  "lvm_fail st = LvmRet (Fail st)"

lemma run_lvm_fail [simp]: "run_lvm (lvm_fail st) L w = (Fail st, w)"
  by (simp add: lvm_fail_def)

section \<open>The handlers, command by command\<close>

definition get_lv_list_steps :: "unit vreq \<Rightarrow> LV list outcome lvm_prog" where
  "get_lv_list_steps req =
     (case get_extension req of
        None \<Rightarrow> LvmRet Panic
      | Some vg \<Rightarrow>
     LvmListLvs vg (\<lambda>lvs. case map_err map_lvm_error lvs of
       Inl st \<Rightarrow> lvm_fail st
     | Inr lvs \<Rightarrow> LvmRet (Reply (map lv_into lvs))))"

definition get_free_bytes_steps :: "volumed_config \<Rightarrow> unit vreq \<Rightarrow> u64 outcome lvm_prog" where
  "get_free_bytes_steps cfg req = LvmRet (fst (get_free_bytes cfg req ()))"

definition create_steps :: "'w lvm_api \<Rightarrow> create_lv_request vreq \<Rightarrow> LV outcome lvm_prog" where
  "create_steps L req =
     (case get_extension req of
        None \<Rightarrow> LvmRet Panic
      | Some vg \<Rightarrow>
     (case map_err (Status InvalidArgument) (resource_capacity L (clr_capacity (message req))) of
        Inl st \<Rightarrow> lvm_fail st
      | Inr capacity \<Rightarrow>
     (case map_err (Status InvalidArgument) (resource_name L (clr_name (message req))) of
        Inl st \<Rightarrow> lvm_fail st
      | Inr name \<Rightarrow>
     LvmAddLv vg
       \<lparr>opt_activate = True, opt_capacity_bytes = capacity, opt_name = name,
        opt_tags = clr_tags (message req)\<rparr> (\<lambda>added. case added of
       Inl err \<Rightarrow> lvm_fail (map_lvm_error err)
     | Inr lv \<Rightarrow> LvmRet (Reply (lv_into lv))))))"

definition delete_steps :: "'w lvm_api \<Rightarrow> delete_lv_request vreq \<Rightarrow> unit outcome lvm_prog" where
  "delete_steps L req =
     (case get_extension req of
        None \<Rightarrow> LvmRet Panic
      | Some vg \<Rightarrow>
     (case map_err (Status InvalidArgument) (resource_name L (dlr_name (message req))) of
        Inl st \<Rightarrow> lvm_fail st
      | Inr name \<Rightarrow>
     LvmRemoveLv vg name (\<lambda>removed. case removed of
       Inl err \<Rightarrow> lvm_fail (map_lvm_error err)
     | Inr _ \<Rightarrow> LvmRet (Reply ()))))"

definition format_steps :: "'w lvm_api \<Rightarrow> format_lv_request vreq \<Rightarrow> unit outcome lvm_prog" where
  "format_steps L req =
     (case get_extension req of
        None \<Rightarrow> LvmRet Panic
      | Some vg \<Rightarrow>
     (case map_err (Status InvalidArgument) (resource_name L (flr_name (message req))) of
        Inl st \<Rightarrow> lvm_fail st
      | Inr name \<Rightarrow>
     LvmFromId (vg_name vg) name (\<lambda>found. case map_err map_lvm_error found of
       Inl st \<Rightarrow> lvm_fail st
     | Inr lv \<Rightarrow>
     LvmMkfs (lvl_path lv) (\<lambda>cmd. case cmd of
       Inl err \<Rightarrow> lvm_fail (Status Internal (''could not run mkfs.xfs command: '' @ err))
     | Inr (success, stderr) \<Rightarrow>
         if \<not> success
         then lvm_fail (Status Internal (''could not format volume `'' @ name @ ''`: '' @ stderr))
         else LvmRet (Reply ())))))"

definition found_lv :: "lvm_error + logical_volume \<Rightarrow> LV outcome lvm_prog" where
  "found_lv found =
     (case map_err map_lvm_error found of
        Inl st \<Rightarrow> lvm_fail st
      | Inr lv \<Rightarrow> LvmRet (Reply (lv_into lv)))"

definition get_steps :: "'w lvm_api \<Rightarrow> get_lv_request vreq \<Rightarrow> LV outcome lvm_prog" where
  "get_steps L req =
     (case get_extension req of
        None \<Rightarrow> LvmRet Panic
      | Some vg \<Rightarrow>
     (case glr_identifier (message req) of
        None \<Rightarrow> lvm_fail (Status InvalidArgument ''missing required field `identifier`'')
      | Some (Uuid uuid) \<Rightarrow>
          (case map_err (Status InvalidArgument) (resource_uuid L uuid) of
             Inl st \<Rightarrow> lvm_fail st
           | Inr uuid \<Rightarrow> LvmFromUuid uuid found_lv)
      | Some (Name name) \<Rightarrow>
          (case map_err (Status InvalidArgument) (resource_name L name) of
             Inl st \<Rightarrow> lvm_fail st
           | Inr name \<Rightarrow> LvmFromId (vg_name vg) name found_lv)))"

text \<open>The interceptor looks the group up before the handler runs.\<close>

definition inject_steps ::
  "volumed_config \<Rightarrow> string \<Rightarrow> ('m vreq \<Rightarrow> 'a outcome lvm_prog) \<Rightarrow> 'm \<Rightarrow> 'a outcome lvm_prog" where
  "inject_steps cfg resource handler m =
     LvmVgFromId resource (\<lambda>found. case found of
       Inl _ \<Rightarrow> lvm_fail (Status Internal (''volume group not found: '' @ cfg_volume_group cfg))
     | Inr info \<Rightarrow> handler (set_extension info (new_request m)))"

section \<open>Run in one piece\<close>

lemma run_inject_steps:
  "run_lvm (inject_steps cfg rn h m) L w =
     (case vg_injector L cfg rn (new_request m) w of
        Inl st \<Rightarrow> (Fail st, w) | Inr req \<Rightarrow> run_lvm (h req) L w)"
  by (simp add: inject_steps_def vg_injector_def split: sum.split)

lemma run_handlers:
  "run_lvm (get_lv_list_steps rl) L w = get_lv_list L rl w"
  "run_lvm (get_free_bytes_steps cfg rl) L w = get_free_bytes cfg rl w"
  "run_lvm (create_steps L rc) L w = create_logical_volume L rc w"
  "run_lvm (delete_steps L rd) L w = delete_logical_volume L rd w"
  "run_lvm (format_steps L rf) L w = format_logical_volume L rf w"
  "run_lvm (get_steps L rg) L w = get_logical_volume L rg w"
  by (auto simp: get_lv_list_steps_def get_lv_list_def get_free_bytes_steps_def get_free_bytes_def
      create_steps_def create_logical_volume_def delete_steps_def delete_logical_volume_def
      format_steps_def format_logical_volume_def get_steps_def get_logical_volume_def found_lv_def
      rust_simps Let_def split: option.split sum.split prod.split lv_identifier.split)

section \<open>The served RPCs\<close>

datatype volumed_reply =
    LvListReply "LV list" | FreeBytesReply u64 | LvReply LV | DoneReply unit

fun serve_steps ::
  "'w lvm_api \<Rightarrow> volumed_config \<Rightarrow> string \<Rightarrow> vol_call \<Rightarrow> volumed_reply outcome lvm_prog" where
  "serve_steps L cfg rn AskLvList =
     map_lvm_prog (map_outcome LvListReply) (inject_steps cfg rn get_lv_list_steps ())"
| "serve_steps L cfg rn AskFreeBytes =
     map_lvm_prog (map_outcome FreeBytesReply) (inject_steps cfg rn (get_free_bytes_steps cfg) ())"
| "serve_steps L cfg rn (AskCreate q) =
     map_lvm_prog (map_outcome LvReply) (inject_steps cfg rn (create_steps L) q)"
| "serve_steps L cfg rn (AskDelete q) =
     map_lvm_prog (map_outcome DoneReply) (inject_steps cfg rn (delete_steps L) q)"
| "serve_steps L cfg rn (AskFormat q) =
     map_lvm_prog (map_outcome DoneReply) (inject_steps cfg rn (format_steps L) q)"
| "serve_steps L cfg rn (AskLv q) =
     map_lvm_prog (map_outcome LvReply) (inject_steps cfg rn (get_steps L) q)"

text \<open>
  How the awaiting client goes on.  The answer to a call is of the kind of
  the call, so that the last equation is never used.
\<close>

fun resume :: "'a vol_prog \<Rightarrow> status + volumed_reply \<Rightarrow> 'a vol_prog" where
  "resume (VGetLvList k) (Inr (LvListReply x)) = k (Inr x)"
| "resume (VGetFreeBytes k) (Inr (FreeBytesReply x)) = k (Inr x)"
| "resume (VCreateLogicalVolume q k) (Inr (LvReply x)) = k (Inr x)"
| "resume (VDeleteLogicalVolume q k) (Inr (DoneReply x)) = k (Inr x)"
| "resume (VFormatLogicalVolume q k) (Inr (DoneReply x)) = k (Inr x)"
| "resume (VGetLogicalVolume q k) (Inr (LvReply x)) = k (Inr x)"
| "resume p (Inl st) = vol_lost st p"
| "resume p r = p"

lemma run_map_lvm_prog:
  "run_lvm (map_lvm_prog f p) L w = (case run_lvm p L w of (x, w') \<Rightarrow> (f x, w'))"
  by (induction p arbitrary: w) (auto split: prod.splits)

lemmas run_serve_steps = run_map_lvm_prog run_inject_steps run_handlers

text \<open>A call of a client is the whole run of its handler and the answer.\<close>

lemma call_in_one_piece:
  assumes "vol_step (volumed_server lost L cfg rn) p w p' w'" and "pending p = Some v"
  shows "\<exists>out. run_lvm (serve_steps L cfg rn v) L w = (out, w') \<and> p' = resume p (client_answer lost out)"
  using assms
  by (cases rule: vol_step.cases)
    (auto simp: run_serve_steps volumed_defs split: sum.splits prod.splits outcome.splits)

lemma serve_call_in_one_piece:
  "\<exists>out. run_lvm (serve_steps L cfg rn v) L w = (out, serve_call (volumed_server lost L cfg rn) v w)"
  by (cases v) (auto simp: run_serve_steps volumed_defs split: sum.splits prod.splits outcome.splits)

section \<open>Single commands\<close>

inductive lvm_step :: "'w lvm_api \<Rightarrow> 'a lvm_prog \<Rightarrow> 'w \<Rightarrow> 'a lvm_prog \<Rightarrow> 'w \<Rightarrow> bool"
  for L :: "'w lvm_api" where
  lvm_step_vg: "lvm_step L (LvmVgFromId g k) w (k (vg_from_id L g w)) w"
| lvm_step_list: "lvm_step L (LvmListLvs vg k) w (k (vg_list_lvs L vg w)) w"
| lvm_step_add: "vg_add_lv L vg opt w = (r, w') \<Longrightarrow> lvm_step L (LvmAddLv vg opt k) w (k r) w'"
| lvm_step_remove: "vg_remove_lv L vg n w = (r, w') \<Longrightarrow> lvm_step L (LvmRemoveLv vg n k) w (k r) w'"
| lvm_step_id: "lvm_step L (LvmFromId g n k) w (k (lv_from_id L g n w)) w"
| lvm_step_uuid: "lvm_step L (LvmFromUuid u k) w (k (lv_from_uuid L u w)) w"
| lvm_step_mkfs: "mkfs_xfs L p w = (r, w') \<Longrightarrow> lvm_step L (LvmMkfs p k) w (k r) w'"

inductive_simps lvm_step_simps:
  "lvm_step L (LvmVgFromId g k) w p w'"
  "lvm_step L (LvmFromId g n k) w p w'"

text \<open>The commands that write, and what the command does.\<close>

datatype lvm_write =
    AddVolume volume_group lv_create_options | RemoveVolume volume_group string | MakeFs string

primrec lvm_written :: "'w lvm_api \<Rightarrow> lvm_write \<Rightarrow> 'w \<Rightarrow> 'w" where
  "lvm_written L (AddVolume vg opt) w = snd (vg_add_lv L vg opt w)"
| "lvm_written L (RemoveVolume vg n) w = snd (vg_remove_lv L vg n w)"
| "lvm_written L (MakeFs p) w = snd (mkfs_xfs L p w)"

text \<open>
  Every write of \<open>p\<close> is in \<open>A\<close> and every result in \<open>Q\<close>, whatever the worlds in \<open>P\<close> in which its
  lookups are made, and whatever its writes answer.
\<close>

primrec lvm_guarded ::
  "'w lvm_api \<Rightarrow> ('w \<Rightarrow> bool) \<Rightarrow> (lvm_write \<Rightarrow> bool) \<Rightarrow> ('a \<Rightarrow> bool) \<Rightarrow> 'a lvm_prog \<Rightarrow> bool" where
  "lvm_guarded L P A Q (LvmRet x) = Q x"
| "lvm_guarded L P A Q (LvmVgFromId g k) = (\<forall>w. P w \<longrightarrow> lvm_guarded L P A Q (k (vg_from_id L g w)))"
| "lvm_guarded L P A Q (LvmListLvs vg k) = (\<forall>w. P w \<longrightarrow> lvm_guarded L P A Q (k (vg_list_lvs L vg w)))"
| "lvm_guarded L P A Q (LvmAddLv vg opt k) = (A (AddVolume vg opt) \<and> (\<forall>r. lvm_guarded L P A Q (k r)))"
| "lvm_guarded L P A Q (LvmRemoveLv vg n k) = (A (RemoveVolume vg n) \<and> (\<forall>r. lvm_guarded L P A Q (k r)))"
| "lvm_guarded L P A Q (LvmFromId g n k) = (\<forall>w. P w \<longrightarrow> lvm_guarded L P A Q (k (lv_from_id L g n w)))"
| "lvm_guarded L P A Q (LvmFromUuid u k) = (\<forall>w. P w \<longrightarrow> lvm_guarded L P A Q (k (lv_from_uuid L u w)))"
| "lvm_guarded L P A Q (LvmMkfs p k) = (A (MakeFs p) \<and> (\<forall>r. lvm_guarded L P A Q (k r)))"

lemma lvm_guarded_step:
  assumes "lvm_step L p w p' w'" and "lvm_guarded L P A Q p" and "P w"
  shows "lvm_guarded L P A Q p' \<and> (w' = w \<or> (\<exists>a. A a \<and> w' = lvm_written L a w))"
  using assms
proof (cases rule: lvm_step.cases)
  case (lvm_step_add vg opt r k)
  with assms show ?thesis by (auto intro!: exI [of _ "AddVolume vg opt"])
next
  case (lvm_step_remove vg n r k)
  with assms show ?thesis by (auto intro!: exI [of _ "RemoveVolume vg n"])
next
  case (lvm_step_mkfs p r k)
  with assms show ?thesis by (auto intro!: exI [of _ "MakeFs p"])
qed auto

lemma lvm_guarded_map:
  "lvm_guarded L P A Q (map_lvm_prog f p) \<longleftrightarrow> lvm_guarded L P A (\<lambda>x. Q (f x)) p"
  by (induction p) simp_all

lemma lvm_guarded_fail: "lvm_guarded L P A Q (lvm_fail st) \<longleftrightarrow> Q (Fail st)"
  by (simp add: lvm_fail_def)

text \<open>What each handler writes.\<close>

fun writes_of :: "'w lvm_api \<Rightarrow> ('w \<Rightarrow> bool) \<Rightarrow> string \<Rightarrow> vol_call \<Rightarrow> lvm_write \<Rightarrow> bool" where
  "writes_of L P rn (AskCreate q) a =
     (\<exists>vg opt. a = AddVolume vg opt \<and> vg_name vg = rn \<and> opt_name opt = clr_name q \<and>
        opt_capacity_bytes opt = clr_capacity q)"
| "writes_of L P rn (AskDelete q) a = (\<exists>vg. a = RemoveVolume vg (dlr_name q) \<and> vg_name vg = rn)"
| "writes_of L P rn (AskFormat q) a =
     (\<exists>lv w. a = MakeFs (lvl_path lv) \<and> P w \<and> lv_from_id L rn (flr_name q) w = Inr lv)"
| "writes_of L P rn v a = False"

text \<open>
  What each handler answers: none panics, and the answer to a lookup is a volume that was found
  in a world in \<open>P\<close>.
\<close>

definition looked_up ::
  "'w lvm_api \<Rightarrow> ('w \<Rightarrow> bool) \<Rightarrow> string \<Rightarrow> lv_identifier \<Rightarrow> LV \<Rightarrow> bool" where
  "looked_up L P rn i lv \<longleftrightarrow> (\<exists>w l. P w \<and> lv = lv_into l \<and>
     (case i of
        Uuid uuid \<Rightarrow> \<exists>u. resource_uuid L uuid = Inr u \<and> lv_from_uuid L u w = Inr l
      | Name n \<Rightarrow> \<exists>n'. resource_name L n = Inr n' \<and> lv_from_id L rn n' w = Inr l))"

fun answers_of ::
  "'w lvm_api \<Rightarrow> ('w \<Rightarrow> bool) \<Rightarrow> string \<Rightarrow> vol_call \<Rightarrow> volumed_reply outcome \<Rightarrow> bool" where
  "answers_of L P rn v Panic = False"
| "answers_of L P rn (AskLv q) (Reply (LvReply lv)) =
     (\<exists>i. glr_identifier q = Some i \<and> looked_up L P rn i lv)"
| "answers_of L P rn v out = True"

lemma answers_of_ends [simp]:
  "answers_of L P rn v (Fail st)" "answers_of L P rn AskLvList (Reply x)"
  "answers_of L P rn AskFreeBytes (Reply x)" "answers_of L P rn (AskCreate cq) (Reply x)"
  "answers_of L P rn (AskDelete d) (Reply x)" "answers_of L P rn (AskFormat f) (Reply x)"
  by (cases v; simp) (cases x; simp)+

lemma get_steps_guarded:
  assumes "lvm_laws L V" and "vg_name vg = rn"
  shows "lvm_guarded L P A (\<lambda>out. answers_of L P rn (AskLv q) (map_outcome LvReply out))
    (get_steps L (set_extension vg (new_request q)))"
  using assms(2) lvm_name [OF assms(1)]
  by (auto simp: get_steps_def found_lv_def looked_up_def lvm_guarded_fail map_err_def Let_def
      split: sum.splits option.splits lv_identifier.splits)

lemma serve_steps_guarded:
  assumes "lvm_laws L V"
  shows "lvm_guarded L P (writes_of L P rn v) (answers_of L P rn v) (serve_steps L cfg rn v)"
proof (cases v)
  case (AskLv q)
  then show ?thesis using lvm_vg [OF assms] get_steps_guarded [OF assms]
    by (auto simp: lvm_guarded_map inject_steps_def lvm_guarded_fail split: sum.splits)
qed (use lvm_name [OF assms] lvm_capacity [OF assms] lvm_vg [OF assms] in
    \<open>auto simp: lvm_guarded_map inject_steps_def lvm_guarded_fail get_lv_list_steps_def
      get_free_bytes_steps_def get_free_bytes_def create_steps_def delete_steps_def format_steps_def
      map_err_def Let_def u64_of_usize_def split: sum.splits option.splits\<close>)

end
