(* ===== verification/Volumed_Interleaving.thy ===== *)
theory Volumed_Interleaving
  imports Controller_System Volumed_Steps
begin

text \<open>
  The controller plugin over volumed at the grain of single LVM commands: the handlers of the
  plugin interleave with each other and with volumed's handlers, whose commands alternate; a
  plugin that gives a call up leaves its handler running in volumed.  The system of
  \<open>Controller_System\<close> is one of its behaviours, and the volumes stay accounted.  A DeleteVolume
  removes by names that its uuid was looked up to (\<open>asked\<close>).
\<close>

section \<open>The system\<close>

text \<open>
  A task is an RPC of the plugin, its program and the handler in volumed that it awaits; an
  orphan is a handler nobody awaits any more, with the RPC that has called it; \<open>env\<close> is what
  other programs do on the host.
\<close>

type_synonym handler = "volumed_reply outcome lvm_prog"
type_synonym task = "controller_call \<times> controller_reply outcome vol_prog \<times> handler option"
type_synonym orphan = "controller_call \<times> handler"

primrec left_behind :: "controller_call \<Rightarrow> handler option \<Rightarrow> orphan list" where
  "left_behind c None = []"
| "left_behind c (Some h) = [(c, h)]"

inductive stack_step ::
  "'w lvm_api \<Rightarrow> volumed_config \<Rightarrow> string \<Rightarrow> ctl_env \<Rightarrow> controller \<Rightarrow>
     controller_call list \<Rightarrow> task list \<Rightarrow> orphan list \<Rightarrow> 'w \<Rightarrow>
     controller_call list \<Rightarrow> task list \<Rightarrow> orphan list \<Rightarrow> 'w \<Rightarrow> bool"
  for L :: "'w lvm_api" and cfg :: volumed_config and rn :: string and E :: ctl_env
    and self :: controller where
  stack_arrive: "stack_step L cfg rn E self hs ts os w
    (hs @ [c]) (ts @ [(c, controller_serve E self c, None)]) os w"
| stack_send: "pending p = Some v \<Longrightarrow> stack_step L cfg rn E self hs (xs @ (c, p, None) # ys) os w
    hs (xs @ (c, p, Some (serve_steps L cfg rn v)) # ys) os w"
| stack_work: "lvm_step L h w h' w' \<Longrightarrow> stack_step L cfg rn E self hs (xs @ (c, p, Some h) # ys) os w
    hs (xs @ (c, p, Some h') # ys) os w'"
| stack_answer: "stack_step L cfg rn E self hs (xs @ (c, p, Some (LvmRet out)) # ys) os w
    hs (xs @ (c, resume p (client_answer lost out), None) # ys) os w"
| stack_give_up: "stack_step L cfg rn E self hs (xs @ (c, p, ho) # ys) os w
    hs (xs @ (c, vol_lost st p, None) # ys) (left_behind c ho @ os) w"
| stack_drop: "stack_step L cfg rn E self hs (xs @ (c, p, ho) # ys) os w
    hs (xs @ ys) (left_behind c ho @ os) w"
| stack_orphan: "lvm_step L h w h' w' \<Longrightarrow> stack_step L cfg rn E self hs ts (xs @ (c, h) # ys) w
    hs ts (xs @ (c, h') # ys) w'"
| stack_orphan_end: "stack_step L cfg rn E self hs ts (xs @ (c, h) # ys) w hs ts (xs @ ys) w"

inductive stack_run ::
  "'w lvm_api \<Rightarrow> volumed_config \<Rightarrow> string \<Rightarrow> ctl_env \<Rightarrow> ('w \<Rightarrow> 'w \<Rightarrow> bool) \<Rightarrow> controller \<Rightarrow> 'w \<Rightarrow>
     controller_call list \<Rightarrow> task list \<Rightarrow> orphan list \<Rightarrow> 'w \<Rightarrow> bool"
  for L :: "'w lvm_api" and cfg :: volumed_config and rn :: string and E :: ctl_env
    and env :: "'w \<Rightarrow> 'w \<Rightarrow> bool" and self :: controller and w0 :: 'w where
  stack_start: "stack_run L cfg rn E env self w0 [] [] [] w0"
| stack_move: "stack_run L cfg rn E env self w0 hs ts os w \<Longrightarrow>
    stack_step L cfg rn E self hs ts os w hs' ts' os' w' \<Longrightarrow>
    stack_run L cfg rn E env self w0 hs' ts' os' w'"
| stack_other: "stack_run L cfg rn E env self w0 hs ts os w \<Longrightarrow> env w w' \<Longrightarrow>
    stack_run L cfg rn E env self w0 hs ts os w'"

lemmas stack_moves = stack_move [OF _ stack_arrive] stack_move [OF _ stack_send]
  stack_move [OF _ stack_work] stack_move [OF _ stack_answer] stack_move [OF _ stack_give_up]
  stack_move [OF _ stack_drop] stack_move [OF _ stack_orphan_end]

lemmas run_arrives = stack_moves(1) and run_sends = stack_moves(2) and run_works = stack_moves(3)
  and run_answers = stack_moves(4) and run_gives_up = stack_moves(5) and run_drops = stack_moves(6)
  and run_ends = stack_moves(7)

section \<open>The coarse system is one behaviour\<close>

lemma stack_work_all:
  assumes "run_lvm h L w = (out, w')"
    and "stack_run L cfg rn E env self w0 hs (xs @ (c, p, Some h) # ys) os w"
  shows "stack_run L cfg rn E env self w0 hs (xs @ (c, p, Some (LvmRet out)) # ys) os w'"
  using assms
proof (induction h arbitrary: w)
  case (LvmAddLv vg opt k)
  obtain r u where "vg_add_lv L vg opt w = (r, u)" by fastforce
  with LvmAddLv(2,3) LvmAddLv(1) [OF rangeI, of r u] run_works [OF LvmAddLv(3) lvm_step_add] show ?case by simp
next
  case (LvmRemoveLv vg n k)
  obtain r u where "vg_remove_lv L vg n w = (r, u)" by fastforce
  with LvmRemoveLv(2,3) LvmRemoveLv(1) [OF rangeI, of r u] run_works [OF LvmRemoveLv(3) lvm_step_remove] show ?case by simp
next
  case (LvmMkfs d k)
  obtain r u where "mkfs_xfs L d w = (r, u)" by fastforce
  with LvmMkfs(2,3) LvmMkfs(1) [OF rangeI, of r u] run_works [OF LvmMkfs(3) lvm_step_mkfs] show ?case by simp
qed (auto, (metis lvm_step_vg lvm_step_list lvm_step_id lvm_step_uuid rangeI run_works)+)

abbreviation idle :: "(controller_call \<times> controller_reply outcome vol_prog) list \<Rightarrow> task list" where
  "idle ts \<equiv> map (\<lambda>(c, p). (c, p, None)) ts"

lemma stack_whole_call:
  assumes "stack_run L cfg rn E env self w0 hs (xs @ (c, p, None) # ys) os w" and "pending p = Some v"
    and "run_lvm (serve_steps L cfg rn v) L w = (out, w')"
  shows "stack_run L cfg rn E env self w0 hs (xs @ (c, p, Some (LvmRet out)) # ys) os w'"
  by (rule stack_work_all [OF assms(3) run_sends [OF assms(1,2)]])

lemma stack_call:
  assumes "vol_step (volumed_server lost L cfg rn) p w p' w'"
    and "stack_run L cfg rn E env self w0 hs (xs @ (c, p, None) # ys) os w"
  shows "stack_run L cfg rn E env self w0 hs (xs @ (c, p', None) # ys) os w'"
proof -
  obtain v where v: "pending p = Some v" using vol_step_served [OF assms(1)] by blast
  with call_in_one_piece [OF assms(1)] obtain out
    where out: "run_lvm (serve_steps L cfg rn v) L w = (out, w')" "p' = resume p (client_answer lost out)"
    by blast
  from run_answers [OF stack_whole_call [OF assms(2) v out(1)]] out(2) show ?thesis by simp
qed

lemma stack_alone:
  assumes "run_vol p (volumed_server lost L cfg rn) w = (x, w')"
    and "stack_run L cfg rn E env self w0 hs (xs @ (c, p, None) # ys) os w"
  shows "stack_run L cfg rn E env self w0 hs (xs @ (c, VRet x, None) # ys) os w'"
  using assms
proof (induction p arbitrary: w)
  case (VGetLvList k)
  obtain r t where "sv_get_lv_list (volumed_server lost L cfg rn) w = (r, t)" by fastforce
  with VGetLvList(2) VGetLvList(1) [OF rangeI, of r t] stack_call [OF step_list VGetLvList(3)] show ?case by simp
next
  case (VGetFreeBytes k)
  obtain r t where "sv_get_free_bytes (volumed_server lost L cfg rn) w = (r, t)" by fastforce
  with VGetFreeBytes(2) VGetFreeBytes(1) [OF rangeI, of r t] stack_call [OF step_free VGetFreeBytes(3)] show ?case by simp
next
  case (VCreateLogicalVolume q k)
  obtain r t where "sv_create (volumed_server lost L cfg rn) q w = (r, t)" by fastforce
  with VCreateLogicalVolume(2) VCreateLogicalVolume(1) [OF rangeI, of r t]
    stack_call [OF step_create VCreateLogicalVolume(3)] show ?case by simp
next
  case (VDeleteLogicalVolume q k)
  obtain r t where "sv_delete (volumed_server lost L cfg rn) q w = (r, t)" by fastforce
  with VDeleteLogicalVolume(2) VDeleteLogicalVolume(1) [OF rangeI, of r t]
    stack_call [OF step_delete VDeleteLogicalVolume(3)] show ?case by simp
next
  case (VFormatLogicalVolume q k)
  obtain r t where "sv_format (volumed_server lost L cfg rn) q w = (r, t)" by fastforce
  with VFormatLogicalVolume(2) VFormatLogicalVolume(1) [OF rangeI, of r t]
    stack_call [OF step_format VFormatLogicalVolume(3)] show ?case by simp
next
  case (VGetLogicalVolume q k)
  obtain r t where "sv_get (volumed_server lost L cfg rn) q w = (r, t)" by fastforce
  with VGetLogicalVolume(2) VGetLogicalVolume(1) [OF rangeI, of r t]
    stack_call [OF step_get VGetLogicalVolume(3)] show ?case by simp
qed simp

lemma coarse_runs_are_fine_aux:
  assumes "plugin_run (volumed_server lost L cfg rn) E self w0 hs ts w"
  shows "stack_run L cfg rn E env self w0 hs (idle ts) [] w"
  using assms
proof (induction rule: plugin_run.induct)
  case run_start
  show ?case by (simp add: stack_start)
next
  case (run_arrive hs ts w c)
  from run_arrives [OF run_arrive(2), of c] show ?case by simp
next
  case (run_serve hs xs c p ys w p' w')
  then have "stack_run L cfg rn E env self w0 hs (idle xs @ (c, p, None) # idle ys) [] w" by simp
  from stack_call [OF run_serve(2) this] show ?case by simp
next
  case (run_lose_call hs xs c p ys w st)
  then have "stack_run L cfg rn E env self w0 hs (idle xs @ (c, p, None) # idle ys) [] w" by simp
  from run_gives_up [OF this, of st] show ?case by simp
next
  case (run_lose_answer hs xs c p ys w v st)
  let ?srv = "volumed_server lost L cfg rn"
  obtain out where out: "run_lvm (serve_steps L cfg rn v) L w = (out, serve_call ?srv v w)"
    using serve_call_in_one_piece [of L cfg rn v w lost] by blast
  from run_lose_answer have "stack_run L cfg rn E env self w0 hs (idle xs @ (c, p, None) # idle ys) [] w"
    by simp
  from run_gives_up [OF stack_whole_call [OF this run_lose_answer(2) out], of st]
  have "stack_run L cfg rn E env self w0 hs (idle xs @ (c, vol_lost st p, None) # idle ys)
      ([] @ (c, LvmRet out) # []) (serve_call ?srv v w)" by simp
  from run_ends [OF this] show ?case by simp
next
  case (run_drop hs xs c p ys w)
  then have "stack_run L cfg rn E env self w0 hs (idle xs @ (c, p, None) # idle ys) [] w" by simp
  from run_drops [OF this] show ?case by simp
qed

section \<open>What every run keeps\<close>

text \<open>
  \<open>asks_only D A p\<close>: with answers from \<open>D\<close> to its lookups and any answers to its other calls,
  every call of \<open>p\<close> is in \<open>A\<close>.
\<close>

primrec asks_only ::
  "(get_lv_request \<Rightarrow> LV \<Rightarrow> bool) \<Rightarrow> (vol_call \<Rightarrow> bool) \<Rightarrow> 'a vol_prog \<Rightarrow> bool" where
  "asks_only D A (VRet x) = True"
| "asks_only D A (VGetLvList k) = (A AskLvList \<and> (\<forall>r. asks_only D A (k r)))"
| "asks_only D A (VGetFreeBytes k) = (A AskFreeBytes \<and> (\<forall>r. asks_only D A (k r)))"
| "asks_only D A (VCreateLogicalVolume q k) = (A (AskCreate q) \<and> (\<forall>r. asks_only D A (k r)))"
| "asks_only D A (VDeleteLogicalVolume q k) = (A (AskDelete q) \<and> (\<forall>r. asks_only D A (k r)))"
| "asks_only D A (VFormatLogicalVolume q k) = (A (AskFormat q) \<and> (\<forall>r. asks_only D A (k r)))"
| "asks_only D A (VGetLogicalVolume q k) =
     (A (AskLv q) \<and> (\<forall>r. (\<forall>lv. r = Inr lv \<longrightarrow> D q lv) \<longrightarrow> asks_only D A (k r)))"

lemma asks_only_map: "asks_only D A (map_vol_prog f p) \<longleftrightarrow> asks_only D A p"
  by (induction p) simp_all

lemma asks_only_pending: "asks_only D A p \<Longrightarrow> pending p = Some v \<Longrightarrow> A v"
  by (cases p) auto

lemma conforms_asks_only:
  assumes "conforms P Q p n" and "\<And>v. P v \<Longrightarrow> A v"
  shows "asks_only D A p"
  using assms(1) by (induction p arbitrary: n) (auto simp: assms(2))

lemma asks_only_lost: "asks_only D A p \<Longrightarrow> asks_only D A (vol_lost st p)"
  by (cases p) simp_all

text \<open>A DeleteVolume removes by the name of a volume that its uuid was looked up to.\<close>

definition asked ::
  "'w lvm_api \<Rightarrow> ('w \<Rightarrow> bool) \<Rightarrow> string \<Rightarrow> ctl_env \<Rightarrow> controller_call \<Rightarrow> vol_call \<Rightarrow> bool" where
  "asked L P rn E c v \<longleftrightarrow> permitted E c v \<and>
     (\<forall>q d. c = DeleteVolumeCall q \<longrightarrow> v = AskDelete d \<longrightarrow>
        (\<exists>lv. looked_up L P rn (Uuid (dvr_volume_id q)) lv \<and> dlr_name d = lv_name lv))"

abbreviation answered_from :: "'w lvm_api \<Rightarrow> ('w \<Rightarrow> bool) \<Rightarrow> string \<Rightarrow> get_lv_request \<Rightarrow> LV \<Rightarrow> bool" where
  "answered_from L P rn q lv \<equiv> (\<exists>i. glr_identifier q = Some i \<and> looked_up L P rn i lv)"

lemma asks_only_resume:
  assumes "asks_only (answered_from L P rn) A p" and "pending p = Some v" and "answers_of L P rn v out"
  shows "asks_only (answered_from L P rn) A (resume p (client_answer lost out))"
proof (cases out)
  case (Reply x)
  with assms show ?thesis by (cases p; cases x) auto
qed (use assms in \<open>auto simp: asks_only_lost\<close>)

lemma asks_only_serve: "asks_only (answered_from L P rn) (asked L P rn E c) (controller_serve E self c)"
proof (cases "\<exists>q. c = DeleteVolumeCall q")
  case True
  then show ?thesis
    by (auto simp: asks_only_map controller_rpc_eq delete_volume_def v_then_v_result v_fail_def
        asked_def result_ok_def split: sum.split option.split)
next
  case False
  show ?thesis by (rule conforms_asks_only [OF conforms_serve]) (use False in \<open>simp add: asked_def\<close>)
qed

text \<open>
  A handler in volumed belongs to a received RPC and to a call this RPC may make, writes
  only what this call asks for and answers what it has looked up.
\<close>

definition handler_ok ::
  "'w lvm_api \<Rightarrow> ('w \<Rightarrow> bool) \<Rightarrow> string \<Rightarrow> ctl_env \<Rightarrow> controller_call list \<Rightarrow> vol_call \<Rightarrow> orphan \<Rightarrow> bool" where
  "handler_ok L P rn E hs v t \<longleftrightarrow> fst t \<in> set hs \<and> asked L P rn E (fst t) v \<and>
     lvm_guarded L P (writes_of L P rn v) (answers_of L P rn v) (snd t)"

definition stack_task_ok ::
  "'w lvm_api \<Rightarrow> ('w \<Rightarrow> bool) \<Rightarrow> string \<Rightarrow> ctl_env \<Rightarrow> controller_call list \<Rightarrow> task \<Rightarrow> bool" where
  "stack_task_ok L P rn E hs t \<longleftrightarrow>
     (case t of (c, p, ho) \<Rightarrow> task_ok E hs (c, p) \<and>
        asks_only (answered_from L P rn) (asked L P rn E c) p \<and>
        (\<forall>h. ho = Some h \<longrightarrow> (\<exists>v. pending p = Some v \<and> handler_ok L P rn E hs v (c, h))))"

definition stack_ok ::
  "'w lvm_api \<Rightarrow> ('w \<Rightarrow> bool) \<Rightarrow> string \<Rightarrow> ctl_env \<Rightarrow> controller_call list \<Rightarrow> task list \<Rightarrow>
     orphan list \<Rightarrow> bool" where
  "stack_ok L P rn E hs ts os \<longleftrightarrow>
     (\<forall>t \<in> set ts. stack_task_ok L P rn E hs t) \<and> (\<forall>t \<in> set os. \<exists>v. handler_ok L P rn E hs v t)"

lemma handler_ok_more: "handler_ok L P rn E hs v t \<Longrightarrow> handler_ok L P rn E (hs @ [c]) v t"
  by (simp add: handler_ok_def)

lemma stack_task_ok_more: "stack_task_ok L P rn E hs t \<Longrightarrow> stack_task_ok L P rn E (hs @ [c]) t"
  by (auto simp: stack_task_ok_def task_ok_more handler_ok_more)

lemma stack_task_ok_new: "stack_task_ok L P rn E (hs @ [c]) (c, controller_serve E self c, None)"
  by (simp add: stack_task_ok_def task_ok_new asks_only_serve)

lemma stack_task_ok_send:
  assumes "lvm_laws L V" and "stack_task_ok L P rn E hs (c, p, None)" and "pending p = Some v"
  shows "stack_task_ok L P rn E hs (c, p, Some (serve_steps L cfg rn v))"
  using assms(2,3) serve_steps_guarded [OF assms(1)] asks_only_pending
  by (fastforce simp: stack_task_ok_def handler_ok_def task_ok_def)

lemma handler_ok_step:
  assumes "handler_ok L P rn E hs v (c, h)" and "lvm_step L h w h' w'" and "P w"
  shows "handler_ok L P rn E hs v (c, h') \<and>
    (w' = w \<or> (\<exists>a. c \<in> set hs \<and> asked L P rn E c v \<and> writes_of L P rn v a \<and> w' = lvm_written L a w))"
  using assms lvm_guarded_step [where P = P, OF assms(2) _ assms(3)] by (auto simp: handler_ok_def)

lemma conforms_resume: "conforms P Q p n \<Longrightarrow> conforms P Q (resume p r) n"
proof (cases "p = resume p r")
  case False
  assume c: "conforms P Q p n"
  with False have "conforms P Q (resume p r) (n - 1)"
    by (cases "(p, r)" rule: resume.cases) (auto intro: conforms_lost simp del: One_nat_def)
  then show ?thesis by (rule conforms_mono) simp_all
qed simp

lemma task_ok_resume: "task_ok E hs (c, p) \<Longrightarrow> task_ok E hs (c, resume p r)"
  by (simp add: task_ok_def conforms_resume)

lemma stack_task_ok_answer:
  "stack_task_ok L P rn E hs (c, p, Some (LvmRet out)) \<Longrightarrow>
     stack_task_ok L P rn E hs (c, resume p (client_answer lost out), None)"
  by (auto simp: stack_task_ok_def task_ok_resume handler_ok_def intro: asks_only_resume)

lemma stack_task_ok_lost:
  "stack_task_ok L P rn E hs (c, p, ho) \<Longrightarrow> stack_task_ok L P rn E hs (c, vol_lost st p, None)"
  by (simp add: stack_task_ok_def task_ok_lost asks_only_lost)

lemma left_behind_ok:
  "stack_task_ok L P rn E hs (c, p, ho) \<Longrightarrow> t \<in> set (left_behind c ho) \<Longrightarrow> \<exists>v. handler_ok L P rn E hs v t"
  by (cases ho) (auto simp: stack_task_ok_def)

lemma stack_step_more: "stack_step L cfg rn E self hs ts os w hs' ts' os' w' \<Longrightarrow> set hs \<subseteq> set hs'"
  by (induction rule: stack_step.induct) auto

text \<open>
  An invariant of LVM's state, which implies \<open>P\<close> in a state of the system, holds throughout when every write that a call
  of a received RPC asks for keeps it; the RPCs received are all in \<open>C\<close>.
\<close>

lemma stack_invariant [consumes 3, case_names start more reads other writes]:
  assumes "stack_run L cfg rn E env self w0 hs ts os w" and laws: "lvm_laws L V" and "set hs \<subseteq> C"
    and start: "I [] w0"
    and more: "\<And>hs c w. I hs w \<Longrightarrow> I (hs @ [c]) w"
    and P: "\<And>hs ts os w. stack_run L cfg rn E env self w0 hs ts os w \<Longrightarrow> I hs w \<Longrightarrow> P w"
    and other: "\<And>hs w w'. I hs w \<Longrightarrow> env w w' \<Longrightarrow> I hs w'"
    and wr: "\<And>hs c v a w. I hs w \<Longrightarrow> c \<in> set hs \<Longrightarrow> c \<in> C \<Longrightarrow> asked L P rn E c v \<Longrightarrow>
      writes_of L P rn v a \<Longrightarrow> I hs (lvm_written L a w)"
  shows "I hs w \<and> stack_ok L P rn E hs ts os"
  using assms(1,3)
proof (induction rule: stack_run.induct)
  case stack_start
  then show ?case by (simp add: start stack_ok_def)
next
  case (stack_move hs ts os w hs' ts' os' w')
  then have I: "I hs w" and ok: "stack_ok L P rn E hs ts os" and C: "set hs \<subseteq> C"
    using stack_step_more [OF stack_move(2)] by auto
  note wr = wr [OF I _ subsetD [OF C]]
  from stack_move(2) show ?case
  proof (cases rule: stack_step.cases)
    case (stack_arrive c)
    with I ok show ?thesis
      by (auto simp: stack_ok_def more stack_task_ok_new stack_task_ok_more) (blast dest: handler_ok_more)
  next
    case (stack_send p v xs c ys)
    with I ok show ?thesis using stack_task_ok_send [OF laws] by (auto simp: stack_ok_def)
  next
    case (stack_work h h' xs c p ys)
    with ok have t: "stack_task_ok L P rn E hs (c, p, Some h)" by (simp add: stack_ok_def)
    then obtain v where v: "pending p = Some v" "handler_ok L P rn E hs v (c, h)"
      by (auto simp: stack_task_ok_def)
    note moved = handler_ok_step [OF v(2) stack_work(5) P [OF stack_move(1) I]]
    with t v(1) have "stack_task_ok L P rn E hs (c, p, Some h')" by (simp add: stack_task_ok_def)
    with moved stack_work ok I wr show ?thesis by (auto simp: stack_ok_def)
  next
    case (stack_answer xs c p out ys lost)
    with I ok show ?thesis by (auto simp: stack_ok_def intro: stack_task_ok_answer)
  next
    case (stack_give_up xs c p ho ys st)
    with I ok show ?thesis by (auto simp: stack_ok_def intro: stack_task_ok_lost dest: left_behind_ok)
  next
    case (stack_drop xs c p ho ys)
    with I ok show ?thesis by (auto simp: stack_ok_def dest: left_behind_ok)
  next
    case (stack_orphan h h' xs c ys)
    with ok obtain v where v: "handler_ok L P rn E hs v (c, h)" by (auto simp: stack_ok_def)
    from handler_ok_step [OF v stack_orphan(5) P [OF stack_move(1) I]] stack_orphan ok I wr
    show ?thesis by (auto simp: stack_ok_def)
  next
    case (stack_orphan_end xs c h ys)
    with I ok show ?thesis by (auto simp: stack_ok_def)
  qed
next
  case (stack_other hs ts os w w')
  then show ?case using other by blast
qed

section \<open>The calls of the plugin\<close>

text \<open>
  What a call for volumed may be in a state in which the RPCs \<open>hs\<close> have been received, \<open>D q lv\<close>
  saying that \<open>lv\<close> was found for the DeleteVolume \<open>q\<close>.
\<close>

fun call_for :: "ctl_env \<Rightarrow> (delete_volume_request \<Rightarrow> string \<Rightarrow> bool) \<Rightarrow> controller_call \<Rightarrow> vol_call \<Rightarrow> bool" where
  "call_for E D c AskLvList = (\<exists>q. c = ListVolumesCall q)"
| "call_for E D c AskFreeBytes =
     (c = ProbeCall \<or> (\<exists>q. c = GetCapacityCall q) \<or> (\<exists>q. c = CreateVolumeCall q))"
| "call_for E D c (AskCreate cq) =
     (\<exists>q. c = CreateVolumeCall q \<and> cvr_name q \<noteq> [] \<and> clr_name cq = hash_resource E (cvr_name q) \<and>
        hex_name (clr_name cq) \<and> length (clr_name cq) \<le> 16 \<and> sized q (clr_capacity cq) \<and>
        512 * 1024 * 1024 \<le> unat (clr_capacity cq) \<and> unat (clr_capacity cq) < 2 ^ 63 \<and>
        clr_tags cq = [''name='' @ cvr_name q])"
| "call_for E D c (AskFormat f) =
     (\<exists>q. c = CreateVolumeCall q \<and> flr_name f = hash_resource E (cvr_name q) \<and>
        hex_name (flr_name f) \<and> length (flr_name f) \<le> 16)"
| "call_for E D c (AskLv g) =
     ((\<exists>q. c = CreateVolumeCall q \<and> glr_identifier g = Some (Name (hash_resource E (cvr_name q)))) \<or>
      (\<exists>q. c = DeleteVolumeCall q \<and> dvr_volume_id q \<noteq> [] \<and> glr_identifier g = Some (Uuid (dvr_volume_id q))) \<or>
      (\<exists>q. c = ValidateCall q \<and> val_volume_id q \<noteq> [] \<and> glr_identifier g = Some (Uuid (val_volume_id q))))"
| "call_for E D c (AskDelete d) =
     (\<exists>q. c = DeleteVolumeCall q \<and> dvr_volume_id q \<noteq> [] \<and> D q (dlr_name d))"

lemma asked_call_for:
  assumes "asked L P rn E c v"
    and "\<And>q lv. looked_up L P rn (Uuid (dvr_volume_id q)) lv \<Longrightarrow> D q (lv_name lv)"
  shows "call_for E D c v"
proof -
  from assms(1) have perm: "permitted E c v" by (simp add: asked_def)
  show ?thesis
  proof (cases v)
    case (AskCreate cq)
    with perm obtain q where q: "c = CreateVolumeCall q" "sized q (clr_capacity cq)"
      by (auto elim: permitted_createE)
    with perm AskCreate sized_bounds [OF q(2)] show ?thesis
      by (simp add: hash_resource_hex hash_resource_length)
  next
    case (AskDelete d)
    with perm obtain q where q: "c = DeleteVolumeCall q" "dvr_volume_id q \<noteq> []" by (auto elim: permitted_deleteE)
    with AskDelete assms obtain lv where "looked_up L P rn (Uuid (dvr_volume_id q)) lv" "dlr_name d = lv_name lv"
      by (auto simp: asked_def)
    with q AskDelete assms(2) show ?thesis by auto
  qed (use perm in \<open>cases c; auto simp: hash_resource_hex hash_resource_length\<close>)+
qed

text \<open>C18: in every reachable state of the controller plugin and volumed, whatever RPCs arrive, however
  the plugin's handlers and single LVM commands interleave, and whatever is lost: each call a
  handler awaits serves an RPC that has been received.  A volume is created or formatted only
  for a CreateVolume, under the hash of its name, which has at most 16 hexadecimal digits, with
  the requested size, 512 MiB or more; lookups go by that hash or by the nonempty uuid of the
  request; and a delete goes, for a DeleteVolume, by the name of a volume that had the uuid of
  the request in some state the system can reach.\<close>

theorem controller_requests_typed:
  assumes laws: "lvm_laws L V" and run: "stack_run L cfg rn E env self w0 hs ts os w"
    and task: "(c, p, ho) \<in> set ts" and pending: "pending p = Some v"
  shows "c \<in> set hs \<and>
    call_for E (\<lambda>q n. \<exists>hs' ts' os' w' g l. stack_run L cfg rn E env self w0 hs' ts' os' w' \<and>
      obs_lv V w' g n = Some l \<and> lvl_uuid l = dvr_volume_id q) c v"
proof -
  let ?P = "\<lambda>w. \<exists>hs ts os. stack_run L cfg rn E env self w0 hs ts os w"
  have "True \<and> stack_ok L ?P rn E hs ts os"
    using run laws subset_UNIV by (induction rule: stack_invariant [where I = "\<lambda>_ _. True"]) auto
  with task have ok: "stack_task_ok L ?P rn E hs (c, p, ho)" by (simp add: stack_ok_def)
  then have c: "c \<in> set hs" and asks: "asked L ?P rn E c v"
    using pending asks_only_pending by (fastforce simp: stack_task_ok_def task_ok_def)+
  have "\<exists>hs' ts' os' w' g l. stack_run L cfg rn E env self w0 hs' ts' os' w' \<and>
      obs_lv V w' g (lv_name lv) = Some l \<and> lvl_uuid l = u" if found: "looked_up L ?P rn (Uuid u) lv" for u lv
  proof -
    from found obtain w' l u' where "?P w'" "lv = lv_into l" "resource_uuid L u = Inr u'" "lv_from_uuid L u' w' = Inr l"
      unfolding looked_up_def lv_identifier.case by blast
    with lvm_uuid [OF laws] lvm_by_uuid [OF laws] have "?P w'" "lvl_uuid l = u"
      "obs_lv V w' (lvl_volume_group_name l) (lv_name lv) = Some l" by auto
    then show ?thesis by blast
  qed
  with c asked_call_for [OF asks] show ?thesis by simp
qed

text \<open>A DeleteVolume that has looked its volume up.\<close>

theorem controller_requests_typed_witness:
  "\<exists>hs ts os w g l. stack_run mem_lvm ex_cfg ''vg0'' ex_env (=) ex_ctl (ex_group [ex_lv, ex_extra]) hs ts os w \<and>
     obs_lv mem_obs w g ''3'' = Some l \<and> lvl_uuid l = ''uuid-0''"
proof -
  let ?d = "DeleteVolumeCall \<lparr>dvr_volume_id = ''uuid-0''\<rparr>"
  let ?w = "ex_group [ex_lv, ex_extra]"
  obtain p where sched: "vol_sched ex_server [0] (map (controller_serve ex_env ex_ctl) [?d]) ?w = ([p], ?w)"
    and pending: "pending p = Some (AskDelete \<lparr>dlr_name = ''3''\<rparr>)"
    using ex_group_calls(1) by (simp add: controller_rpc_eq delete_volume_def v_then_v_result ex_lv_def)
  have "stack_run mem_lvm ex_cfg ''vg0'' ex_env (=) ex_ctl ?w [?d] (idle (zip [?d] [p])) [] ?w"
    by (rule coarse_runs_are_fine_aux [OF run_sched [OF sched]])
  from controller_requests_typed [OF mem_laws this _ pending] show ?thesis
    by (auto simp del: mem_obs_simps)
qed

section \<open>The volumes\<close>

text \<open>What a write does to the volumes of all groups.\<close>

lemma write_effect:
  assumes laws: "lvm_laws L V" and "permitted E c v" and "writes_of L P rn v a"
  shows "obs_lv V (lvm_written L a w) = obs_lv V w \<or>
    (\<exists>q cq l. c = CreateVolumeCall q \<and> v = AskCreate cq \<and> obs_lv V w rn (clr_name cq) = None \<and>
       obs_lv V (lvm_written L a w) = (obs_lv V w)(rn := (obs_lv V w rn)(clr_name cq \<mapsto> l)) \<and>
       clr_capacity cq \<le> lvl_capacity_bytes l) \<or>
    (\<exists>q d. c = DeleteVolumeCall q \<and> v = AskDelete d \<and>
       obs_lv V (lvm_written L a w) = (obs_lv V w)(rn := (obs_lv V w rn)(dlr_name d := None)))"
proof (cases v)
  case (AskCreate cq)
  with assms(2) obtain q where q: "c = CreateVolumeCall q" by (auto elim: permitted_createE)
  from AskCreate assms(3) obtain vg opt where a: "a = AddVolume vg opt" "vg_name vg = rn"
    "opt_name opt = clr_name cq" "opt_capacity_bytes opt = clr_capacity cq" by auto
  obtain r u where add: "vg_add_lv L vg opt w = (r, u)" by fastforce
  show ?thesis
  proof (cases r)
    case (Inl e)
    with add lvm_add_err [OF laws] a show ?thesis by auto
  next
    case (Inr l)
    with add lvm_add_ok [OF laws, of vg opt w l u] a q AskCreate show ?thesis by auto
  qed
next
  case (AskDelete d)
  with assms(2) obtain q where q: "c = DeleteVolumeCall q" by (auto elim: permitted_deleteE)
  from AskDelete assms(3) obtain vg where a: "a = RemoveVolume vg (dlr_name d)" "vg_name vg = rn"
    by auto
  obtain r u where rem: "vg_remove_lv L vg (dlr_name d) w = (r, u)" by fastforce
  show ?thesis
  proof (cases r)
    case (Inl e)
    with rem lvm_remove_err [OF laws] a show ?thesis by auto
  next
    case (Inr x)
    with rem lvm_remove_ok [OF laws, of vg "dlr_name d" w x u] a q AskDelete show ?thesis by auto
  qed
next
  case (AskFormat f)
  with assms(3) obtain p where a: "a = MakeFs p" by auto
  obtain r u where "mkfs_xfs L p w = (r, u)" by fastforce
  with a lvm_mkfs [OF laws] show ?thesis by auto
qed (use assms(3) in auto)

definition volumes_accounted ::
  "'w lvm_observers \<Rightarrow> string \<Rightarrow> ctl_env \<Rightarrow> 'w \<Rightarrow> controller_call list \<Rightarrow> 'w \<Rightarrow> bool" where
  "volumes_accounted V rn E w0 hs w \<longleftrightarrow>
     (\<forall>n lv. vol_view V rn w n = Some lv \<longrightarrow> vol_view V rn w0 n = Some lv \<or> accounted E hs n lv) \<and>
     (vol_view V rn w0 \<subseteq>\<^sub>m vol_view V rn w \<or> (\<exists>q. DeleteVolumeCall q \<in> set hs)) \<and>
     (\<forall>g. g \<noteq> rn \<longrightarrow> obs_lv V w g = obs_lv V w0 g)"

lemma volumes_accounted_more: "volumes_accounted V rn E w0 hs w \<Longrightarrow> volumes_accounted V rn E w0 (hs @ [c]) w"
  by (auto simp: volumes_accounted_def accounted_def)

lemma volumes_accounted_write:
  assumes laws: "lvm_laws L V" and inv: "volumes_accounted V rn E w0 hs w" and c: "c \<in> set hs"
    and perm: "permitted E c v" and wr: "writes_of L P rn v a"
  shows "volumes_accounted V rn E w0 hs (lvm_written L a w)"
proof -
  let ?w = "lvm_written L a w"
  consider (same) "obs_lv V ?w = obs_lv V w"
    | (create) q cq l where "c = CreateVolumeCall q" "v = AskCreate cq" "obs_lv V w rn (clr_name cq) = None"
        "obs_lv V ?w = (obs_lv V w)(rn := (obs_lv V w rn)(clr_name cq \<mapsto> l))"
        "clr_capacity cq \<le> lvl_capacity_bytes l"
    | (delete) q d where "c = DeleteVolumeCall q" "v = AskDelete d"
        "obs_lv V ?w = (obs_lv V w)(rn := (obs_lv V w rn)(dlr_name d := None))"
    using write_effect [OF laws perm wr, of w] by blast
  then show ?thesis
  proof cases
    case same
    then have "vol_view V rn ?w = vol_view V rn w" by (simp add: vol_view_def fun_eq_iff)
    with same inv show ?thesis by (simp add: volumes_accounted_def)
  next
    case create
    with c perm have acc: "accounted E hs (clr_name cq) (lv_into l)" by (auto simp: accounted_def)
    from create have view: "vol_view V rn ?w = (vol_view V rn w)(clr_name cq \<mapsto> lv_into l)"
      "vol_view V rn w (clr_name cq) = None" by (auto simp: vol_view_def)
    then have "vol_view V rn w0 \<subseteq>\<^sub>m vol_view V rn ?w" if "vol_view V rn w0 \<subseteq>\<^sub>m vol_view V rn w"
      using that by (auto simp: map_le_def dom_def)
    with inv acc view create(4) show ?thesis by (auto simp: volumes_accounted_def)
  next
    case delete
    then have "vol_view V rn ?w = (vol_view V rn w)(dlr_name d := None)" by (auto simp: vol_view_def)
    with inv delete c show ?thesis by (auto simp: volumes_accounted_def)
  qed
qed

lemma volumes_accounted_same:
  assumes "volumes_accounted V rn E w0 hs w" and "obs_lv V w' = obs_lv V w"
  shows "volumes_accounted V rn E w0 hs w'"
proof -
  from assms(2) have "vol_view V rn w' = vol_view V rn w" by (simp add: vol_view_def fun_eq_iff)
  with assms show ?thesis by (simp add: volumes_accounted_def)
qed

lemma stack_accounts:
  assumes "lvm_laws L V" and "stack_run L cfg rn E env self w0 hs ts os w"
    and env: "\<And>w w'. env w w' \<Longrightarrow> obs_lv V w' = obs_lv V w"
  shows "volumes_accounted V rn E w0 hs w \<and> stack_ok L (\<lambda>_. True) rn E hs ts os"
  using assms(2,1) subset_UNIV
proof (induction rule: stack_invariant)
  case start
  then show ?case by (simp add: volumes_accounted_def)
next
  case (other hs w w')
  show ?case by (rule volumes_accounted_same [OF other(1) env [OF other(2)]])
next
  case (writes hs c v a w)
  with volumes_accounted_write [OF assms(1)] show ?case by (auto simp: asked_def)
qed (simp_all add: volumes_accounted_more)

text \<open>A request that is no DeleteVolume of the uuid of a volume named \<open>n\<close>, in any group.\<close>

definition deletes_no :: "'w lvm_observers \<Rightarrow> 'w \<Rightarrow> string \<Rightarrow> controller_call \<Rightarrow> bool" where
  "deletes_no V w0 n c \<longleftrightarrow>
     (\<forall>q g l. c = DeleteVolumeCall q \<longrightarrow> obs_lv V w0 g n = Some l \<longrightarrow> lvl_uuid l \<noteq> dvr_volume_id q)"

lemma asked_delete_other_name:
  assumes laws: "lvm_laws L V" and no: "deletes_no V w0 n c" and asked: "asked L P rn E c (AskDelete d)"
    and same: "\<And>u g. P u \<Longrightarrow> obs_lv V u g n = obs_lv V w0 g n"
  shows "dlr_name d \<noteq> n"
proof
  assume n: "dlr_name d = n"
  from asked obtain q where q: "c = DeleteVolumeCall q" by (auto simp: asked_def elim: permitted_deleteE)
  with n asked obtain lv where "looked_up L P rn (Uuid (dvr_volume_id q)) lv" "lv_name lv = n"
    by (auto simp: asked_def)
  then obtain w l u where "P w" "lvl_name l = n" "resource_uuid L (dvr_volume_id q) = Inr u"
    "lv_from_uuid L u w = Inr l"
    by (auto simp: looked_up_def)
  with lvm_uuid [OF laws] lvm_by_uuid [OF laws] same
  have "obs_lv V w0 (lvl_volume_group_name l) n = Some l" "lvl_uuid l = dvr_volume_id q" by metis+
  with q no show False by (auto simp: deletes_no_def)
qed

lemma volume_kept:
  assumes laws: "lvm_laws L V" and run: "stack_run L cfg rn E env self w0 hs ts os w"
    and env: "\<And>w w'. env w w' \<Longrightarrow> obs_lv V w' = obs_lv V w"
    and present: "obs_lv V w0 rn n \<noteq> None" and no: "\<And>c. c \<in> set hs \<Longrightarrow> deletes_no V w0 n c"
  shows "\<forall>g. obs_lv V w g n = obs_lv V w0 g n"
proof -
  let ?P = "\<lambda>w. \<forall>g. obs_lv V w g n = obs_lv V w0 g n"
  have calls: "set hs \<subseteq> {c. deletes_no V w0 n c}" using no by blast
  have "?P w \<and> stack_ok L ?P rn E hs ts os"
    using run laws calls
  proof (induction rule: stack_invariant [where I = "\<lambda>_ w. ?P w"])
    case (other hs w w')
    with env show ?case by simp
  next
    case (writes hs c v a w)
    then have perm: "permitted E c v" by (simp add: asked_def)
    have "deletes_no V w0 n c" using writes by simp
    then have "dlr_name d \<noteq> n" if "v = AskDelete d" for d
      using asked_delete_other_name [OF laws _ writes(4) [unfolded that]] by simp
    with write_effect [OF laws perm writes(5), of w] writes(1) present show ?case by auto
  qed simp_all
  then show ?thesis by simp
qed

text \<open>C2: in every reachable state of the controller plugin and volumed, whatever RPCs arrive,
  however the plugin's handlers and the single LVM commands of volumed's handlers interleave,
  whatever calls are given up, whatever handlers run on without a client and whatever other
  programs do that leave the logical volumes as they are: a volume of the
  managed group was there at the start or is one of the hashed name and at least the size,
  512 MiB or more, of a received CreateVolume; no volume of the start is gone or changed unless
  a DeleteVolume of the uuid of a volume with its name, in this or another group, has been
  received; the other volume groups are as they were; no handler of volumed panics, and none
  of the plugin but ListVolumes with overflow checks.\<close>

theorem commands_accounted:
  assumes laws: "lvm_laws L V"
    and env: "\<And>w w'. env w w' \<Longrightarrow> obs_lv V w' = obs_lv V w"
    and run: "stack_run L cfg rn E env self w0 hs ts os w"
  shows "(\<forall>n lv. vol_view V rn w n = Some lv \<longrightarrow>
      vol_view V rn w0 n = Some lv \<or> accounted E hs n lv) \<and>
    (\<forall>n lv. vol_view V rn w0 n = Some lv \<longrightarrow> vol_view V rn w n = Some lv \<or>
      (\<exists>q g l. DeleteVolumeCall q \<in> set hs \<and> obs_lv V w0 g n = Some l \<and> lvl_uuid l = dvr_volume_id q)) \<and>
    (\<forall>g. g \<noteq> rn \<longrightarrow> obs_lv V w g = obs_lv V w0 g) \<and>
    (\<forall>c p. (c, p, Some (LvmRet Panic)) \<notin> set ts) \<and> (\<forall>c. (c, LvmRet Panic) \<notin> set os) \<and>
    (\<forall>c ho. (c, VRet Panic, ho) \<in> set ts \<longrightarrow> overflow_checks E \<and> (\<exists>q. c = ListVolumesCall q))"
proof -
  from stack_accounts [OF laws run env] have ok: "stack_ok L (\<lambda>_. True) rn E hs ts os"
    and acc: "volumes_accounted V rn E w0 hs w" by simp_all
  have "may_panic E c" if "(c, VRet Panic, ho) \<in> set ts" for c ho
    using ok that by (fastforce simp: stack_ok_def stack_task_ok_def task_ok_def)
  then have "\<forall>c ho. (c, VRet Panic, ho) \<in> set ts \<longrightarrow> overflow_checks E \<and> (\<exists>q. c = ListVolumesCall q)"
    by (auto simp: may_panic_def)
  moreover have "\<forall>c p. (c, p, Some (LvmRet Panic)) \<notin> set ts" "\<forall>c. (c, LvmRet Panic) \<notin> set os"
    using ok by (fastforce simp: stack_ok_def stack_task_ok_def handler_ok_def)+
  moreover have "vol_view V rn w n = Some lv"
    if "vol_view V rn w0 n = Some lv" "\<And>c. c \<in> set hs \<Longrightarrow> deletes_no V w0 n c" for n lv
    using volume_kept [OF laws run env _ that(2)] that(1) by (auto simp: vol_view_def)
  then have "\<forall>n lv. vol_view V rn w0 n = Some lv \<longrightarrow> vol_view V rn w n = Some lv \<or>
      (\<exists>q g l. DeleteVolumeCall q \<in> set hs \<and> obs_lv V w0 g n = Some l \<and> lvl_uuid l = dvr_volume_id q)"
    unfolding deletes_no_def by blast
  ultimately show ?thesis using acc unfolding volumes_accounted_def by blast
qed

theorem commands_accounted_witness:
  "ex_view ex_done ''3'' = Some (lv_into ex_lv) \<and> ex_view ex_empty ''3'' = None \<and>
   accounted ex_env [ex_request] ''3'' (lv_into ex_lv)"
proof -
  have "ex_view ex_done ''3'' = Some (lv_into ex_lv)"
    by (simp add: vol_view_def mem_find_def ex_made_def ex_lv_def)
  then show ?thesis
    using commands_accounted [OF mem_laws _ coarse_runs_are_fine_aux [where env = "(=)",
        OF run_sched [OF ex_request_alone]]] by simp
qed

text \<open>The same for the system in which volumed serves each call in one piece.\<close>

lemma managed_group_accounted:
  assumes laws: "lvm_laws L V"
    and run: "plugin_run (volumed_server lost L cfg rn) E self w0 hs ts w"
  shows "(\<forall>n lv. vol_view V rn w n = Some lv \<longrightarrow>
      vol_view V rn w0 n = Some lv \<or> accounted E hs n lv) \<and>
    (vol_view V rn w0 \<subseteq>\<^sub>m vol_view V rn w \<or> (\<exists>q. DeleteVolumeCall q \<in> set hs)) \<and>
    (\<forall>g. g \<noteq> rn \<longrightarrow> obs_lv V w g = obs_lv V w0 g) \<and>
    (\<forall>c. (c, VRet Panic) \<in> set ts \<longrightarrow> overflow_checks E \<and> (\<exists>q. c = ListVolumesCall q))"
proof -
  have "may_panic E c" if "(c, VRet Panic) \<in> set ts" for c
    using run_tasks_ok [OF run] that by (fastforce simp: task_ok_def)
  then show ?thesis
    using stack_accounts [OF laws coarse_runs_are_fine_aux [where env = "(=)", OF run]]
    by (auto simp: volumes_accounted_def may_panic_def)
qed

end
