(* ===== verification/Volume_Data.thy ===== *)
theory Volume_Data
  imports Volumed_Interleaving
begin

text \<open>
  What the controller plugin and volumed leave alone: a volume, and the data other programs keep
  on it, under every interleaving of single LVM commands, as long as no request names it; and
  the format of a call that was given up, which comes late and erases a volume in use.
\<close>

section \<open>The data on the volumes\<close>

text \<open>
  What LVM documents of devices: each volume of the group has a device file of its own, which
  its name gives; a command touches the data of the volume it names only, and mkfs the data of
  its device.
\<close>

definition lvm_devices ::
  "'w lvm_api \<Rightarrow> 'w lvm_observers \<Rightarrow> string \<Rightarrow> (string \<Rightarrow> string) \<Rightarrow> bool" where
  "lvm_devices L V rn dev \<longleftrightarrow> inj dev \<and>
     (\<forall>vg opt w lv w'. vg_add_lv L vg opt w = (Inr lv, w') \<longrightarrow> vg_name vg = rn \<longrightarrow>
        lvl_path lv = dev (opt_name opt)) \<and>
     (\<forall>vg opt w r w' d. vg_add_lv L vg opt w = (r, w') \<longrightarrow> vg_name vg = rn \<longrightarrow> d \<noteq> dev (opt_name opt) \<longrightarrow>
        obs_files V w' d = obs_files V w d) \<and>
     (\<forall>vg n w r w' d. vg_remove_lv L vg n w = (r, w') \<longrightarrow> vg_name vg = rn \<longrightarrow> d \<noteq> dev n \<longrightarrow>
        obs_files V w' d = obs_files V w d) \<and>
     (\<forall>p w r w' d. mkfs_xfs L p w = (r, w') \<longrightarrow> d \<noteq> p \<longrightarrow> obs_files V w' d = obs_files V w d)"

definition devices_fit :: "'w lvm_observers \<Rightarrow> string \<Rightarrow> (string \<Rightarrow> string) \<Rightarrow> 'w \<Rightarrow> bool" where
  "devices_fit V rn dev w \<longleftrightarrow> (\<forall>n lv. obs_lv V w rn n = Some lv \<longrightarrow> lvl_path lv = dev n)"

lemma lvm_devices_rules:
  assumes "lvm_devices L V rn dev"
  shows devices_inj: "inj dev"
    and devices_add: "vg_add_lv L vg opt w = (Inr lv, w') \<Longrightarrow> vg_name vg = rn \<Longrightarrow>
      lvl_path lv = dev (opt_name opt)"
    and devices_add_files: "vg_add_lv L vg opt w = (ra, w') \<Longrightarrow> vg_name vg = rn \<Longrightarrow>
      d \<noteq> dev (opt_name opt) \<Longrightarrow> obs_files V w' d = obs_files V w d"
    and devices_remove_files: "vg_remove_lv L vg n w = (rr, w') \<Longrightarrow> vg_name vg = rn \<Longrightarrow>
      d \<noteq> dev n \<Longrightarrow> obs_files V w' d = obs_files V w d"
    and devices_mkfs_files: "mkfs_xfs L p w = (rm, w') \<Longrightarrow> d \<noteq> p \<Longrightarrow> obs_files V w' d = obs_files V w d"
  using assms unfolding lvm_devices_def by - (elim conjE, simp; blast)+

lemma devices_fit_write:
  assumes laws: "lvm_laws L V" "lvm_devices L V rn dev" and fit: "devices_fit V rn dev w"
    and wr: "writes_of L P rn v a"
  shows "devices_fit V rn dev (lvm_written L a w)"
proof (cases v)
  case (AskCreate cq)
  with wr obtain vg opt where a: "a = AddVolume vg opt" "vg_name vg = rn" by auto
  obtain r u where add: "vg_add_lv L vg opt w = (r, u)" by fastforce
  show ?thesis
  proof (cases r)
    case (Inl e)
    with add a lvm_add_err [OF laws(1)] fit show ?thesis by (simp add: devices_fit_def)
  next
    case (Inr l)
    with add a lvm_add_ok [OF laws(1), of vg opt w l u] devices_add [OF laws(2), of vg opt w l u] fit
    show ?thesis by (auto simp: devices_fit_def)
  qed
next
  case (AskDelete d)
  with wr obtain vg where a: "a = RemoveVolume vg (dlr_name d)" "vg_name vg = rn" by auto
  obtain r u where rem: "vg_remove_lv L vg (dlr_name d) w = (r, u)" by fastforce
  show ?thesis
  proof (cases r)
    case (Inl e)
    with rem a lvm_remove_err [OF laws(1)] fit show ?thesis by (simp add: devices_fit_def)
  next
    case (Inr x)
    with rem a lvm_remove_ok [OF laws(1), of vg "dlr_name d" w x u] fit
    show ?thesis by (auto simp: devices_fit_def)
  qed
next
  case (AskFormat f)
  with wr obtain p where a: "a = MakeFs p" by auto
  obtain r u where "mkfs_xfs L p w = (r, u)" by fastforce
  with a lvm_mkfs [OF laws(1)] fit show ?thesis by (auto simp: devices_fit_def)
qed (use wr in auto)

text \<open>The volume a writing call names; no other volume, nor its data, is reached.\<close>

fun named_volume :: "vol_call \<Rightarrow> string option" where
  "named_volume (AskCreate q) = Some (clr_name q)"
| "named_volume (AskDelete q) = Some (dlr_name q)"
| "named_volume (AskFormat q) = Some (flr_name q)"
| "named_volume v = None"

lemma volume_write:
  assumes laws: "lvm_laws L V" and wr: "writes_of L P rn v a" and other: "named_volume v \<noteq> Some n"
  shows "obs_lv V (lvm_written L a w) g n = obs_lv V w g n"
proof (cases v)
  case (AskCreate cq)
  with wr obtain vg opt where a: "a = AddVolume vg opt" "opt_name opt = clr_name cq" by auto
  obtain r u where "vg_add_lv L vg opt w = (r, u)" by fastforce
  with a other AskCreate lvm_add_err [OF laws] lvm_add_ok [OF laws, of vg opt w _ u] show ?thesis
    by (cases r) auto
next
  case (AskDelete d)
  with wr obtain vg where a: "a = RemoveVolume vg (dlr_name d)" by auto
  obtain r u where "vg_remove_lv L vg (dlr_name d) w = (r, u)" by fastforce
  with a other AskDelete lvm_remove_err [OF laws] lvm_remove_ok [OF laws, of vg "dlr_name d" w _ u]
  show ?thesis by (cases r) auto
next
  case (AskFormat f)
  with wr obtain p where a: "a = MakeFs p" by auto
  obtain r u where "mkfs_xfs L p w = (r, u)" by fastforce
  with a lvm_mkfs [OF laws] show ?thesis by simp
qed (use wr in auto)

lemma files_write:
  assumes laws: "lvm_laws L V" "lvm_devices L V rn dev" and P: "\<And>u. P u \<Longrightarrow> devices_fit V rn dev u"
    and wr: "writes_of L P rn v a" and other: "named_volume v \<noteq> Some n"
  shows "obs_files V (lvm_written L a w) (dev n) = obs_files V w (dev n)"
proof (cases v)
  case (AskCreate cq)
  with other have dev: "dev n \<noteq> dev (clr_name cq)" using devices_inj [OF laws(2)] by (auto dest: injD)
  from AskCreate wr obtain vg opt where a: "a = AddVolume vg opt" "vg_name vg = rn"
    "opt_name opt = clr_name cq" by auto
  obtain r u where "vg_add_lv L vg opt w = (r, u)" by fastforce
  with devices_add_files [OF laws(2) this a(2)] dev a show ?thesis by simp
next
  case (AskDelete d)
  with other have dev: "dev n \<noteq> dev (dlr_name d)" using devices_inj [OF laws(2)] by (auto dest: injD)
  from AskDelete wr obtain vg where a: "a = RemoveVolume vg (dlr_name d)" "vg_name vg = rn" by auto
  obtain r u where "vg_remove_lv L vg (dlr_name d) w = (r, u)" by fastforce
  with devices_remove_files [OF laws(2) this a(2)] dev a show ?thesis by simp
next
  case (AskFormat f)
  with other have dev: "dev n \<noteq> dev (flr_name f)" using devices_inj [OF laws(2)] by (auto dest: injD)
  from AskFormat wr P obtain lv u where a: "a = MakeFs (lvl_path lv)" "devices_fit V rn dev u"
    "lv_from_id L rn (flr_name f) u = Inr lv" by auto
  with lvm_found [OF laws(1)] have p: "lvl_path lv = dev (flr_name f)" by (auto simp: devices_fit_def)
  obtain r t where "mkfs_xfs L (lvl_path lv) w = (r, t)" by fastforce
  with devices_mkfs_files [OF laws(2) this, of "dev n"] dev p a show ?thesis by simp
qed (use wr in auto)

text \<open>
  The requests that leave the volume \<open>n\<close> alone: no CreateVolume whose name has it as its hash,
  and no DeleteVolume of the uuid of a volume of this name, in any group.
\<close>

definition spares :: "'w lvm_observers \<Rightarrow> 'w \<Rightarrow> ctl_env \<Rightarrow> string \<Rightarrow> controller_call \<Rightarrow> bool" where
  "spares V w0 E n c \<longleftrightarrow>
     (\<forall>q. c = CreateVolumeCall q \<longrightarrow> hash_resource E (cvr_name q) \<noteq> n) \<and>
     deletes_no V w0 n c"

lemma spares_other_name:
  assumes laws: "lvm_laws L V" and spares: "spares V w0 E n c" and asked: "asked L P rn E c v"
    and same: "\<And>u g. P u \<Longrightarrow> obs_lv V u g n = obs_lv V w0 g n"
  shows "named_volume v \<noteq> Some n"
proof
  assume n: "named_volume v = Some n"
  then consider (create) cq where "v = AskCreate cq" "clr_name cq = n"
    | (format) f where "v = AskFormat f" "flr_name f = n"
    | (delete) d where "v = AskDelete d" "dlr_name d = n"
    by (cases v) auto
  then show False
  proof cases
    case create
    with asked spares show False by (auto simp: asked_def spares_def elim!: permitted_writeE)
  next
    case format
    with asked spares show False by (auto simp: asked_def spares_def elim!: permitted_writeE)
  next
    case delete
    with asked_delete_other_name [OF laws _ asked [unfolded delete(1)] same] spares
    show False by (simp add: spares_def)
  qed
qed

lemma stack_data:
  assumes laws: "lvm_laws L V" "lvm_devices L V rn dev" and fit: "devices_fit V rn dev w0"
    and run: "stack_run L cfg rn E env self w0 hs ts os w"
    and env: "\<And>w w'. env w w' \<Longrightarrow> obs_lv V w' = obs_lv V w"
      "\<And>w w'. env w w' \<Longrightarrow> R (obs_files V w (dev n)) \<Longrightarrow> R (obs_files V w' (dev n))"
    and data: "R (obs_files V w0 (dev n))" and spares: "\<And>c. c \<in> set hs \<Longrightarrow> spares V w0 E n c"
  shows "devices_fit V rn dev w \<and> (\<forall>g. obs_lv V w g n = obs_lv V w0 g n) \<and> R (obs_files V w (dev n))"
proof -
  let ?P = "\<lambda>w. devices_fit V rn dev w \<and> (\<forall>g. obs_lv V w g n = obs_lv V w0 g n)"
  have calls: "set hs \<subseteq> {c. spares V w0 E n c}" using spares by blast
  have "(?P w \<and> R (obs_files V w (dev n))) \<and> stack_ok L ?P rn E hs ts os"
    using run laws(1) calls
  proof (induction rule: stack_invariant [where I = "\<lambda>_ w. ?P w \<and> R (obs_files V w (dev n))"])
    case start
    then show ?case using fit data by simp
  next
    case (other hs w w')
    with env show ?case by (auto simp: devices_fit_def)
  next
    case (writes hs c v a w)
    then have wr: "writes_of L ?P rn v a" and "spares V w0 E n c" "asked L ?P rn E c v" by simp_all
    from spares_other_name [OF laws(1) this(2,3)] have n: "named_volume v \<noteq> Some n" by simp
    from writes(1) devices_fit_write [OF laws _ wr] volume_write [OF laws(1) wr n]
      files_write [OF laws _ wr n]
    show ?case by simp
  qed simp_all
  then show ?thesis by simp
qed

lemma devices_files:
  "devices_fit V rn dev u \<Longrightarrow> vol_view V rn u n = Some lv \<Longrightarrow> vol_files V rn u n = obs_files V u (dev n)"
  by (auto simp: vol_files_def vol_view_def devices_fit_def)

text \<open>
  Where the device of each volume of the managed group is given by its name and LVM's commands
  touch the data of the volumes they name only: under every interleaving of the single LVM
  commands of all RPCs, lost and given up calls included, a volume of the start stays with what
  other programs keep on it, any property \<open>R\<close> of its data, while every request spares it.
\<close>

lemma volume_data_kept:
  assumes laws: "lvm_laws L V" "lvm_devices L V rn dev" and fit: "devices_fit V rn dev w0"
    and env: "\<And>w w'. env w w' \<Longrightarrow> obs_lv V w' = obs_lv V w"
      "\<And>w w'. env w w' \<Longrightarrow> R (obs_files V w (dev n)) \<Longrightarrow> R (obs_files V w' (dev n))"
    and run: "stack_run L cfg rn E env self w0 hs ts os w"
    and present: "vol_view V rn w0 n = Some lv" and data: "R (vol_files V rn w0 n)"
    and spares: "\<And>c. c \<in> set hs \<Longrightarrow> spares V w0 E n c"
  shows "vol_view V rn w n = Some lv \<and> R (vol_files V rn w n)"
proof -
  from data devices_files [OF fit present] have "R (obs_files V w0 (dev n))" by simp
  from stack_data [OF laws fit run, of R n, OF env this spares]
  have kept: "devices_fit V rn dev w" "obs_lv V w rn n = obs_lv V w0 rn n" "R (obs_files V w (dev n))"
    by simp_all
  from kept(2) present have view: "vol_view V rn w n = Some lv" by (simp add: vol_view_def)
  with kept devices_files [OF kept(1) view] show ?thesis by simp
qed

text \<open>A group with a volume that holds data, in which another volume is created.\<close>

definition ex_stored :: mem where
  "ex_stored = (ex_group [ex_extra])\<lparr>mem_files := [(''/dev/vg0/f'', [''data''])]\<rparr>"

definition ex_beside :: mem where
  "ex_beside = (ex_group [ex_extra, ex_again])\<lparr>mem_files := [(''/dev/vg0/3'', []), (''/dev/vg0/f'', [''data''])]\<rparr>"

lemma ex_stored_calls:
  "sv_create ex_server \<lparr>clr_name = ''3'', clr_capacity = 536870912, clr_tags = tags\<rparr> ex_stored =
     (Inr (lv_into ex_again), (ex_group [ex_extra, ex_again])\<lparr>mem_files := [(''/dev/vg0/f'', [''data''])]\<rparr>)"
  "sv_format ex_server \<lparr>flr_name = ''3''\<rparr>
     ((ex_group [ex_extra, ex_again])\<lparr>mem_files := [(''/dev/vg0/f'', [''data''])]\<rparr>) = (Inr (), ex_beside)"
  by (simp_all add: ex_group_eval Let_def show_radix_1 ex_stored_def ex_beside_def)

lemma ex_stored_create:
  "run_vol (controller_rpc (create_volume ex_env ex_ctl) (ex_create 536870912)) ex_server ex_stored =
    (Reply \<lparr>cvs_volume = Some (process_volume ex_ctl (lv_into ex_again))\<rparr>, ex_beside)"
proof (subst volumed_reliable.run_create_absent [OF _ _ _ _ ex_requested, of mem_lvm mem_obs])
  show "vol_ready mem_lvm mem_obs ''vg0'' ex_stored"
    unfolding vol_ready_def by (simp add: mem_laws mem_reliable ex_stored_def ex_group_def ex_empty_def)
  show "536870912 \<le> vol_bytes_free mem_obs ex_cfg ''vg0'' ex_stored"
    by (simp add: vol_bytes_free_def checked_sub_def ex_stored_def ex_group_def ex_defs)
  show "ex_view ex_stored (hash_resource ex_env (cvr_name (ex_create 536870912))) = None"
    by simp (simp add: vol_view_def mem_find_def ex_stored_def ex_group_def ex_extra_def)
qed (simp_all add: ex_stored_calls MIN_VOLUME_SIZE_BYTES_def)

lemma ex_stored_alone:
  "vol_sched ex_server (replicate 4 0) (map (controller_serve ex_env ex_ctl) [ex_request]) ex_stored =
    ([VRet (Reply (CreateVolumeReply \<lparr>cvs_volume = Some (process_volume ex_ctl (lv_into ex_again))\<rparr>))],
     ex_beside)"
  using sched_alone [OF conforms_serve [of ex_env ex_request ex_ctl], of 0
      "[controller_serve ex_env ex_ctl ex_request]" ex_server ex_stored]
  by (simp add: run_map_vol_prog ex_stored_create)

abbreviation ex_device :: "string \<Rightarrow> string" where
  "ex_device n \<equiv> ''/dev/vg0/'' @ n"

lemma ex_devices: "lvm_devices mem_lvm mem_obs ''vg0'' ex_device"
  unfolding lvm_devices_def
  by (auto simp: inj_def mem_lvm_def mem_obs_def mem_add_def mem_remove_def Let_def split: if_splits)

lemma ex_stored_facts:
  "devices_fit mem_obs ''vg0'' ex_device ex_stored"
  "ex_view ex_stored ''f'' = Some (lv_into ex_extra)"
  "vol_files mem_obs ''vg0'' ex_stored ''f'' = [''data'']"
  "ex_view ex_beside ''3'' = Some (lv_into ex_again)"
proof -
  show "devices_fit mem_obs ''vg0'' ex_device ex_stored"
    by (auto simp: devices_fit_def mem_obs_def mem_find_def ex_stored_def ex_group_def ex_extra_def)
qed (simp_all add: vol_view_def vol_files_def mem_obs_def mem_find_def ex_stored_def ex_beside_def
    ex_group_def ex_extra_def ex_again_def ex_lv_def)

section \<open>A format that comes late\<close>

lemma format_to_mkfs:
  assumes "vg_from_id L rn w = Inr vg" and "resource_name L (flr_name f) = Inr n"
    and "lv_from_id L (vg_name vg) n w = Inr l"
  shows "\<exists>h k. lvm_step L (serve_steps L cfg rn (AskFormat f)) w h w \<and>
    lvm_step L h w (LvmMkfs (lvl_path l) k) w"
proof -
  let ?h = "map_lvm_prog (map_outcome DoneReply) (format_steps L (set_extension vg (new_request f)))"
  have "lvm_step L (serve_steps L cfg rn (AskFormat f)) w ?h w"
    using assms(1) by (simp add: inject_steps_def lvm_step_simps)
  moreover have "\<exists>k. lvm_step L ?h w (LvmMkfs (lvl_path l) k) w"
    using assms(2,3) by (simp add: format_steps_def lvm_step_simps)
  ultimately show ?thesis by blast
qed

text \<open>C17: a CreateVolume whose caller gives up while volumed is about to format the new volume
  leaves the run of mkfs.xfs behind; a retry of the call finds the volume and succeeds, the
  volume is used, and only then the first mkfs.xfs runs: whatever has been written is erased,
  under a volume that CreateVolume has answered with.\<close>

theorem late_format_erases:
  assumes laws: "lvm_laws L V"
    and first: "vol_sched (volumed_server lost L cfg rn) is
      (map (controller_serve E self) [CreateVolumeCall q, CreateVolumeCall q]) w =
      ([VFormatLogicalVolume f k, controller_serve E self (CreateVolumeCall q)], w1)"
    and found: "vg_from_id L rn w1 = Inr vg" "resource_name L (flr_name f) = Inr n"
      "lv_from_id L (vg_name vg) n w1 = Inr l"
    and retry: "run_vol (controller_rpc (create_volume E self) q) (volumed_server lost L cfg rn) w1 =
      (Reply resp, w2)"
    and used: "env w2 w3" and late: "mkfs_xfs L (lvl_path l) w3 = (Inr (True, t), w4)"
  shows "stack_run L cfg rn E env self w [CreateVolumeCall q, CreateVolumeCall q]
      [(CreateVolumeCall q, k (Inl st), None), (CreateVolumeCall q, VRet (Reply (CreateVolumeReply resp)), None)]
      [] w4 \<and> obs_files V w4 (lvl_path l) = [] \<and> obs_lv V w4 = obs_lv V w3"
proof
  let ?c = "CreateVolumeCall q"
  let ?P = "controller_serve E self ?c"
  let ?F = "VFormatLogicalVolume f k"
  let ?srv = "volumed_server lost L cfg rn"
  from format_to_mkfs [OF found] obtain h k'
    where steps: "lvm_step L (serve_steps L cfg rn (AskFormat f)) w1 h w1"
      "lvm_step L h w1 (LvmMkfs (lvl_path l) k') w1" by blast
  from coarse_runs_are_fine_aux [OF run_sched [OF first]]
  have "stack_run L cfg rn E env self w [?c, ?c] ([] @ (?c, ?F, None) # [(?c, ?P, None)]) [] w1" by simp
  from run_works [OF run_works [OF run_sends [OF this] steps(1)] steps(2)]
  have "stack_run L cfg rn E env self w [?c, ?c]
      ([] @ (?c, ?F, Some (LvmMkfs (lvl_path l) k')) # [(?c, ?P, None)]) [] w1" by simp
  from run_gives_up [OF this, of st]
  have "stack_run L cfg rn E env self w [?c, ?c] ([(?c, k (Inl st), None)] @ (?c, ?P, None) # [])
      [(?c, LvmMkfs (lvl_path l) k')] w1" by simp
  moreover have "run_vol ?P ?srv w1 = (Reply (CreateVolumeReply resp), w2)"
    using retry by (simp add: run_map_vol_prog)
  ultimately have "stack_run L cfg rn E env self w [?c, ?c]
      ([(?c, k (Inl st), None)] @ (?c, VRet (Reply (CreateVolumeReply resp)), None) # [])
      [(?c, LvmMkfs (lvl_path l) k')] w2" by (rule stack_alone [rotated])
  from stack_other [OF this, of w3, OF used]
  have "stack_run L cfg rn E env self w [?c, ?c]
      [(?c, k (Inl st), None), (?c, VRet (Reply (CreateVolumeReply resp)), None)]
      ([] @ (?c, LvmMkfs (lvl_path l) k') # []) w3" by simp
  from run_ends [OF stack_move [OF this stack_orphan [OF lvm_step_mkfs [OF late]]]]
  show "stack_run L cfg rn E env self w [?c, ?c]
      [(?c, k (Inl st), None), (?c, VRet (Reply (CreateVolumeReply resp)), None)] [] w4" by simp
  show "obs_files V w4 (lvl_path l) = [] \<and> obs_lv V w4 = obs_lv V w3"
    using lvm_mkfs_ok [OF laws late] lvm_mkfs [OF laws late] by simp
qed

abbreviation ex_writes :: "mem \<Rightarrow> mem \<Rightarrow> bool" where
  "ex_writes w w' \<equiv> w' = w\<lparr>mem_files := (''/dev/vg0/3'', [''data'']) # mem_files w\<rparr>"

definition ex_erased :: mem where
  "ex_erased = ex_done\<lparr>mem_files := (''/dev/vg0/3'', []) # (''/dev/vg0/3'', [''data'']) # mem_files ex_done\<rparr>"

lemma ex_before_format:
  "\<exists>k. vol_sched ex_server [0, 0, 0] (map (controller_serve ex_env ex_ctl) [ex_request, ex_request]) ex_empty =
     ([VFormatLogicalVolume \<lparr>flr_name = ''3''\<rparr> k, controller_serve ex_env ex_ctl ex_request], ex_made)"
  by (simp add: ex_sched)

lemma ex_retry:
  "run_vol (controller_rpc (create_volume ex_env ex_ctl) (ex_create 536870912)) ex_server ex_made =
    (Reply \<lparr>cvs_volume = Some (process_volume ex_ctl (lv_into ex_lv))\<rparr>, ex_done)"
proof -
  have "vol_ready mem_lvm mem_obs ''vg0'' ex_made"
    unfolding vol_ready_def by (simp add: mem_laws mem_reliable ex_made_def ex_empty_def)
  moreover have "ex_view ex_made ''3'' = Some (lv_into ex_lv)"
    by (simp add: vol_view_def mem_find_def ex_made_def ex_lv_def)
  moreover have "vol_bytes_free mem_obs ex_cfg ''vg0'' ex_made = 10737418240"
    by (simp add: vol_bytes_free_def checked_sub_def ex_made_def ex_defs)
  moreover have "lv_capacity_bytes (lv_into ex_lv) = 536870912" by (simp add: ex_lv_def)
  ultimately show ?thesis
    by (subst volumed_reliable.run_create_existing [where lv = "lv_into ex_lv", OF _ _ _ _ ex_requested, of mem_lvm mem_obs])
      (simp_all add: ex_sv_format MIN_VOLUME_SIZE_BYTES_def)
qed

theorem late_format_erases_witness:
  "\<exists>p. stack_run mem_lvm ex_cfg ''vg0'' ex_env ex_writes ex_ctl ex_empty [ex_request, ex_request]
     [(ex_request, p, None), (ex_request, VRet (Reply ex_response), None)] [] ex_erased \<and>
   obs_files mem_obs ex_erased ''/dev/vg0/3'' = []"
proof -
  obtain k where first: "vol_sched ex_server [0, 0, 0]
      (map (controller_serve ex_env ex_ctl) [ex_request, ex_request]) ex_empty =
    ([VFormatLogicalVolume \<lparr>flr_name = ''3''\<rparr> k, controller_serve ex_env ex_ctl ex_request], ex_made)"
    using ex_before_format ..
  let ?w3 = "ex_done\<lparr>mem_files := (''/dev/vg0/3'', [''data'']) # mem_files ex_done\<rparr>"
  have late: "mkfs_xfs mem_lvm (lvl_path ex_lv) ?w3 = (Inr (True, []), ex_erased)"
    by (simp add: mem_lvm_def ex_erased_def ex_lv_def)
  have "vg_from_id mem_lvm ''vg0'' ex_made = Inr \<lparr>vg_name = ''vg0'', vg_capacity_bytes = 10737418240\<rparr>"
    and "resource_name mem_lvm (flr_name \<lparr>flr_name = ''3''\<rparr>) = Inr ''3''"
    and "lv_from_id mem_lvm (vg_name \<lparr>vg_name = ''vg0'', vg_capacity_bytes = 10737418240\<rparr>) ''3'' ex_made = Inr ex_lv"
    by (simp_all add: mem_lvm_def mem_find_def ex_made_def ex_empty_def ex_lv_def)
  from late_format_erases [where env = ex_writes, OF mem_laws first this ex_retry refl late]
  show ?thesis by (auto simp: ex_lv_def)
qed

end
