(* ===== verification/Mem_Os.thy ===== *)
theory Mem_Os
  imports Node
begin

text \<open>
  A concrete operating system in memory: an instance of the parameter \<open>os_api\<close> that satisfies
  \<open>os_laws\<close>, with the block devices the node plugin looks up, so that the theorems about mountd
  and the node plugin have inputs to be applied to.  It models no code of the repository.
\<close>

record mos =
  mos_lvs :: "logical_volume list"
  mos_files :: "(string \<times> file_meta) list"
  mos_table :: "mount_entry list"

text \<open>A path lies in the last mount made at it, any other in the root file system.\<close>

definition mos_beneath :: "mos \<Rightarrow> string \<Rightarrow> string \<times> sys_flag set" where
  "mos_beneath w p =
     (case find (\<lambda>e. me_dst e = p) (rev (mos_table w)) of
        None \<Rightarrow> (''ext4'', {})
      | Some e \<Rightarrow> (me_fstype e, me_flags e))"

definition mos_os :: "mos os_api" where
  "mos_os =
     \<lparr>os_mountpaths = (\<lambda>w. Inr (map me_dst (mos_table w))),
      os_exists = (\<lambda>p w. map_of (mos_files w) p \<noteq> None),
      os_metadata = (\<lambda>p w. case map_of (mos_files w) p of
         None \<Rightarrow> Inl ''No such file or directory'' | Some m \<Rightarrow> Inr m),
      os_is_dir = (\<lambda>p w. case map_of (mos_files w) p of
         None \<Rightarrow> False | Some m \<Rightarrow> fm_mode m AND 16384 \<noteq> 0),
      os_mount = (\<lambda>src dst ty flags w.
         if list_ex (\<lambda>e. me_src e = src \<and> me_dst e = dst) (mos_table w)
         then (Inl ''Device or resource busy'', w)
         else case (if BIND \<in> flags then mos_beneath w src else (ty, flags)) of
           (t, options) \<Rightarrow> (Inr (), w\<lparr>mos_table := mos_table w @
             [\<lparr>me_src = src, me_dst = dst, me_fstype = t, me_flags = options\<rparr>]\<rparr>)),
      os_unmount = (\<lambda>p w.
         if p \<in> me_dst ` set (mos_table w)
         then (Inr (), w\<lparr>mos_table := remove_last (\<lambda>e. me_dst e = p) (mos_table w)\<rparr>)
         else (Inl ''Invalid argument'', w)),
      os_chown = (\<lambda>p uid gid w. case map_of (mos_files w) p of
         None \<Rightarrow> (Inl ''No such file or directory'', w)
       | Some m \<Rightarrow> (Inr (), w\<lparr>mos_files := (p, m\<lparr>fm_uid := uid, fm_gid := gid\<rparr>) # mos_files w\<rparr>)),
      os_create_dir_all = (\<lambda>p w.
         if map_of (mos_files w) p \<noteq> None then (Inr (), w)
         else (Inr (), w\<lparr>mos_files :=
                 (p, \<lparr>fm_mode = 16877, fm_uid = 1000, fm_gid = 1000\<rparr>) # mos_files w\<rparr>)),
      os_remove_dir = (\<lambda>p w.
         if p \<in> me_dst ` set (mos_table w) then (Inl ''Device or resource busy'', w)
         else (Inr (), w\<lparr>mos_files := filter (\<lambda>(q, _). q \<noteq> p) (mos_files w)\<rparr>)),
      glob_new = (\<lambda>g. if g = ''['' then Inl ''malformed glob'' else Inr (\<lambda>p. g = ''**'' \<or> g = p)),
      user_from_name = (\<lambda>n. Inr (if n = ''rlvm'' then Some \<lparr>user_name = ''rlvm'', user_uid = 1000\<rparr> else None)),
      group_from_name = (\<lambda>n. Inr (if n = ''rlvm'' then Some \<lparr>group_name = ''rlvm'', group_gid = 1000\<rparr> else None))\<rparr>"

definition mos_obs :: "mos os_observers" where
  "mos_obs = \<lparr>obs_table = mos_table, obs_resolve = (\<lambda>w p. p), obs_beneath = mos_beneath\<rparr>"

lemma mos_beneath_files: "mos_beneath (w\<lparr>mos_files := fs\<rparr>) = mos_beneath w"
  by (simp add: mos_beneath_def fun_eq_iff)

lemma mos_laws: "os_laws mos_os mos_obs"
  unfolding os_laws_def mos_os_def mos_obs_def os_api.simps os_observers.simps
  by (intro conjI allI impI)
    (auto simp: mos_beneath_files new_options_def mos_beneath_def split: option.splits if_splits prod.splits)

lemma mos_obs_simps [simp]:
  "obs_table mos_obs = mos_table" "obs_resolve mos_obs w p = p" "obs_beneath mos_obs = mos_beneath"
  by (simp_all add: mos_obs_def)

text \<open>The lookups of logical volumes mountd makes.\<close>

definition mos_lvm :: "mos lvm_api" where
  "mos_lvm =
     \<lparr>resource_name = Inr,
      resource_uuid = (\<lambda>u. if u = [] then Inl ''empty uuid'' else Inr u),
      resource_capacity = Inr,
      capacity_text = show_usize,
      vg_from_id = (\<lambda>g w. Inl (LvmNotFound ''no such group'')),
      vg_list_lvs = (\<lambda>vg w. Inr (mos_lvs w)),
      vg_add_lv = (\<lambda>vg opt w. (Inl (LvmCommand ''read only''), w)),
      vg_remove_lv = (\<lambda>vg n w. (Inl (LvmCommand ''read only''), w)),
      lv_from_id = (\<lambda>g n w. Inl (LvmNotFound ''no such volume'')),
      lv_from_uuid = (\<lambda>u w. case find (\<lambda>l. lvl_uuid l = u) (mos_lvs w) of
         None \<Rightarrow> Inl (LvmNotFound ''no such volume'') | Some l \<Rightarrow> Inr l),
      mkfs_xfs = (\<lambda>p w. (Inr (True, []), w))\<rparr>"

section \<open>Concrete inputs\<close>

definition ex_mcfg :: mountd_config where
  "ex_mcfg = \<lparr>for_user = \<lparr>user_name = ''rlvm'', user_uid = 1000\<rparr>,
     for_group = \<lparr>group_name = ''rlvm'', group_gid = 1000\<rparr>,
     whitelist = [''['', ''/dev/vg0/3'']\<rparr>"

text \<open>A device owned by root and on the whitelist, a staging directory of the user, a directory
  of root, and a directory of the user without write permission.\<close>

definition ex_host :: mos where
  "ex_host =
     \<lparr>mos_lvs = [\<lparr>lvl_uuid = ''uuid-0'', lvl_name = ''3'', lvl_capacity_bytes = 536870912,
        lvl_volume_group_name = ''vg0'', lvl_path = ''/dev/vg0/3''\<rparr>],
      mos_files =
        [(''/dev/vg0/3'', \<lparr>fm_mode = 25008, fm_uid = 0, fm_gid = 6\<rparr>),
         (''/stage'', \<lparr>fm_mode = 16877, fm_uid = 1000, fm_gid = 1000\<rparr>),
         (''/root'', \<lparr>fm_mode = 16832, fm_uid = 0, fm_gid = 0\<rparr>),
         (''/ro'', \<lparr>fm_mode = 16749, fm_uid = 1000, fm_gid = 1000\<rparr>)],
      mos_table = []\<rparr>"

definition ex_dir :: file_meta where
  "ex_dir = \<lparr>fm_mode = 16877, fm_uid = 1000, fm_gid = 1000\<rparr>"

definition ex_staged :: mos where
  "ex_staged = ex_host\<lparr>
     mos_files := (''/stage'', \<lparr>fm_mode = 16877, fm_uid = 1000, fm_gid = 1000\<rparr>) # mos_files ex_host,
     mos_table := [\<lparr>me_src = ''/dev/vg0/3'', me_dst = ''/stage'', me_fstype = ''xfs'',
        me_flags = {NODEV, NOSUID}\<rparr>]\<rparr>"

abbreviation ex_mountd :: "mos mount_server" where
  "ex_mountd \<equiv> mountd_server (Status Unavailable ''connection reset'') mos_lvm mos_os ex_mcfg"

definition ex_mount :: "string \<Rightarrow> string \<Rightarrow> i32 list \<Rightarrow> mount_request" where
  "ex_mount src dst flags = \<lparr>mr_mount = Some \<lparr>mnt_src = src, mnt_dst = dst\<rparr>, mr_flags = flags\<rparr>"

lemmas mos_eval = mos_os_def ex_mcfg_def ex_host_def ex_staged_def ex_mount_def
  ensure_interactable_def whitelisted_def meta_readonly_def

lemma ex_interactable:
  "ensure_interactable mos_os ex_mcfg ''/dev/vg0/3'' False ex_host = Inr ()"
  "ensure_interactable mos_os ex_mcfg ''/stage'' ro ex_host = Inr ()"
  "ensure_interactable mos_os ex_mcfg ''/dev/vg0/3'' False ex_staged = Inr ()"
  "ensure_interactable mos_os ex_mcfg ''/stage'' ro ex_staged = Inr ()"
  by (simp_all add: mos_eval)

lemma ex_is_dir: "os_is_dir mos_os ''/stage'' ex_host" "os_is_dir mos_os ''/stage'' ex_staged"
  by (simp_all add: mos_eval)

end
