(* ===== verification/Mounting.thy ===== *)
theory Mounting
  imports Mem_Os
begin

text \<open>
  mountd: which paths it lets a client mount, what a mount and an unmount do to the table of
  mounts on every branch, and with which options, for every operating system that keeps
  \<open>os_laws\<close>.
\<close>

section \<open>Paths\<close>

lemma whitelisted_iff:
  "whitelisted Os cfg path \<noteq> None \<longleftrightarrow>
     (\<exists>pattern \<in> set (whitelist cfg). \<exists>is_match. glob_new Os pattern = Inr is_match \<and> is_match path)"
proof -
  have "(case glob_new Os pattern of Inl e \<Rightarrow> False | Inr is_match \<Rightarrow> is_match path) \<longleftrightarrow>
      (\<exists>is_match. glob_new Os pattern = Inr is_match \<and> is_match path)" for pattern
    by (cases "glob_new Os pattern") auto
  then show ?thesis unfolding whitelisted_def by (auto simp: find_None_iff)
qed

text \<open>C24: a path may be used exactly when it exists, its metadata can be read, and it matches a
  valid glob of the whitelist or belongs to the configured user and group; a path that is to
  be read-only is refused when it has no write permission at all, and is not refused for
  being writable.\<close>

theorem interactable_iff:
  "ensure_interactable Os cfg path readonly w = Inr () \<longleftrightarrow>
     os_exists Os path w \<and>
     (\<exists>meta. os_metadata Os path w = Inr meta \<and>
        \<not> (readonly \<and> fm_mode meta AND 146 = 0) \<and>
        ((\<exists>pattern \<in> set (whitelist cfg). \<exists>is_match.
            glob_new Os pattern = Inr is_match \<and> is_match path) \<or>
         fm_uid meta = fst (get_owner_pair cfg) \<and> fm_gid meta = snd (get_owner_pair cfg)))"
  using whitelisted_iff [of Os cfg path]
  by (cases "os_metadata Os path w")
    (auto simp: ensure_interactable_def get_owner_pair_def meta_readonly_def)

theorem interactable_iff_witness:
  "ensure_interactable mos_os ex_mcfg ''/stage'' True ex_host = Inr () \<and>
   ensure_interactable mos_os ex_mcfg ''/ro'' True ex_host \<noteq> Inr () \<and>
   ensure_interactable mos_os ex_mcfg ''/root'' False ex_host \<noteq> Inr ()"
  unfolding interactable_iff by (simp add: get_owner_pair_def mos_eval)

section \<open>Mounting\<close>

lemma known_flags:
  assumes "map_flags fs = Inr gs"
  shows "set fs \<subseteq> {0, 1, 2}"
proof -
  have "f \<in> {0, 1, 2}" if "mount_flag_from_i32 f = Some g" for f g
    using that by (cases g) (simp_all add: mount_flag_from_i32_Some)
  moreover have "\<exists>g. mount_flag_from_i32 f = Some g" if "f \<in> set fs" for f
    using assms that unfolding map_flags_Inr by (metis image_eqI imageE list.set_map)
  ultimately show ?thesis by blast
qed

text \<open>C13: whatever mountd answers to a mount request, the table of mounts is as before, or has
  one entry more: then both paths were named and may be used, the target is a directory that
  was not mounted, and every flag is known.  Without the flag \<open>Bind\<close> the new mount is an xfs
  mount of the source, always with \<open>nodev\<close> and \<open>nosuid\<close>, and read-only exactly when asked to be.
  With it the new mount is a second view of the mount the source lies in, with the type and
  the options that mount has: the two options mountd adds, and a read-only flag, do nothing.\<close>

theorem mount_confined:
  assumes "os_laws Os V" and "mount Os cfg q w = (out, w')"
  shows "obs_table V w' = obs_table V w \<or>
    (\<exists>m t options. mr_mount q = Some m \<and> mnt_src m \<noteq> [] \<and> mnt_dst m \<noteq> [] \<and>
       ensure_interactable Os cfg (mnt_src m) False w = Inr () \<and>
       ensure_interactable Os cfg (mnt_dst m) (1 \<in> set (mr_flags q)) w = Inr () \<and>
       os_is_dir Os (mnt_dst m) w \<and> \<not> listed (obs_table V w) (mnt_dst m) \<and>
       set (mr_flags q) \<subseteq> {0, 1, 2} \<and>
       obs_table V w' = obs_table V w @
         [\<lparr>me_src = mnt_src m, me_dst = obs_resolve V w (mnt_dst m), me_fstype = t, me_flags = options\<rparr>] \<and>
       (t, options) =
         (if 2 \<in> set (mr_flags q) then obs_beneath V w (mnt_src m)
          else (''xfs'', if 1 \<in> set (mr_flags q) then {RDONLY, NODEV, NOSUID} else {NODEV, NOSUID})))"
proof -
  from mount_effect [OF assms] have "obs_table V w' = obs_table V w \<or>
      (\<exists>m. mount_allowed Os cfg q m w \<and> \<not> listed (obs_table V w) (mnt_dst m) \<and>
         (\<exists>gs. map_flags (mr_flags q) = Inr gs) \<and>
         obs_table V w' = obs_table V w @ [asked_entry (obs_resolve V w) (obs_beneath V w) m (mr_flags q)])"
    by (auto split: if_splits)
  then show ?thesis
  proof (elim disjE exE conjE)
    fix m gs
    assume ok: "mount_allowed Os cfg q m w" "\<not> listed (obs_table V w) (mnt_dst m)"
      and table: "obs_table V w' = obs_table V w @ [asked_entry (obs_resolve V w) (obs_beneath V w) m (mr_flags q)]"
    assume "map_flags (mr_flags q) = Inr gs"
    then have "set (mr_flags q) \<subseteq> {0, 1, 2}" by (rule known_flags)
    with ok table show ?thesis unfolding mount_allowed_def asked_entry_def
      by (intro disjI2 exI [of _ m] exI [of _ "fst (asked_options (obs_beneath V w) m (mr_flags q))"]
          exI [of _ "snd (asked_options (obs_beneath V w) m (mr_flags q))"])
        (simp add: asked_options_def)
  qed simp
qed

lemma ex_mount_allowed:
  "mount_allowed mos_os ex_mcfg (ex_mount ''/dev/vg0/3'' ''/stage'' flags)
     \<lparr>mnt_src = ''/dev/vg0/3'', mnt_dst = ''/stage''\<rparr> ex_host"
  using ex_interactable ex_is_dir by (simp add: mount_allowed_def ex_mount_def)

lemma ex_mountpaths: "os_mountpaths mos_os ex_host = Inr []"
  by (simp add: mos_eval)

lemma ex_mount_stage: "mount mos_os ex_mcfg (ex_mount ''/dev/vg0/3'' ''/stage'' []) ex_host = (Reply (), ex_staged)"
  by (simp add: mount_run [OF ex_mount_allowed ex_mountpaths] paths_contain_def map_flags_def,
      simp add: mos_eval sys_flags_def map_flags_def)

theorem mount_confined_witness:
  "mos_table ex_staged = mos_table ex_host @
     [\<lparr>me_src = ''/dev/vg0/3'', me_dst = ''/stage'', me_fstype = ''xfs'', me_flags = {NODEV, NOSUID}\<rparr>]"
  using mount_confined [OF mos_laws ex_mount_stage]
  by (auto simp: ex_mount_def ex_staged_def ex_host_def)

text \<open>A mount request whose target is a mount point already is answered success and changes
  nothing, before its flags are looked at: a read-only request for a target that is mounted
  writable succeeds, and so does one with an unknown flag.\<close>

lemma mount_again_ignores_flags:
  assumes laws: "os_laws Os V" and mounts: "os_mountpaths Os w = Inr mounts"
    and allowed: "mount_allowed Os cfg q m w" and there: "listed (obs_table V w) (mnt_dst m)"
  shows "mount Os cfg q w = (Reply (), w)"
  using there by (simp add: mount_run [OF allowed mounts] listed_mountpaths [OF laws mounts])

lemma mount_again_ignores_flags_witness:
  "mount mos_os ex_mcfg (ex_mount ''/dev/vg0/3'' ''/stage/'' [1, 77]) (ex_staged\<lparr>mos_files :=
     (''/stage/'', \<lparr>fm_mode = 16877, fm_uid = 1000, fm_gid = 1000\<rparr>) # mos_files ex_staged\<rparr>) =
   (Reply (), ex_staged\<lparr>mos_files :=
     (''/stage/'', \<lparr>fm_mode = 16877, fm_uid = 1000, fm_gid = 1000\<rparr>) # mos_files ex_staged\<rparr>)"
proof (rule mount_again_ignores_flags [OF mos_laws])
  let ?w = "ex_staged\<lparr>mos_files :=
     (''/stage/'', \<lparr>fm_mode = 16877, fm_uid = 1000, fm_gid = 1000\<rparr>) # mos_files ex_staged\<rparr>"
  show "os_mountpaths mos_os ?w = Inr [''/stage'']" by (simp add: mos_eval)
  show "mount_allowed mos_os ex_mcfg (ex_mount ''/dev/vg0/3'' ''/stage/'' [1, 77])
      \<lparr>mnt_src = ''/dev/vg0/3'', mnt_dst = ''/stage/''\<rparr> ?w"
    unfolding mount_allowed_def by (simp add: mos_eval)
  have "path_eq ''/stage/'' ''/stage''" using path_eq_trailing_slash [of "''/stage''"] by simp
  then show "listed (obs_table mos_obs ?w) (mnt_dst \<lparr>mnt_src = ''/dev/vg0/3'', mnt_dst = ''/stage/''\<rparr>)"
    by (simp add: listed_def paths_contain_def ex_staged_def)
qed

text \<open>A request that passes the checks of its paths and names an unknown flag is answered
  InvalidArgument, and nothing is mounted.\<close>

lemma mount_unknown_flag:
  assumes laws: "os_laws Os V" and mounts: "os_mountpaths Os w = Inr mounts"
    and allowed: "mount_allowed Os cfg q m w" and absent: "\<not> listed (obs_table V w) (mnt_dst m)"
    and bad: "f \<in> set (mr_flags q)" "mount_flag_from_i32 f = None"
  shows "mount Os cfg q w = (Fail (Status InvalidArgument ''invalid mount flag''), w)"
proof -
  have "\<not> (\<exists>gs. map_flags (mr_flags q) = Inr gs)"
    unfolding map_flags_Inr using bad by (metis image_eqI list.set_map option.distinct(1) imageE)
  then obtain st where "map_flags (mr_flags q) = Inl st" by (cases "map_flags (mr_flags q)") auto
  with map_flags_Inl [OF this] absent show ?thesis
    by (simp add: mount_run [OF allowed mounts] listed_mountpaths [OF laws mounts])
qed

lemma mount_unknown_flag_witness:
  "mount mos_os ex_mcfg (ex_mount ''/dev/vg0/3'' ''/stage'' [2, 3]) ex_host =
     (Fail (Status InvalidArgument ''invalid mount flag''), ex_host)"
proof (rule mount_unknown_flag [OF mos_laws, where f = 3])
  show "os_mountpaths mos_os ex_host = Inr []" by (rule ex_mountpaths)
  show "mount_allowed mos_os ex_mcfg (ex_mount ''/dev/vg0/3'' ''/stage'' [2, 3])
      \<lparr>mnt_src = ''/dev/vg0/3'', mnt_dst = ''/stage''\<rparr> ex_host"
    by (rule ex_mount_allowed)
  show "\<not> listed (obs_table mos_obs ex_host) (mnt_dst \<lparr>mnt_src = ''/dev/vg0/3'', mnt_dst = ''/stage''\<rparr>)"
    by (simp add: listed_def paths_contain_def ex_host_def)
qed (simp_all add: ex_mount_def mount_flag_from_i32_def)

text \<open>C35: when the owner of the mounted directory cannot be set, the request is answered
  Internal and the file system stays mounted.\<close>

theorem mount_survives_failed_chown:
  assumes laws: "os_laws Os V" and mounts: "os_mountpaths Os w = Inr mounts"
    and allowed: "mount_allowed Os cfg q m w" and absent: "\<not> listed (obs_table V w) (mnt_dst m)"
    and flags: "map mount_flag_from_i32 (mr_flags q) = map Some gs"
    and mounted: "os_mount Os (mnt_src m) (mnt_dst m) ''xfs''
      ((\<Union>g \<in> set gs. sys_flags_of g) \<union> {NODEV, NOSUID}) w = (Inr (), w1)"
    and chown: "os_chown Os (mnt_dst m) (user_uid (for_user cfg)) (group_gid (for_group cfg)) w1 =
      (Inl err, w2)"
  shows "\<exists>text. mount Os cfg q w = (Fail (Status Internal text), w2) \<and>
    length (obs_table V w2) = Suc (length (obs_table V w))"
proof -
  from flags have "map_flags (mr_flags q) = Inr gs" by (simp add: map_flags_Inr)
  with mounted chown absent have "\<exists>text. mount Os cfg q w = (Fail (Status Internal text), w2)"
    by (simp add: mount_run [OF allowed mounts] listed_mountpaths [OF laws mounts] sys_flags_def)
  moreover have "obs_table V w2 = obs_table V w1" by (rule os_chown_table [OF laws chown])
  ultimately show ?thesis using os_mount_ok [OF laws mounted] by simp
qed

definition ex_no_chown :: "mos os_api" where
  "ex_no_chown = mos_os\<lparr>os_chown := (\<lambda>p uid gid w. (Inl ''Operation not permitted'', w))\<rparr>"

theorem mount_survives_failed_chown_witness:
  "\<exists>text. mount ex_no_chown ex_mcfg (ex_mount ''/dev/vg0/3'' ''/stage'' []) ex_host =
     (Fail (Status Internal text), ex_host\<lparr>mos_table := mos_table ex_staged\<rparr>) \<and>
   length (mos_table (ex_host\<lparr>mos_table := mos_table ex_staged\<rparr>)) = Suc (length (mos_table ex_host))"
proof -
  have laws: "os_laws ex_no_chown mos_obs"
    using mos_laws by (simp add: os_laws_def ex_no_chown_def)
  have allowed: "mount_allowed ex_no_chown ex_mcfg (ex_mount ''/dev/vg0/3'' ''/stage'' [])
      \<lparr>mnt_src = ''/dev/vg0/3'', mnt_dst = ''/stage''\<rparr> ex_host"
    unfolding mount_allowed_def by (simp add: ex_no_chown_def mos_eval)
  show ?thesis
    using mount_survives_failed_chown [OF laws _ allowed, where gs = "[]" and mounts = "[]"
        and ?w1.0 = "ex_host\<lparr>mos_table := mos_table ex_staged\<rparr>"
        and ?w2.0 = "ex_host\<lparr>mos_table := mos_table ex_staged\<rparr>" and err = "''Operation not permitted''"]
    by (simp add: ex_no_chown_def listed_def paths_contain_def, simp add: mos_eval)
qed

section \<open>Unmounting\<close>

text \<open>An unmount request that is answered success either named a path that is no mount
  point, and has changed nothing, or one the configuration lets the client use, and has taken
  its topmost mount away; an error leaves the table of mounts as it is.\<close>

lemma unmount_confined:
  assumes "os_laws Os V" and "unmount Os cfg q w = (out, w')"
  shows "(\<exists>st. out = Fail st) \<and> obs_table V w' = obs_table V w \<or>
    out = Reply () \<and> ur_path q \<noteq> [] \<and>
      (if listed (obs_table V w) (ur_path q)
       then ensure_interactable Os cfg (ur_path q) False w = Inr () \<and>
         obs_table V w' = remove_last (\<lambda>e. me_dst e = obs_resolve V w (ur_path q)) (obs_table V w)
       else w' = w)"
  using assms by (rule unmount_effect)

lemma ex_unmount_stage:
  "unmount mos_os ex_mcfg \<lparr>ur_path = ''/stage''\<rparr> ex_staged = (Reply (), ex_staged\<lparr>mos_table := []\<rparr>)"
proof -
  have "os_mountpaths mos_os ex_staged = Inr [''/stage'']" by (simp add: mos_eval)
  moreover have "os_unmount mos_os ''/stage'' ex_staged = (Inr (), ex_staged\<lparr>mos_table := []\<rparr>)"
    by (simp add: mos_os_def ex_staged_def)
  ultimately show ?thesis using ex_interactable(4) [of False] by (simp add: unmount_def paths_contain_def)
qed

lemma unmount_confined_witness:
  "mos_table (ex_staged\<lparr>mos_table := []\<rparr>) =
     (if listed (mos_table ex_staged) ''/stage''
      then remove_last (\<lambda>e. me_dst e = ''/stage'') (mos_table ex_staged) else mos_table ex_staged)"
proof -
  have "listed (mos_table ex_staged) ''/stage''"
    by (simp add: listed_def paths_contain_def ex_staged_def)
  then show ?thesis using unmount_confined [OF mos_laws ex_unmount_stage] by simp
qed

text \<open>An unmount of any path that is not a mount point as written is answered success
  before the configuration is consulted, also of a path that does not exist or that the
  client may not use, and also where the path leads to a mount point by another name.\<close>

lemma unmount_unlisted:
  assumes laws: "os_laws Os V" and mounts: "os_mountpaths Os w = Inr mounts"
    and path: "ur_path q \<noteq> []" and absent: "\<not> listed (obs_table V w) (ur_path q)"
  shows "unmount Os cfg q w = (Reply (), w)"
  using assms by (simp add: unmount_def listed_mountpaths [OF laws mounts])

lemma unmount_unlisted_witness:
  "unmount mos_os ex_mcfg \<lparr>ur_path = ''/root''\<rparr> ex_host = (Reply (), ex_host)"
  by (rule unmount_unlisted [OF mos_laws ex_mountpaths])
    (simp_all add: listed_def paths_contain_def ex_host_def)

section \<open>Mount and unmount\<close>

text \<open>A mount that has added a mount is undone by a later successful unmount of the same
  target, where the target is a path that denotes itself.\<close>

lemma mount_unmount:
  assumes laws: "os_laws Os V" and q: "mr_mount q = Some m"
    and canonical: "\<And>w. obs_resolve V w (mnt_dst m) = mnt_dst m"
    and absent: "\<not> listed (obs_table V w) (mnt_dst m)"
    and up: "mount Os cfg q w = (Reply (), w1)"
    and down: "unmount Os cfg \<lparr>ur_path = mnt_dst m\<rparr> w1 = (Reply (), w2)"
  shows "obs_table V w2 = obs_table V w"
proof -
  from mount_effect [OF laws up] q absent
  have t: "obs_table V w1 = obs_table V w @
      [asked_entry (obs_resolve V w) (obs_beneath V w) m (mr_flags q)]"
    by (auto simp: mount_allowed_def split: if_splits)
  have dst: "me_dst (asked_entry (obs_resolve V w) (obs_beneath V w) m (mr_flags q)) = mnt_dst m"
    by (simp add: asked_entry_def canonical)
  then have "listed (obs_table V w1) (mnt_dst m)"
    by (simp add: t listed_def paths_contain_def)
  with unmount_effect [OF laws down] show ?thesis
    by (simp add: t canonical remove_last_snoc dst)
qed

lemma mount_unmount_witness:
  "mos_table (ex_staged\<lparr>mos_table := []\<rparr>) = mos_table ex_host"
proof -
  have absent: "\<not> listed (obs_table mos_obs ex_host) (mnt_dst \<lparr>mnt_src = ''/dev/vg0/3'', mnt_dst = ''/stage''\<rparr>)"
    by (simp add: listed_def paths_contain_def ex_host_def)
  show ?thesis
    using mount_unmount [OF mos_laws _ _ absent ex_mount_stage, simplified, OF _ ex_unmount_stage]
    by (simp add: ex_mount_def)
qed

section \<open>The configuration\<close>

text \<open>The user and the group of a configuration are read exactly from strings that name a user
  and a group of the host.\<close>

lemma deserialized_owner:
  "(deserialize_user_from_username Os v = Inr u \<longleftrightarrow>
      (\<exists>name. v = YamlStr name \<and> user_from_name Os name = Inr (Some u))) \<and>
   (deserialize_group_from_group Os v = Inr g \<longleftrightarrow>
      (\<exists>name. v = YamlStr name \<and> group_from_name Os name = Inr (Some g)))"
  by (cases v)
    (simp_all add: deserialize_user_from_username_def deserialize_group_from_group_def rust_simps)

end
