(* ===== verification/Mountd_Steps.thy ===== *)
theory Mountd_Steps
  imports Mounting
begin

text \<open>
  mountd's handlers as sequences of single calls of the operating system.  The runtime of
  mountd has several threads and its handlers take no lock, so that two requests may alternate
  at any call.  The programs here are translated from server.rs and lib.rs a second time, call
  by call; run in one piece they equal the handlers of \<open>Mountd\<close>.  Requests
  interleave as a step relation (\<open>os_reach\<close>) or under a given schedule (\<open>os_sched\<close>).
\<close>

section \<open>Programs over the operating system\<close>

datatype 'a os_prog =
    OsRet 'a
  | OsMountpaths "string + string list \<Rightarrow> 'a os_prog"
  | OsExists string "bool \<Rightarrow> 'a os_prog"
  | OsMetadata string "string + file_meta \<Rightarrow> 'a os_prog"
  | OsIsDir string "bool \<Rightarrow> 'a os_prog"
  | OsMount string string string "sys_flag set" "string + unit \<Rightarrow> 'a os_prog"
  | OsUnmount string "string + unit \<Rightarrow> 'a os_prog"
  | OsChown string u32 u32 "string + unit \<Rightarrow> 'a os_prog"

primrec run_os :: "'a os_prog \<Rightarrow> 'w os_api \<Rightarrow> 'w \<Rightarrow> 'a \<times> 'w" where
  "run_os (OsRet x) Os w = (x, w)"
| "run_os (OsMountpaths k) Os w = run_os (k (os_mountpaths Os w)) Os w"
| "run_os (OsExists p k) Os w = run_os (k (os_exists Os p w)) Os w"
| "run_os (OsMetadata p k) Os w = run_os (k (os_metadata Os p w)) Os w"
| "run_os (OsIsDir p k) Os w = run_os (k (os_is_dir Os p w)) Os w"
| "run_os (OsMount s d ty fl k) Os w = (case os_mount Os s d ty fl w of (r, w') \<Rightarrow> run_os (k r) Os w')"
| "run_os (OsUnmount p k) Os w = (case os_unmount Os p w of (r, w') \<Rightarrow> run_os (k r) Os w')"
| "run_os (OsChown p u g k) Os w = (case os_chown Os p u g w of (r, w') \<Rightarrow> run_os (k r) Os w')"

definition os_fail :: "status \<Rightarrow> 'a outcome os_prog" where
  "os_fail st = OsRet (Fail st)"

lemma run_os_fail [simp]: "run_os (os_fail st) Os w = (Fail st, w)"
  by (simp add: os_fail_def)

section \<open>The handlers, call by call\<close>

text \<open>\<open>ensure_interactable\<close> asks twice about the path, and passes its result on.\<close>

definition check_meta ::
  "'w os_api \<Rightarrow> mountd_config \<Rightarrow> string \<Rightarrow> bool \<Rightarrow> file_meta \<Rightarrow> string + unit" where
  "check_meta Os self path readonly meta =
     (if readonly \<and> meta_readonly meta
      then Inl (''path is not readonly, but should be: '' @ path)
      else if whitelisted Os self path \<noteq> None then Inr ()
      else if fm_uid meta \<noteq> user_uid (for_user self) \<or> fm_gid meta \<noteq> group_gid (for_group self)
      then Inl (''mountpoint is not owned by '' @ user_name (for_user self) @ '':''
                @ group_name (for_group self) @ '' -> '' @ path @ '' (''
                @ show_u32 (fm_uid meta) @ '':'' @ show_u32 (fm_gid meta) @ '')'')
      else Inr ())"

definition interactable_steps ::
  "'w os_api \<Rightarrow> mountd_config \<Rightarrow> string \<Rightarrow> bool \<Rightarrow> (string + unit \<Rightarrow> 'a os_prog) \<Rightarrow> 'a os_prog" where
  "interactable_steps Os self path readonly k =
     OsExists path (\<lambda>exists.
     if \<not> exists then k (Inl (''path does not exist: '' @ path))
     else OsMetadata path (\<lambda>meta.
       k (and_then (map_err (\<lambda>err. ''could not get metadata: '' @ err) meta)
            (check_meta Os self path readonly))))"

text \<open>The mount handler from its end: the mount, after the checks, after the table was read.\<close>

definition perform_mount ::
  "mountd_config \<Rightarrow> mount_arg \<Rightarrow> mount_flag list \<Rightarrow> unit outcome os_prog" where
  "perform_mount cfg m mapped =
     OsMount (mnt_src m) (mnt_dst m) ''xfs'' (sys_flags mapped \<union> {NODEV, NOSUID}) (\<lambda>mounted.
     case mounted of
       Inl err \<Rightarrow> os_fail (Status Internal (''could not mount request: '' @ err))
     | Inr _ \<Rightarrow>
     (case get_owner_pair cfg of (uid, gid) \<Rightarrow>
     OsChown (mnt_dst m) uid gid (\<lambda>owned.
     case owned of
       Inl err \<Rightarrow> os_fail (Status Internal
         (''could not chown mount for specified user ('' @ show_u32 uid @ '':'' @ show_u32 gid
          @ ''): '' @ err))
     | Inr _ \<Rightarrow> OsRet (Reply ()))))"

definition mount_checked ::
  "mountd_config \<Rightarrow> mount_request \<Rightarrow> string list \<Rightarrow> mount_arg \<Rightarrow> unit outcome os_prog" where
  "mount_checked cfg req mounts m =
     OsIsDir (mnt_dst m) (\<lambda>dir.
     if \<not> dir then os_fail (Status FailedPrecondition (''mount dst is not a directory: '' @ mnt_dst m))
     else if paths_contain mounts (mnt_dst m) then OsRet (Reply ())
     else case map_flags (mr_flags req) of
       Inl st \<Rightarrow> os_fail st
     | Inr mapped \<Rightarrow> perform_mount cfg m mapped)"

definition mount_listed ::
  "'w os_api \<Rightarrow> mountd_config \<Rightarrow> mount_request \<Rightarrow> string list \<Rightarrow> unit outcome os_prog" where
  "mount_listed Os cfg req mounts =
     (case ok_or (mr_mount req) (Status InvalidArgument ''missing required `mount` arg'') of
        Inl st \<Rightarrow> os_fail st
      | Inr m \<Rightarrow>
     if mnt_src m = [] then os_fail (Status InvalidArgument ''missing required field `src` in mount'')
     else if mnt_dst m = [] then os_fail (Status InvalidArgument ''missing required field `dst` in mount'')
     else
     interactable_steps Os cfg (mnt_src m) False (\<lambda>src_ok. case src_ok of
       Inl err \<Rightarrow> os_fail (Status PermissionDenied
         (''specified source `'' @ mnt_src m @ ''` cannot be mounted by current config: '' @ err))
     | Inr _ \<Rightarrow>
     interactable_steps Os cfg (mnt_dst m) (List.member (mr_flags req) (mount_flag_to_i32 MfReadOnly))
       (\<lambda>dst_ok. case dst_ok of
       Inl err \<Rightarrow> os_fail (Status PermissionDenied
         (''specified destination `'' @ mnt_dst m @ ''` cannot be mounted by current config: '' @ err))
     | Inr _ \<Rightarrow> mount_checked cfg req mounts m)))"

definition mount_steps :: "'w os_api \<Rightarrow> mountd_config \<Rightarrow> mount_request \<Rightarrow> unit outcome os_prog" where
  "mount_steps Os cfg req =
     OsMountpaths (\<lambda>paths.
     case paths of
       Inl err \<Rightarrow> os_fail (Status Internal (''could not get mountpoints: '' @ err))
     | Inr mounts \<Rightarrow> mount_listed Os cfg req mounts)"

definition perform_unmount :: "unmount_request \<Rightarrow> unit outcome os_prog" where
  "perform_unmount req =
     OsUnmount (ur_path req) (\<lambda>unmounted. case unmounted of
       Inl err \<Rightarrow> os_fail (Status Internal (''could not unmount endpoint: '' @ err))
     | Inr _ \<Rightarrow> OsRet (Reply ()))"

definition unmount_steps :: "'w os_api \<Rightarrow> mountd_config \<Rightarrow> unmount_request \<Rightarrow> unit outcome os_prog" where
  "unmount_steps Os cfg req =
     OsMountpaths (\<lambda>paths.
     case paths of
       Inl err \<Rightarrow> os_fail (Status Internal (''could not get mountpoints: '' @ err))
     | Inr mounts \<Rightarrow>
     if ur_path req = []
     then os_fail (Status InvalidArgument ''missing required field `path` in unmount'')
     else if \<not> paths_contain mounts (ur_path req) then OsRet (Reply ())
     else
     interactable_steps Os cfg (ur_path req) False (\<lambda>path_ok. case path_ok of
       Inl err \<Rightarrow> os_fail (Status PermissionDenied
         (''specified mountpoint `'' @ ur_path req @ ''` cannot be unmounted by current config: '' @ err))
     | Inr _ \<Rightarrow> perform_unmount req))"

lemma run_interactable_steps:
  "run_os (interactable_steps Os cfg path ro k) Os w =
     run_os (k (ensure_interactable Os cfg path ro w)) Os w"
  by (cases "os_metadata Os path w")
    (simp_all add: interactable_steps_def ensure_interactable_def check_meta_def)

lemma run_perform_mount:
  "run_os (perform_mount cfg m mapped) Os w =
     (case os_mount Os (mnt_src m) (mnt_dst m) ''xfs'' (sys_flags mapped \<union> {NODEV, NOSUID}) w of
        (Inl err, w') \<Rightarrow> (Fail (Status Internal (''could not mount request: '' @ err)), w')
      | (Inr _, w') \<Rightarrow>
     (case get_owner_pair cfg of
        (uid, gid) \<Rightarrow>
     (case os_chown Os (mnt_dst m) uid gid w' of
        (Inl err, w'') \<Rightarrow>
          (Fail (Status Internal (''could not chown mount for specified user ('' @ show_u32 uid
                 @ '':'' @ show_u32 gid @ ''): '' @ err)), w'')
      | (Inr _, w'') \<Rightarrow> (Reply (), w''))))"
  by (auto simp: perform_mount_def split: prod.splits sum.splits)

lemma mount_steps_run: "run_os (mount_steps Os cfg q) Os w = mount Os cfg q w"
  unfolding mount_steps_def mount_def mount_listed_def mount_checked_def
  by (auto simp: run_interactable_steps run_perform_mount split: sum.split)

lemma unmount_steps_run: "run_os (unmount_steps Os cfg q) Os w = unmount Os cfg q w"
  unfolding unmount_steps_def unmount_def perform_unmount_def
  by (auto simp: run_interactable_steps split: sum.split prod.split)

section \<open>Interleaved requests\<close>

inductive os_step :: "'w os_api \<Rightarrow> 'a os_prog \<Rightarrow> 'w \<Rightarrow> 'a os_prog \<Rightarrow> 'w \<Rightarrow> bool"
  for Os :: "'w os_api" where
  os_step_mountpaths: "os_step Os (OsMountpaths k) w (k (os_mountpaths Os w)) w"
| os_step_exists: "os_step Os (OsExists p k) w (k (os_exists Os p w)) w"
| os_step_metadata: "os_step Os (OsMetadata p k) w (k (os_metadata Os p w)) w"
| os_step_is_dir: "os_step Os (OsIsDir p k) w (k (os_is_dir Os p w)) w"
| os_step_mount: "os_mount Os s d ty fl w = (r, w') \<Longrightarrow> os_step Os (OsMount s d ty fl k) w (k r) w'"
| os_step_unmount: "os_unmount Os p w = (r, w') \<Longrightarrow> os_step Os (OsUnmount p k) w (k r) w'"
| os_step_chown: "os_chown Os p u g w = (r, w') \<Longrightarrow> os_step Os (OsChown p u g k) w (k r) w'"

text \<open>\<open>seen\<close> is the set of the states the run has gone through.\<close>

inductive os_reach ::
  "'w os_api \<Rightarrow> 'a os_prog list \<Rightarrow> 'w \<Rightarrow> 'w set \<Rightarrow> 'a os_prog list \<Rightarrow> 'w \<Rightarrow> bool"
  for Os :: "'w os_api" where
  os_reach_refl: "os_reach Os ps w {w} ps w"
| os_reach_step: "os_reach Os ps w seen ps' w' \<Longrightarrow> i < length ps' \<Longrightarrow> os_step Os (ps' ! i) w' p w'' \<Longrightarrow>
    os_reach Os ps w (insert w'' seen) (ps'[i := p]) w''"

fun os_next :: "'w os_api \<Rightarrow> 'a os_prog \<Rightarrow> 'w \<Rightarrow> 'a os_prog \<times> 'w" where
  "os_next Os (OsRet x) w = (OsRet x, w)"
| "os_next Os (OsMountpaths k) w = (k (os_mountpaths Os w), w)"
| "os_next Os (OsExists p k) w = (k (os_exists Os p w), w)"
| "os_next Os (OsMetadata p k) w = (k (os_metadata Os p w), w)"
| "os_next Os (OsIsDir p k) w = (k (os_is_dir Os p w), w)"
| "os_next Os (OsMount s d ty fl k) w = (case os_mount Os s d ty fl w of (r, w') \<Rightarrow> (k r, w'))"
| "os_next Os (OsUnmount p k) w = (case os_unmount Os p w of (r, w') \<Rightarrow> (k r, w'))"
| "os_next Os (OsChown p u g k) w = (case os_chown Os p u g w of (r, w') \<Rightarrow> (k r, w'))"

fun os_sched ::
  "'w os_api \<Rightarrow> nat list \<Rightarrow> 'a os_prog list \<Rightarrow> 'w \<Rightarrow> 'a os_prog list \<times> 'w" where
  "os_sched Os [] ps w = (ps, w)"
| "os_sched Os (i # is) ps w =
     (if i < length ps
      then (case os_next Os (ps ! i) w of (p, w') \<Rightarrow> os_sched Os is (ps[i := p]) w')
      else os_sched Os is ps w)"

lemma os_next_step: "os_next Os p w = (p', w') \<Longrightarrow> p' = p \<and> w' = w \<or> os_step Os p w p' w'"
  by (cases p) (auto intro: os_step.intros split: prod.splits)

lemma os_reach_length: "os_reach Os ps w seen ps' w' \<Longrightarrow> length ps' = length ps"
  by (induction rule: os_reach.induct) auto

lemma os_reach_seen: "os_reach Os ps w seen ps' w' \<Longrightarrow> w \<in> seen \<and> w' \<in> seen"
  by (induction rule: os_reach.induct) auto

lemma os_sched_append:
  "os_sched Os (is @ js) ps w = (case os_sched Os is ps w of (ps', w') \<Rightarrow> os_sched Os js ps' w')"
  by (induction "is" arbitrary: ps w) (auto split: prod.splits)

lemma os_sched_reach_aux:
  "os_reach Os ps0 w0 seen ps w \<Longrightarrow> os_sched Os is ps w = (ps', w') \<Longrightarrow>
     \<exists>seen'. os_reach Os ps0 w0 seen' ps' w'"
proof (induction "is" arbitrary: ps w seen)
  case (Cons i "is")
  show ?case
  proof (cases "i < length ps")
    case True
    obtain p t where n: "os_next Os (ps ! i) w = (p, t)" by fastforce
    with Cons.prems(2) True have rest: "os_sched Os is (ps[i := p]) t = (ps', w')" by simp
    from os_next_step [OF n] show ?thesis
    proof
      assume "p = ps ! i \<and> t = w"
      with rest Cons.IH [OF Cons.prems(1)] show ?thesis by simp
    next
      assume "os_step Os (ps ! i) w p t"
      from Cons.IH [OF os_reach_step [OF Cons.prems(1) True this] rest] show ?thesis .
    qed
  next
    case False
    with Cons show ?thesis by simp
  qed
qed auto

lemma os_sched_reach: "os_sched Os is ps w = (ps', w') \<Longrightarrow> \<exists>seen. os_reach Os ps w seen ps' w'"
  by (rule os_sched_reach_aux [OF os_reach_refl])

lemma run_os_next: "os_next Os p w = (p', w') \<Longrightarrow> run_os p Os w = run_os p' Os w'"
  by (cases p) (auto split: prod.splits)

text \<open>A request that is scheduled alone runs to its end as in one piece.\<close>

lemma os_sched_alone:
  assumes "i < length ps" and "run_os (ps ! i) Os w = (x, w')"
  shows "\<exists>n. os_sched Os (replicate n i) ps w = (ps[i := OsRet x], w')"
proof -
  have step: "\<exists>n. os_sched Os (replicate n i) (ps[i := p]) w = res"
    if "os_next Os p w = (p', u)" and "\<exists>n. os_sched Os (replicate n i) (ps[i := p']) u = res"
    for p p' w u res
  proof -
    from that(2) obtain n where "os_sched Os (replicate n i) (ps[i := p']) u = res" ..
    with that(1) assms(1) show ?thesis by (intro exI [of _ "Suc n"]) simp
  qed
  have go: "\<exists>n. os_sched Os (replicate n i) (ps[i := p]) w = (ps[i := OsRet x], w')"
    if "run_os p Os w = (x, w')" for p w
    using that
  proof (induction p arbitrary: w)
    case (OsRet y)
    then show ?case by (intro exI [of _ 0]) simp
  qed (rule step, simp split: prod.splits, auto split: prod.splits)+
  from go [OF assms(2)] show ?thesis by simp
qed

end
