(* ===== verification/Mount_Interleaving.thy ===== *)
theory Mount_Interleaving
  imports Mountd_Steps
begin

text \<open>
  What holds of every interleaving of requests to mountd, call by call, by an argument over
  the states each request has seen (\<open>guarded\<close>), and what two mounts of one target do.
\<close>

section \<open>What every interleaving keeps\<close>

datatype os_act =
    ActMount string string string "sys_flag set"
  | ActUnmount string
  | ActChown string u32 u32

text \<open>
  \<open>guarded Os G p seen\<close>: whatever other requests do between the calls of \<open>p\<close>, each call of
  \<open>p\<close> that changes something is one \<open>G\<close> allows for the states seen until then.
\<close>

primrec guarded ::
  "'w os_api \<Rightarrow> ('w set \<Rightarrow> os_act \<Rightarrow> bool) \<Rightarrow> 'a os_prog \<Rightarrow> 'w set \<Rightarrow> bool" where
  "guarded Os G (OsRet x) seen = True"
| "guarded Os G (OsMountpaths k) seen =
     (\<forall>seen' w. seen \<subseteq> seen' \<longrightarrow> w \<in> seen' \<longrightarrow> guarded Os G (k (os_mountpaths Os w)) seen')"
| "guarded Os G (OsExists p k) seen =
     (\<forall>seen' w. seen \<subseteq> seen' \<longrightarrow> w \<in> seen' \<longrightarrow> guarded Os G (k (os_exists Os p w)) seen')"
| "guarded Os G (OsMetadata p k) seen =
     (\<forall>seen' w. seen \<subseteq> seen' \<longrightarrow> w \<in> seen' \<longrightarrow> guarded Os G (k (os_metadata Os p w)) seen')"
| "guarded Os G (OsIsDir p k) seen =
     (\<forall>seen' w. seen \<subseteq> seen' \<longrightarrow> w \<in> seen' \<longrightarrow> guarded Os G (k (os_is_dir Os p w)) seen')"
| "guarded Os G (OsMount s d ty fl k) seen =
     (\<forall>seen'. seen \<subseteq> seen' \<longrightarrow> G seen' (ActMount s d ty fl) \<and> (\<forall>r. guarded Os G (k r) seen'))"
| "guarded Os G (OsUnmount p k) seen =
     (\<forall>seen'. seen \<subseteq> seen' \<longrightarrow> G seen' (ActUnmount p) \<and> (\<forall>r. guarded Os G (k r) seen'))"
| "guarded Os G (OsChown p u g k) seen =
     (\<forall>seen'. seen \<subseteq> seen' \<longrightarrow> G seen' (ActChown p u g) \<and> (\<forall>r. guarded Os G (k r) seen'))"

lemma guarded_mono:
  assumes "guarded Os G p seen" and "seen \<subseteq> seen'"
  shows "guarded Os G p seen'"
proof -
  have "seen' \<subseteq> later \<Longrightarrow> seen \<subseteq> later" for later using assms(2) by blast
  with assms(1) show ?thesis by (cases p) simp_all
qed

lemma guarded_fail [simp]: "guarded Os G (os_fail st) seen"
  by (simp add: os_fail_def)

text \<open>A path has passed \<open>ensure_interactable\<close>, by what two of the states seen showed.\<close>

definition checked :: "'w os_api \<Rightarrow> mountd_config \<Rightarrow> 'w set \<Rightarrow> string \<Rightarrow> bool \<Rightarrow> bool" where
  "checked Os cfg seen path ro \<longleftrightarrow>
     (\<exists>w \<in> seen. os_exists Os path w) \<and>
     (\<exists>w \<in> seen. \<exists>meta. os_metadata Os path w = Inr meta \<and> check_meta Os cfg path ro meta = Inr ())"

lemma checked_mono: "checked Os cfg seen path ro \<Longrightarrow> seen \<subseteq> seen' \<Longrightarrow> checked Os cfg seen' path ro"
  unfolding checked_def by blast

lemma guarded_interactable:
  assumes "\<And>seen' e. seen \<subseteq> seen' \<Longrightarrow> guarded Os G (k (Inl e)) seen'"
    and "\<And>seen'. seen \<subseteq> seen' \<Longrightarrow> checked Os cfg seen' path ro \<Longrightarrow> guarded Os G (k (Inr ())) seen'"
  shows "guarded Os G (interactable_steps Os cfg path ro k) seen"
proof -
  have "guarded Os G (k (and_then (map_err (\<lambda>err. ''could not get metadata: '' @ err) (os_metadata Os path v))
      (check_meta Os cfg path ro))) seen''"
    if "seen \<subseteq> seen'" "w \<in> seen'" "os_exists Os path w" "seen' \<subseteq> seen''" "v \<in> seen''" for seen' seen'' w v
  proof (cases "os_metadata Os path v")
    case (Inl e)
    with that assms(1) show ?thesis by simp
  next
    case (Inr meta)
    show ?thesis
    proof (cases "check_meta Os cfg path ro meta")
      case (Inl e)
      with that Inr assms(1) show ?thesis by simp
    next
      case (Inr u)
      with that \<open>os_metadata Os path v = Inr meta\<close> have "checked Os cfg seen'' path ro"
        unfolding checked_def by auto
      with that assms(2) \<open>os_metadata Os path v = Inr meta\<close> Inr show ?thesis by simp
    qed
  qed
  then have meta: "guarded Os G (OsMetadata path (\<lambda>meta. k (and_then (map_err (\<lambda>err.
      ''could not get metadata: '' @ err) meta) (check_meta Os cfg path ro)))) seen'"
    if "seen \<subseteq> seen'" "w \<in> seen'" "os_exists Os path w" for seen' w
    using that by (simp only: guarded.simps) blast
  show ?thesis unfolding interactable_steps_def guarded.simps(3)
  proof (intro allI impI)
    fix seen' w
    assume "seen \<subseteq> seen'" and "w \<in> seen'"
    then show "guarded Os G (if \<not> os_exists Os path w then k (Inl (''path does not exist: '' @ path))
        else OsMetadata path (\<lambda>meta. k (and_then (map_err (\<lambda>err.
          ''could not get metadata: '' @ err) meta) (check_meta Os cfg path ro)))) seen'"
      by (cases "os_exists Os path w")
        (simp_all only: not_True_eq_False not_False_eq_True if_True if_False meta assms(1))
  qed
qed

text \<open>What a request to mountd may do.\<close>

datatype mountd_call = MountCall mount_request | UnmountCall unmount_request

fun mountd_task :: "'w os_api \<Rightarrow> mountd_config \<Rightarrow> mountd_call \<Rightarrow> unit outcome os_prog" where
  "mountd_task Os cfg (MountCall q) = mount_steps Os cfg q"
| "mountd_task Os cfg (UnmountCall q) = unmount_steps Os cfg q"

definition may_mount ::
  "'w os_api \<Rightarrow> mountd_config \<Rightarrow> mount_request \<Rightarrow> 'w set \<Rightarrow> mount_arg \<Rightarrow> bool" where
  "may_mount Os cfg q seen m \<longleftrightarrow>
     mr_mount q = Some m \<and> mnt_src m \<noteq> [] \<and> mnt_dst m \<noteq> [] \<and>
     checked Os cfg seen (mnt_src m) False \<and> checked Os cfg seen (mnt_dst m) (1 \<in> set (mr_flags q)) \<and>
     (\<exists>w \<in> seen. os_is_dir Os (mnt_dst m) w)"

lemma may_mount_mono: "may_mount Os cfg q seen m \<Longrightarrow> seen \<subseteq> seen' \<Longrightarrow> may_mount Os cfg q seen' m"
  unfolding may_mount_def using checked_mono by blast

fun allowed_act ::
  "'w os_api \<Rightarrow> mountd_config \<Rightarrow> mountd_call \<Rightarrow> 'w set \<Rightarrow> os_act \<Rightarrow> bool" where
  "allowed_act Os cfg (MountCall q) seen act =
     (case act of
        ActMount s d ty fl \<Rightarrow> (\<exists>m gs. may_mount Os cfg q seen m \<and> map_flags (mr_flags q) = Inr gs \<and>
          s = mnt_src m \<and> d = mnt_dst m \<and> ty = ''xfs'' \<and> fl = sys_flags gs \<union> {NODEV, NOSUID})
      | ActChown p u g \<Rightarrow> (\<exists>m. may_mount Os cfg q seen m \<and> p = mnt_dst m \<and> (u, g) = get_owner_pair cfg)
      | ActUnmount p \<Rightarrow> False)"
| "allowed_act Os cfg (UnmountCall q) seen act =
     (act = ActUnmount (ur_path q) \<and> checked Os cfg seen (ur_path q) False)"

lemma guarded_perform_mount:
  assumes "may_mount Os cfg q seen m" and "map_flags (mr_flags q) = Inr gs"
  shows "guarded Os (allowed_act Os cfg (MountCall q)) (perform_mount cfg m gs) seen"
proof -
  obtain uid gid where owner: "get_owner_pair cfg = (uid, gid)" by fastforce
  have may: "may_mount Os cfg q seen' m" if "seen \<subseteq> seen'" for seen'
    using may_mount_mono [OF assms(1) that] .
  then have mount: "allowed_act Os cfg (MountCall q) seen'
      (ActMount (mnt_src m) (mnt_dst m) ''xfs'' (sys_flags gs \<union> {NODEV, NOSUID}))"
    if "seen \<subseteq> seen'" for seen' using that assms(2) by auto
  from may have "allowed_act Os cfg (MountCall q) seen' (ActChown (mnt_dst m) uid gid)"
    if "seen \<subseteq> seen'" for seen' using that owner by auto
  with mount show ?thesis
    by (auto simp: perform_mount_def owner split: sum.split simp del: allowed_act.simps)
qed

lemma guarded_mount_checked:
  assumes "mr_mount q = Some m" "mnt_src m \<noteq> []" "mnt_dst m \<noteq> []"
    and src: "checked Os cfg seen (mnt_src m) False"
    and dst: "checked Os cfg seen (mnt_dst m) (1 \<in> set (mr_flags q))"
  shows "guarded Os (allowed_act Os cfg (MountCall q)) (mount_checked cfg q mounts m) seen"
proof -
  have "guarded Os (allowed_act Os cfg (MountCall q)) (perform_mount cfg m gs) seen'"
    if "seen \<subseteq> seen'" "w \<in> seen'" "os_is_dir Os (mnt_dst m) w" "map_flags (mr_flags q) = Inr gs"
    for seen' w gs
    by (rule guarded_perform_mount [OF _ that(4)])
      (use assms that checked_mono [OF src that(1)] checked_mono [OF dst that(1)]
       in \<open>auto simp: may_mount_def\<close>)
  then show ?thesis by (simp add: mount_checked_def split: sum.split del: allowed_act.simps)
qed

lemma guarded_mount_listed:
  "guarded Os (allowed_act Os cfg (MountCall q)) (mount_listed Os cfg q mounts) seen"
proof (cases "mr_mount q")
  case None
  then show ?thesis by (simp add: mount_listed_def)
next
  case (Some m)
  then show ?thesis
    by (auto simp: mount_listed_def simp del: allowed_act.simps
        intro!: guarded_interactable guarded_mount_checked) (metis checked_mono)
qed

lemma guarded_unmount:
  "checked Os cfg seen (ur_path q) False \<Longrightarrow>
     guarded Os (allowed_act Os cfg (UnmountCall q)) (perform_unmount q) seen"
  by (auto simp: perform_unmount_def split: sum.split intro: checked_mono)

lemma guarded_task: "guarded Os (allowed_act Os cfg c) (mountd_task Os cfg c) seen"
proof (cases c)
  case (MountCall q)
  then show ?thesis
    by (simp add: mount_steps_def guarded_mount_listed split: sum.split del: allowed_act.simps)
next
  case (UnmountCall q)
  then show ?thesis
    by (auto simp: unmount_steps_def split: sum.split simp del: allowed_act.simps
        intro!: guarded_interactable guarded_unmount)
qed

lemma guarded_step:
  assumes "os_step Os p w p' w'" and "guarded Os G p seen" and "w \<in> seen"
  shows "guarded Os G p' (insert w' seen) \<and>
    (w' = w \<or>
     (\<exists>s d ty fl r. G seen (ActMount s d ty fl) \<and> os_mount Os s d ty fl w = (r, w')) \<or>
     (\<exists>q r. G seen (ActUnmount q) \<and> os_unmount Os q w = (r, w')) \<or>
     (\<exists>q u g r. G seen (ActChown q u g) \<and> os_chown Os q u g w = (r, w')))"
proof -
  have "guarded Os G p' seen \<and>
    (w' = w \<or>
     (\<exists>s d ty fl r. G seen (ActMount s d ty fl) \<and> os_mount Os s d ty fl w = (r, w')) \<or>
     (\<exists>q r. G seen (ActUnmount q) \<and> os_unmount Os q w = (r, w')) \<or>
     (\<exists>q u g r. G seen (ActChown q u g) \<and> os_chown Os q u g w = (r, w')))"
    using assms by (induction rule: os_step.induct) (simp_all, blast+)
  then show ?thesis using guarded_mono [of Os G p' seen] by blast
qed

text \<open>An entry of the table is from the start or was made for a request, after its checks.\<close>

definition mounted_for ::
  "'w os_api \<Rightarrow> 'w os_observers \<Rightarrow> mountd_config \<Rightarrow> mountd_call list \<Rightarrow> 'w set \<Rightarrow> mount_entry \<Rightarrow> bool" where
  "mounted_for Os V cfg calls seen e \<longleftrightarrow>
     (\<exists>q m v. MountCall q \<in> set calls \<and> may_mount Os cfg q seen m \<and> set (mr_flags q) \<subseteq> {0, 1, 2} \<and>
        v \<in> seen \<and> e = asked_entry (obs_resolve V v) (obs_beneath V v) m (mr_flags q))"

lemma mounted_for_mono:
  assumes "mounted_for Os V cfg calls seen e" and "seen \<subseteq> seen'"
  shows "mounted_for Os V cfg calls seen' e"
proof -
  have "may_mount Os cfg q seen m \<Longrightarrow> may_mount Os cfg q seen' m" for q m
    using may_mount_mono assms(2) by blast
  with assms show ?thesis unfolding mounted_for_def by blast
qed

lemma mounted_for_entry:
  "mounted_for Os V cfg calls seen e \<longleftrightarrow>
     (\<exists>q m v. MountCall q \<in> set calls \<and> may_mount Os cfg q seen m \<and> set (mr_flags q) \<subseteq> {0, 1, 2} \<and>
        v \<in> seen \<and> me_src e = mnt_src m \<and> me_dst e = obs_resolve V v (mnt_dst m) \<and>
        (me_fstype e, me_flags e) =
          (if 2 \<in> set (mr_flags q) then obs_beneath V v (mnt_src m)
           else (''xfs'', if 1 \<in> set (mr_flags q) then {RDONLY, NODEV, NOSUID} else {NODEV, NOSUID})))"
proof -
  have "e = asked_entry r b m fs \<longleftrightarrow> me_src e = mnt_src m \<and> me_dst e = r (mnt_dst m) \<and>
      (me_fstype e, me_flags e) = asked_options b m fs" for r b m fs
    by (cases e) (simp add: asked_entry_def prod_eq_iff)
  then show ?thesis unfolding mounted_for_def asked_options_def by simp
qed

text \<open>An entry may be gone where an unmount was requested, checked, of a path that denoted it.\<close>

definition unmounted_for ::
  "'w os_api \<Rightarrow> 'w os_observers \<Rightarrow> mountd_config \<Rightarrow> mountd_call list \<Rightarrow> 'w set \<Rightarrow> mount_entry \<Rightarrow> bool" where
  "unmounted_for Os V cfg calls seen e \<longleftrightarrow>
     (\<exists>q. UnmountCall q \<in> set calls \<and> checked Os cfg seen (ur_path q) False \<and>
        (\<exists>w \<in> seen. me_dst e = obs_resolve V w (ur_path q)))"

lemma unmounted_for_mono:
  "unmounted_for Os V cfg calls seen e \<Longrightarrow> seen \<subseteq> seen' \<Longrightarrow> unmounted_for Os V cfg calls seen' e"
  unfolding unmounted_for_def using checked_mono by (blast dest: subsetD)

lemma remove_last_subset: "set (remove_last P xs) \<subseteq> set xs"
  by (induction xs) auto

lemma remove_last_keeps: "x \<in> set xs \<Longrightarrow> \<not> P x \<Longrightarrow> x \<in> set (remove_last P xs)"
  by (induction xs) auto

lemma allowed_mount_entry:
  assumes laws: "os_laws Os V" and "c \<in> set calls" and "w \<in> seen"
    and allowed: "allowed_act Os cfg c seen (ActMount s d ty fl)"
    and mount: "os_mount Os s d ty fl w = (r, w')"
  shows "obs_table V w' = obs_table V w \<or>
    (\<exists>e. obs_table V w' = obs_table V w @ [e] \<and> mounted_for Os V cfg calls seen e)"
proof (cases r)
  case (Inl err)
  with os_mount_err [OF laws] mount show ?thesis by blast
next
  case (Inr u)
  from allowed obtain q m gs where q: "c = MountCall q" "may_mount Os cfg q seen m"
    "map_flags (mr_flags q) = Inr gs" "s = mnt_src m" "d = mnt_dst m" "ty = ''xfs''"
    "fl = sys_flags gs \<union> {NODEV, NOSUID}"
    by (cases c) auto
  let ?e = "asked_entry (obs_resolve V w) (obs_beneath V w) m (mr_flags q)"
  have "mounted_for Os V cfg calls seen ?e"
    unfolding mounted_for_def using q(1,2) assms(2,3) known_flags [OF q(3)] by blast
  moreover have "obs_table V w' = obs_table V w @ [?e]"
    using os_mount_ok [OF laws mount [unfolded Inr]] by (simp add: asked_entry_mapped [OF q(3) refl] q(4-7))
  ultimately show ?thesis by blast
qed

lemma step_table:
  assumes laws: "os_laws Os V" and c: "c \<in> set calls" "w \<in> seen"
    and step: "os_step Os p w p' w'" "guarded Os (allowed_act Os cfg c) p seen"
  shows "obs_table V w' = obs_table V w \<or>
    (\<exists>e. obs_table V w' = obs_table V w @ [e] \<and> mounted_for Os V cfg calls seen e) \<or>
    (\<exists>q. c = UnmountCall q) \<and> set (obs_table V w') \<subseteq> set (obs_table V w) \<and>
      (\<forall>e \<in> set (obs_table V w). e \<in> set (obs_table V w') \<or> unmounted_for Os V cfg calls seen e)"
proof -
  have unmount: "obs_table V w' = obs_table V w \<or>
      (\<exists>q. c = UnmountCall q) \<and> set (obs_table V w') \<subseteq> set (obs_table V w) \<and>
        (\<forall>e \<in> set (obs_table V w). e \<in> set (obs_table V w') \<or> unmounted_for Os V cfg calls seen e)"
    if act: "allowed_act Os cfg c seen (ActUnmount p)" and um: "os_unmount Os p w = (r, w')" for p r
  proof (cases r)
    case (Inl e)
    with os_unmount_err [OF laws] um show ?thesis by blast
  next
    case (Inr u)
    from act obtain q where q: "c = UnmountCall q" "p = ur_path q" "checked Os cfg seen (ur_path q) False"
      by (cases c) auto
    have table: "obs_table V w' = remove_last (\<lambda>e. me_dst e = obs_resolve V w p) (obs_table V w)"
      by (rule os_unmount_ok [OF laws um [unfolded Inr]])
    have "unmounted_for Os V cfg calls seen e" if "me_dst e = obs_resolve V w p" for e
      using q c that unfolding unmounted_for_def by blast
    then have "\<forall>e \<in> set (obs_table V w). e \<in> set (obs_table V w') \<or> unmounted_for Os V cfg calls seen e"
      unfolding table using remove_last_keeps [of _ _ "\<lambda>e. me_dst e = obs_resolve V w p"] by blast
    moreover have "set (obs_table V w') \<subseteq> set (obs_table V w)" unfolding table by (rule remove_last_subset)
    ultimately show ?thesis using q(1) by blast
  qed
  from guarded_step [OF step c(2), THEN conjunct2] show ?thesis
  proof (elim disjE exE conjE)
    fix s d ty fl r
    assume "allowed_act Os cfg c seen (ActMount s d ty fl)" and "os_mount Os s d ty fl w = (r, w')"
    from allowed_mount_entry [OF laws c this] show ?thesis by blast
  next
    fix p r
    assume "allowed_act Os cfg c seen (ActUnmount p)" and "os_unmount Os p w = (r, w')"
    from unmount [OF this] show ?thesis by blast
  next
    fix q u g r
    assume "os_chown Os q u g w = (r, w')"
    from os_chown_table [OF laws this] show ?thesis by blast
  qed simp
qed

definition table_kept ::
  "'w os_api \<Rightarrow> 'w os_observers \<Rightarrow> mountd_config \<Rightarrow> mountd_call list \<Rightarrow> 'w set \<Rightarrow>
     mount_entry list \<Rightarrow> mount_entry list \<Rightarrow> bool" where
  "table_kept Os V cfg calls seen t0 t \<longleftrightarrow>
     ((\<exists>q. UnmountCall q \<in> set calls) \<or> (\<exists>es. t = t0 @ es)) \<and>
     (\<forall>e \<in> set t0. e \<in> set t \<or> unmounted_for Os V cfg calls seen e)"

lemma reach_tables:
  assumes "os_reach Os ps0 w0 seen ps w" and laws: "os_laws Os V"
    and "ps0 = map (mountd_task Os cfg) calls"
  shows "(\<forall>i < length calls. guarded Os (allowed_act Os cfg (calls ! i)) (ps ! i) seen) \<and>
    (\<forall>e \<in> set (obs_table V w). e \<in> set (obs_table V w0) \<or> mounted_for Os V cfg calls seen e) \<and>
    table_kept Os V cfg calls seen (obs_table V w0) (obs_table V w)"
  using assms(1,3)
proof (induction rule: os_reach.induct)
  case (os_reach_refl ps w)
  then show ?case by (simp add: guarded_task table_kept_def)
next
  case (os_reach_step ps0 w0 seen ps w i p w')
  then have IH: "\<forall>i < length calls. guarded Os (allowed_act Os cfg (calls ! i)) (ps ! i) seen"
    "\<forall>e \<in> set (obs_table V w). e \<in> set (obs_table V w0) \<or> mounted_for Os V cfg calls seen e"
    "table_kept Os V cfg calls seen (obs_table V w0) (obs_table V w)" by blast+
  have "i < length calls"
    using os_reach_length [OF os_reach_step(1)] os_reach_step(2,5) by simp
  then have c: "calls ! i \<in> set calls" and gi: "guarded Os (allowed_act Os cfg (calls ! i)) (ps ! i) seen"
    using IH(1) by simp_all
  have w: "w \<in> seen" using os_reach_seen [OF os_reach_step(1)] by simp
  have progs: "\<forall>j < length calls. guarded Os (allowed_act Os cfg (calls ! j)) (ps[i := p] ! j) (insert w' seen)"
    using IH(1) guarded_step [OF os_reach_step(3) gi w, THEN conjunct1] os_reach_step(2)
    by (auto simp: nth_list_update intro: guarded_mono [OF _ subset_insertI])
  have old: "mounted_for Os V cfg calls seen e \<Longrightarrow> mounted_for Os V cfg calls (insert w' seen) e" for e
    by (rule mounted_for_mono) auto
  have gone: "unmounted_for Os V cfg calls seen e \<Longrightarrow> unmounted_for Os V cfg calls (insert w' seen) e" for e
    by (rule unmounted_for_mono) auto
  have "table_kept Os V cfg calls (insert w' seen) (obs_table V w0) (obs_table V w')"
    using step_table [OF laws c w os_reach_step(3) gi] IH(3) c gone unfolding table_kept_def
    by (elim disjE exE conjE) (simp_all, blast+)
  moreover have "\<forall>e \<in> set (obs_table V w'). e \<in> set (obs_table V w0) \<or> mounted_for Os V cfg calls (insert w' seen) e"
    using step_table [OF laws c w os_reach_step(3) gi] IH(2) old by auto
  ultimately show ?case using progs by blast
qed

text \<open>C8: however mount and unmount requests to mountd interleave, call by call: every mount that
  was not there at the start was made for some request, with known flags, whose source and
  target each passed the checks of the configuration in states the run went through before.
  Where that request does not ask for a bind mount it is an xfs mount with \<open>nodev\<close>, \<open>nosuid\<close> and
  the read-only flag of the request; a bind mount has the type and options of the mount its
  source lay in, in one of these states.  No mount of the start is gone or moved unless an
  unmount has been requested, and a mount of the start that is gone was at a path of such a
  request that had passed the check.\<close>

theorem interleaved_mounts_confined:
  assumes laws: "os_laws Os V"
    and run: "os_reach Os (map (mountd_task Os cfg) calls) w0 seen ps w"
  shows "(\<forall>e \<in> set (obs_table V w). e \<in> set (obs_table V w0) \<or>
      (\<exists>q m v. MountCall q \<in> set calls \<and> may_mount Os cfg q seen m \<and> set (mr_flags q) \<subseteq> {0, 1, 2} \<and>
        v \<in> seen \<and> me_src e = mnt_src m \<and> me_dst e = obs_resolve V v (mnt_dst m) \<and>
        (me_fstype e, me_flags e) =
          (if 2 \<in> set (mr_flags q) then obs_beneath V v (mnt_src m)
           else (''xfs'', if 1 \<in> set (mr_flags q) then {RDONLY, NODEV, NOSUID} else {NODEV, NOSUID})))) \<and>
    ((\<exists>q. UnmountCall q \<in> set calls) \<or> (\<exists>es. obs_table V w = obs_table V w0 @ es)) \<and>
    (\<forall>e \<in> set (obs_table V w0). e \<in> set (obs_table V w) \<or>
      (\<exists>q. UnmountCall q \<in> set calls \<and> checked Os cfg seen (ur_path q) False \<and>
        (\<exists>w' \<in> seen. me_dst e = obs_resolve V w' (ur_path q))))"
proof -
  note kept = reach_tables [OF run laws refl, THEN conjunct2]
  show ?thesis
    using kept [unfolded mounted_for_entry] unfolding unmounted_for_def table_kept_def by blast
qed

theorem interleaved_mounts_confined_witness:
  "\<exists>seen. ex_staged \<in> seen \<and> may_mount mos_os ex_mcfg (ex_mount ''/dev/vg0/3'' ''/stage'' []) seen
     \<lparr>mnt_src = ''/dev/vg0/3'', mnt_dst = ''/stage''\<rparr>"
proof -
  let ?q = "ex_mount ''/dev/vg0/3'' ''/stage'' []"
  have "run_os (mountd_task mos_os ex_mcfg (MountCall ?q)) mos_os ex_host = (Reply (), ex_staged)"
    using ex_mount_stage by (simp add: mount_steps_run)
  then obtain n where run: "os_sched mos_os (replicate n 0) (map (mountd_task mos_os ex_mcfg) [MountCall ?q])
      ex_host = ([OsRet (Reply ())], ex_staged)"
    using os_sched_alone [of 0 "map (mountd_task mos_os ex_mcfg) [MountCall ?q]"] by fastforce
  obtain seen where reach: "os_reach mos_os (map (mountd_task mos_os ex_mcfg) [MountCall ?q]) ex_host seen
      [OsRet (Reply ())] ex_staged" using os_sched_reach [OF run] ..
  have "mos_table ex_staged \<noteq> []" and "mos_table ex_host = []"
    by (simp_all add: ex_staged_def ex_host_def)
  with interleaved_mounts_confined [OF mos_laws reach] os_reach_seen [OF reach]
  obtain m where "may_mount mos_os ex_mcfg ?q seen m"
    by (cases "mos_table ex_staged") auto
  moreover from this have "m = \<lparr>mnt_src = ''/dev/vg0/3'', mnt_dst = ''/stage''\<rparr>"
    by (simp add: may_mount_def ex_mount_def)
  ultimately show ?thesis using os_reach_seen [OF reach] by blast
qed

section \<open>Two mounts of one target\<close>

text \<open>
  What bind mounts need beyond \<open>os_laws\<close>: of a directory on a directory, and not a second time of
  the same source there, one succeeds; the target is a directory afterwards, and a directory
  that is given by its own path, which does not begin with the target's, stays where it is.
  The owner of a directory of a writable mount can be set.
\<close>

definition bind_reliable :: "'w os_api \<Rightarrow> 'w os_observers \<Rightarrow> bool" where
  "bind_reliable Os V \<longleftrightarrow>
     (\<forall>w src dst ty flags. BIND \<in> flags \<longrightarrow> os_is_dir Os src w \<longrightarrow> os_is_dir Os dst w \<longrightarrow>
        (\<forall>e \<in> set (obs_table V w). \<not> (me_src e = src \<and> me_dst e = obs_resolve V w dst)) \<longrightarrow>
        (\<exists>w'. os_mount Os src dst ty flags w = (Inr (), w'))) \<and>
     (\<forall>w w' src dst ty flags u. BIND \<in> flags \<longrightarrow> os_mount Os src dst ty flags w = (Inr u, w') \<longrightarrow>
        os_is_dir Os src w \<longrightarrow> os_is_dir Os dst w \<longrightarrow> obs_resolve V w dst = dst \<longrightarrow>
        os_is_dir Os dst w' \<and>
        (\<forall>p. os_is_dir Os p w \<longrightarrow> obs_resolve V w p = p \<longrightarrow> take (length dst) p \<noteq> dst \<longrightarrow>
           os_is_dir Os p w' \<and> obs_beneath V w' p = obs_beneath V w p)) \<and>
     (\<forall>w p uid gid. os_is_dir Os p w \<longrightarrow> RDONLY \<notin> snd (obs_beneath V w p) \<longrightarrow>
        (\<exists>w'. os_chown Os p uid gid w = (Inr (), w'))) \<and>
     (\<forall>w w' p uid gid r q. os_chown Os p uid gid w = (r, w') \<longrightarrow> os_is_dir Os q w' = os_is_dir Os q w)"

lemma bind_mounts:
  assumes "bind_reliable Os V" and "BIND \<in> flags" and "os_is_dir Os src w" and "os_is_dir Os dst w"
    and "\<And>e. e \<in> set (obs_table V w) \<Longrightarrow> me_src e = src \<Longrightarrow> me_dst e \<noteq> obs_resolve V w dst"
  shows "\<exists>w'. os_mount Os src dst ty flags w = (Inr (), w')"
  using assms(1) [unfolded bind_reliable_def, THEN conjunct1, rule_format, OF assms(2-4)] assms(5) by blast

lemma bind_target:
  assumes "bind_reliable Os V" and "BIND \<in> flags" and "os_mount Os src dst ty flags w = (Inr u, w')"
    and "os_is_dir Os src w" and "os_is_dir Os dst w" and "obs_resolve V w dst = dst"
  shows "os_is_dir Os dst w'"
    and "os_is_dir Os p w \<Longrightarrow> obs_resolve V w p = p \<Longrightarrow> take (length dst) p \<noteq> dst \<Longrightarrow>
      os_is_dir Os p w' \<and> obs_beneath V w' p = obs_beneath V w p"
  using assms(1) [unfolded bind_reliable_def, THEN conjunct2, THEN conjunct1, rule_format, OF assms(2-6)]
  by blast+

lemma bind_owned:
  assumes "bind_reliable Os V" and "os_is_dir Os p w" and "RDONLY \<notin> snd (obs_beneath V w p)"
  shows "\<exists>w'. os_chown Os p uid gid w = (Inr (), w')"
  using assms(1) [unfolded bind_reliable_def, THEN conjunct2, THEN conjunct2, THEN conjunct1, rule_format,
      OF assms(2,3)] .

lemma bind_owned_dir:
  assumes "bind_reliable Os V" and "os_chown Os p uid gid w = (r, w')"
  shows "os_is_dir Os q w' = os_is_dir Os q w"
  using assms(1) [unfolded bind_reliable_def, THEN conjunct2, THEN conjunct2, THEN conjunct2, rule_format,
      OF assms(2)] .

text \<open>A bind mount of a writable directory, performed after its checks, succeeds.\<close>

lemma bind_performed:
  assumes laws: "os_laws Os V" and reliable: "bind_reliable Os V"
    and flags: "map_flags fs = Inr gs" "2 \<in> set fs"
    and dirs: "os_is_dir Os (mnt_src m) w" "os_is_dir Os (mnt_dst m) w"
    and writable: "RDONLY \<notin> snd (obs_beneath V w (mnt_src m))"
    and canonical: "obs_resolve V w (mnt_dst m) = mnt_dst m"
    and new: "\<And>e. e \<in> set (obs_table V w) \<Longrightarrow> me_src e = mnt_src m \<Longrightarrow> me_dst e \<noteq> mnt_dst m"
  shows "\<exists>w'. run_os (perform_mount cfg m gs) Os w = (Reply (), w') \<and>
    obs_table V w' = obs_table V w @ [\<lparr>me_src = mnt_src m, me_dst = mnt_dst m,
      me_fstype = fst (obs_beneath V w (mnt_src m)), me_flags = snd (obs_beneath V w (mnt_src m))\<rparr>] \<and>
    os_is_dir Os (mnt_dst m) w' \<and>
    (\<forall>p. os_is_dir Os p w \<longrightarrow> obs_resolve V w p = p \<longrightarrow> take (length (mnt_dst m)) p \<noteq> mnt_dst m \<longrightarrow>
       os_is_dir Os p w' \<and> obs_beneath V w' p = obs_beneath V w p)"
proof -
  let ?fl = "sys_flags gs \<union> {NODEV, NOSUID}"
  have bind: "BIND \<in> ?fl" using flags by (simp add: sys_flags_mapped)
  obtain w1 where mnt: "os_mount Os (mnt_src m) (mnt_dst m) ''xfs'' ?fl w = (Inr (), w1)"
    using bind_mounts [OF reliable bind dirs] new canonical by metis
  have ops: "new_options V w (mnt_src m) ''xfs'' ?fl = obs_beneath V w (mnt_src m)"
    using bind by (simp add: new_options_def)
  note target = bind_target [OF reliable bind mnt dirs canonical]
  from os_mount_beneath [OF laws mnt canonical] writable ops
  have "RDONLY \<notin> snd (obs_beneath V w1 (mnt_dst m))" by simp
  from bind_owned [OF reliable target(1) this] obtain w2
    where own: "os_chown Os (mnt_dst m) (fst (get_owner_pair cfg)) (snd (get_owner_pair cfg)) w1 = (Inr (), w2)"
    by blast
  with mnt have "run_os (perform_mount cfg m gs) Os w = (Reply (), w2)"
    by (cases "get_owner_pair cfg") (simp add: run_perform_mount)
  then show ?thesis
    using os_mount_ok [OF laws mnt] os_chown_table [OF laws own] os_chown_beneath [OF laws own]
      bind_owned_dir [OF reliable own] target ops canonical
    by (intro exI [of _ w2]) simp
qed

text \<open>The checks of a request, without anything in between, lead to its mount.\<close>

lemma sched_checks:
  assumes allowed: "mount_allowed Os cfg q m w" and table: "os_mountpaths Os w = Inr mounts"
    and unlisted: "\<not> paths_contain mounts (mnt_dst m)" and flags: "map_flags (mr_flags q) = Inr gs"
  shows "os_sched Os (replicate 6 0) (mount_steps Os cfg q # ps) w = (perform_mount cfg m gs # ps, w)"
proof -
  have interactable: "os_exists Os p w \<and> (\<exists>meta. os_metadata Os p w = Inr meta \<and> check_meta Os cfg p ro meta = Inr ())"
    if "ensure_interactable Os cfg p ro w = Inr ()" for p ro
    using that by (cases "os_metadata Os p w") (auto simp: ensure_interactable_def check_meta_def split: if_splits)
  from allowed interactable obtain ms md
    where "os_exists Os (mnt_src m) w" "os_metadata Os (mnt_src m) w = Inr ms"
      "check_meta Os cfg (mnt_src m) False ms = Inr ()"
      "os_exists Os (mnt_dst m) w" "os_metadata Os (mnt_dst m) w = Inr md"
      "check_meta Os cfg (mnt_dst m) (1 \<in> set (mr_flags q)) md = Inr ()"
    unfolding mount_allowed_def by metis
  moreover from allowed have "mr_mount q = Some m" "mnt_src m \<noteq> []" "mnt_dst m \<noteq> []" "os_is_dir Os (mnt_dst m) w"
    by (simp_all add: mount_allowed_def)
  ultimately show ?thesis using table unlisted flags
    by (simp add: eval_nat_numeral mount_steps_def mount_listed_def interactable_steps_def mount_checked_def)
qed

text \<open>C19: the test whether a target is mounted is not atomic with the mount: of two requests for bind
  mounts of different directories on the same target, the second is served while the first is
  between its checks and its mount; both are answered success, both mounts are there, one upon
  the other, and an unmount of the target that succeeds leaves the other in place.  In
  sequence the later request mounts nothing, whatever it is answered.\<close>

theorem concurrent_mounts_stack:
  assumes laws: "os_laws Os V" and reliable: "bind_reliable Os V"
    and canonical: "\<And>w. obs_resolve V w dst = dst" "\<And>w. obs_resolve V w src = src"
    and target: "mnt_src m1 = src" "mnt_dst m1 = dst" "mnt_dst m2 = dst" "mnt_src m2 \<noteq> src"
      "take (length dst) src \<noteq> dst"
    and binds: "2 \<in> set (mr_flags q1)" "2 \<in> set (mr_flags q2)"
      "map_flags (mr_flags q1) = Inr gs1" "map_flags (mr_flags q2) = Inr gs2"
    and allowed: "mount_allowed Os cfg q1 m1 w" "mount_allowed Os cfg q2 m2 w"
    and table: "os_mountpaths Os w = Inr mounts" and absent: "\<not> listed (obs_table V w) dst"
    and sources: "os_is_dir Os src w" "os_is_dir Os (mnt_src m2) w"
      "RDONLY \<notin> snd (obs_beneath V w src)" "RDONLY \<notin> snd (obs_beneath V w (mnt_src m2))"
  shows "\<exists>is w1 w2 e1 e2. os_sched Os is (map (mountd_task Os cfg) [MountCall q1, MountCall q2]) w =
      ([OsRet (Reply ()), OsRet (Reply ())], w2) \<and>
    me_src e1 = src \<and> me_dst e1 = dst \<and> me_src e2 = mnt_src m2 \<and> me_dst e2 = dst \<and>
    obs_table V w2 = obs_table V w @ [e2, e1] \<and>
    (\<forall>w3. unmount Os cfg \<lparr>ur_path = dst\<rparr> w2 = (Reply (), w3) \<longrightarrow> obs_table V w3 = obs_table V w @ [e2]) \<and>
    mount Os cfg q2 w = (Reply (), w1) \<and> obs_table V w1 = obs_table V w @ [e2] \<and>
    (\<forall>out w3. mount Os cfg q1 w1 = (out, w3) \<longrightarrow> obs_table V w3 = obs_table V w @ [e2])"
proof -
  have no_dst: "me_dst e \<noteq> dst" if "e \<in> set (obs_table V w)" for e
    using absent that by (auto simp: listed_def paths_contain_iff)
  have unlisted: "\<not> paths_contain mounts dst"
    using absent listed_mountpaths [OF laws table] by simp
  have dir: "os_is_dir Os dst w" using allowed(1) target(2) by (simp add: mount_allowed_def)
  define e2 where "e2 = \<lparr>me_src = mnt_src m2, me_dst = dst,
    me_fstype = fst (obs_beneath V w (mnt_src m2)), me_flags = snd (obs_beneath V w (mnt_src m2))\<rparr>"
  obtain w1 where first: "run_os (perform_mount cfg m2 gs2) Os w = (Reply (), w1)"
    and t1: "obs_table V w1 = obs_table V w @ [e2]" and dir1: "os_is_dir Os dst w1"
    and kept: "\<forall>p. os_is_dir Os p w \<longrightarrow> obs_resolve V w p = p \<longrightarrow> take (length dst) p \<noteq> dst \<longrightarrow>
       os_is_dir Os p w1 \<and> obs_beneath V w1 p = obs_beneath V w p"
    using bind_performed [OF laws reliable binds(4,2) sources(2), of cfg, unfolded target(3), OF dir sources(4)
        canonical(1) no_dst] unfolding e2_def by blast
  from kept sources(1) canonical(2) target(5)
  have src1: "os_is_dir Os src w1" "obs_beneath V w1 src = obs_beneath V w src" by simp_all
  have new: "me_dst e \<noteq> dst" if "e \<in> set (obs_table V w1)" "me_src e = src" for e
  proof
    assume "me_dst e = dst"
    with that(1) no_dst have "e = e2" by (auto simp: t1)
    with that(2) target(4) show False by (simp add: e2_def)
  qed
  define e1 where "e1 = \<lparr>me_src = src, me_dst = dst,
    me_fstype = fst (obs_beneath V w1 src), me_flags = snd (obs_beneath V w1 src)\<rparr>"
  have writable: "RDONLY \<notin> snd (obs_beneath V w1 src)" using sources(3) src1(2) by simp
  obtain w2 where second: "run_os (perform_mount cfg m1 gs1) Os w1 = (Reply (), w2)"
    and t2': "obs_table V w2 = obs_table V w1 @ [e1]"
    using bind_performed [OF laws reliable binds(3,1), of m1 w1 cfg, unfolded target(1,2), OF src1(1) dir1
        writable canonical(1) new] unfolding e1_def by blast
  then have t2: "obs_table V w2 = obs_table V w @ [e2, e1]" by (simp add: t1)
  have alone: "mount Os cfg q2 w = (Reply (), w1)"
    using first unlisted target(3) binds(4)
    by (simp add: mount_run [OF allowed(2) table] run_perform_mount [unfolded get_owner_pair_def prod.case])
  then have task2: "run_os (mount_steps Os cfg q2) Os w = (Reply (), w1)" by (simp add: mount_steps_run)
  let ?t2 = "mount_steps Os cfg q2" and ?p1 = "perform_mount cfg m1 gs1"
  have "os_sched Os (replicate 6 0) [mount_steps Os cfg q1, ?t2] w = ([?p1, ?t2], w)"
    using sched_checks [OF allowed(1) table] unlisted target(2) binds(3) by simp
  moreover obtain n1 where "os_sched Os (replicate n1 1) [?p1, ?t2] w = ([?p1, OsRet (Reply ())], w1)"
    using os_sched_alone [of 1 "[?p1, ?t2]" Os w] task2 by auto
  moreover obtain n2 where "os_sched Os (replicate n2 0) [?p1, OsRet (Reply ())] w1 =
      ([OsRet (Reply ()), OsRet (Reply ())], w2)"
    using os_sched_alone [of 0 "[?p1, OsRet (Reply ())]" Os w1] second by auto
  ultimately have "os_sched Os (replicate 6 0 @ replicate n1 1 @ replicate n2 0)
      (map (mountd_task Os cfg) [MountCall q1, MountCall q2]) w = ([OsRet (Reply ()), OsRet (Reply ())], w2)"
    by (simp add: os_sched_append)
  moreover have down: "obs_table V w3 = obs_table V w @ [e2]"
    if "unmount Os cfg \<lparr>ur_path = dst\<rparr> w2 = (Reply (), w3)" for w3
  proof -
    have "listed (obs_table V w2) dst" by (simp add: t2 e1_def listed_def paths_contain_def)
    with unmount_effect [OF laws that]
    have "obs_table V w3 = remove_last (\<lambda>x. me_dst x = dst) ((obs_table V w @ [e2]) @ [e1])"
      by (simp add: t2 canonical)
    also have "\<dots> = obs_table V w @ [e2]" by (rule remove_last_snoc) (simp add: e1_def)
    finally show ?thesis .
  qed
  moreover have "obs_table V w3 = obs_table V w @ [e2]" if "mount Os cfg q1 w1 = (out, w3)" for out w3
  proof -
    have "listed (obs_table V w1) dst" by (simp add: t1 e2_def listed_def paths_contain_def)
    moreover have "mr_mount q1 = Some m1" using allowed(1) by (simp add: mount_allowed_def)
    ultimately show ?thesis
      using mount_effect [OF laws that] target(2) t1 by (auto simp: mount_allowed_def)
  qed
  ultimately show ?thesis
    using t1 t2 alone by (intro exI [of _ "replicate 6 0 @ replicate n1 1 @ replicate n2 0"] exI [of _ w1]
        exI [of _ w2] exI [of _ e1] exI [of _ e2]) (simp add: e1_def e2_def)
qed

lemma mos_bind_reliable: "bind_reliable mos_os mos_obs"
  unfolding bind_reliable_def mos_obs_simps
  by (intro conjI allI impI)
    (auto simp: mos_os_def mos_beneath_def list_ex_iff split: option.splits if_splits prod.splits)

text \<open>Two staged volumes, to be published at the same path.\<close>

definition ex_two_staged :: mos where
  "ex_two_staged =
     \<lparr>mos_lvs = [],
      mos_files = [(''/stage'', ex_dir), (''/other'', ex_dir), (''/pod'', ex_dir)],
      mos_table =
        [\<lparr>me_src = ''/dev/vg0/3'', me_dst = ''/stage'', me_fstype = ''xfs'', me_flags = {NODEV, NOSUID}\<rparr>,
         \<lparr>me_src = ''/dev/vg0/f'', me_dst = ''/other'', me_fstype = ''xfs'', me_flags = {NODEV, NOSUID}\<rparr>]\<rparr>"

theorem concurrent_mounts_stack_witness:
  "\<exists>is w2 e1 e2. os_sched mos_os is (map (mountd_task mos_os ex_mcfg)
      [MountCall (ex_mount ''/stage'' ''/pod'' [2]), MountCall (ex_mount ''/other'' ''/pod'' [2])]) ex_two_staged =
      ([OsRet (Reply ()), OsRet (Reply ())], w2) \<and>
    me_src e1 = ''/stage'' \<and> me_src e2 = ''/other'' \<and> mos_table w2 = mos_table ex_two_staged @ [e2, e1]"
proof -
  have paths: "\<not> path_eq ''/pod'' ''/stage''" "\<not> path_eq ''/pod'' ''/other''" by code_simp+
  have allowed: "mount_allowed mos_os ex_mcfg (ex_mount p ''/pod'' [2]) \<lparr>mnt_src = p, mnt_dst = ''/pod''\<rparr> ex_two_staged"
    if "p = ''/stage'' \<or> p = ''/other''" for p
    using that unfolding mount_allowed_def by (auto simp: mos_eval ex_two_staged_def ex_dir_def)
  have flags: "map_flags (mr_flags (ex_mount p d [2])) = Inr [MfBind]" for p d
    by (simp add: ex_mount_def map_flags_def mount_flag_from_i32_def)
  have table: "os_mountpaths mos_os ex_two_staged = Inr [''/stage'', ''/other'']"
    by (simp add: mos_os_def ex_two_staged_def)
  have absent: "\<not> listed (obs_table mos_obs ex_two_staged) ''/pod''"
    using paths by (simp add: listed_def paths_contain_def ex_two_staged_def)
  have dirs: "os_is_dir mos_os ''/stage'' ex_two_staged" "os_is_dir mos_os ''/other'' ex_two_staged"
    "RDONLY \<notin> snd (mos_beneath ex_two_staged ''/stage'')" "RDONLY \<notin> snd (mos_beneath ex_two_staged ''/other'')"
    by (simp_all add: mos_os_def ex_two_staged_def ex_dir_def mos_beneath_def)
  show ?thesis
    using concurrent_mounts_stack [OF mos_laws mos_bind_reliable, where ?q1.0 = "ex_mount ''/stage'' ''/pod'' [2]"
        and ?q2.0 = "ex_mount ''/other'' ''/pod'' [2]" and dst = "''/pod''" and src = "''/stage''",
        OF _ _ _ _ _ _ _ _ _ flags flags allowed [of "''/stage''"] allowed [of "''/other''"] table absent] dirs
    by (fastforce simp: ex_mount_def)
qed

end
