(* ===== verification/Staging.thy ===== *)
theory Staging
  imports Mounting
begin

text \<open>
  The node plugin in front of mountd: what staging and publishing a volume mounts, that
  unpublishing and unstaging undo it, and which RPCs panic.  The proofs rest on the
  interpretation \<open>mountd\<close> of the service contract.
\<close>

section \<open>Staging and publishing\<close>

lemma access_flags_sys:
  "asked_entry resolve beneath \<lparr>mnt_src = src, mnt_dst = dst\<rparr> (access_flags cap) =
     \<lparr>me_src = src, me_dst = resolve dst, me_fstype = ''xfs'',
      me_flags = (if wants_readonly cap then {RDONLY, NODEV, NOSUID} else {NODEV, NOSUID})\<rparr>"
  "asked_entry resolve beneath \<lparr>mnt_src = src, mnt_dst = dst\<rparr> (2 # access_flags cap) =
     \<lparr>me_src = src, me_dst = resolve dst, me_fstype = fst (beneath src), me_flags = snd (beneath src)\<rparr>"
  by (auto simp: asked_entry_def asked_options_def access_flags_def)

lemma wants_readonly_iff:
  "wants_readonly cap \<longleftrightarrow>
     (\<exists>c am. cap = Some c \<and> cap_access_mode c = Some am \<and> am_mode am = 2)"
  by (cases cap; cases "cap_access_mode (the cap)") (auto simp: wants_readonly_def)

text \<open>The runs of the node's handlers against mountd, on the host \<open>w\<close> is the state of.\<close>

abbreviation node_run ::
  "status \<Rightarrow> 'w lvm_api \<Rightarrow> 'w os_api \<Rightarrow> mountd_config \<Rightarrow> ('m creq \<Rightarrow> 'a outcome node_prog) \<Rightarrow> 'm \<Rightarrow> 'w \<Rightarrow>
     'a outcome \<times> 'w" where
  "node_run lost L Os cfg handler m w \<equiv>
     run_node (node_rpc handler m) (mountd_server lost L Os cfg) (os_host Os) w"

lemma stage_reply:
  assumes "os_laws Os V" and "node_run lost L Os cfg node_stage_volume m w = (Reply u, w')"
  shows "\<exists>p. ms_block_path (mountd_server lost L Os cfg) \<lparr>bpr_uuid = nsr_volume_id m\<rparr> w = (Inr p, w) \<and>
    os_exists Os p w \<and> obs_table V w' =
      (if listed (obs_table V w) (nsr_staging_target_path m) then obs_table V w
       else obs_table V w @
         [\<lparr>me_src = p, me_dst = obs_resolve V w (nsr_staging_target_path m), me_fstype = ''xfs'',
           me_flags = (if wants_readonly (nsr_volume_capability m)
                       then {RDONLY, NODEV, NOSUID} else {NODEV, NOSUID})\<rparr>])"
proof -
  have "mnt_invar Os V w" using assms(1) by (simp add: mnt_invar_def)
  from mountd.run_stage_reply [OF this assms(2)] show ?thesis
    unfolding access_flags_sys by (simp only: os_host_def node_host.simps)
qed

lemma publish_reply:
  assumes "os_laws Os V" and "node_run lost L Os cfg node_publish_volume m w = (Reply u, w')"
  shows "\<exists>t. os_create_dir_all Os (npr_target_path m) w = (Inr (), t) \<and> obs_table V w' =
      (if listed (obs_table V w) (npr_target_path m) then obs_table V w
       else obs_table V w @
         [\<lparr>me_src = npr_staging_target_path m, me_dst = obs_resolve V t (npr_target_path m),
           me_fstype = fst (obs_beneath V t (npr_staging_target_path m)),
           me_flags = snd (obs_beneath V t (npr_staging_target_path m))\<rparr>])"
proof -
  have "mnt_invar Os V w" using assms(1) by (simp add: mnt_invar_def)
  from mountd.run_publish_reply [OF this assms(2)] show ?thesis
    unfolding access_flags_sys by (simp only: os_host_def node_host.simps)
qed

lemma publish_reply_existing:
  assumes laws: "os_laws Os V" and run: "node_run lost L Os cfg node_publish_volume m w = (Reply u, w')"
    and staging: "os_exists Os (npr_staging_target_path m) w"
  shows "\<exists>t. os_create_dir_all Os (npr_target_path m) w = (Inr (), t) \<and> obs_table V w' =
      (if listed (obs_table V w) (npr_target_path m) then obs_table V w
       else obs_table V w @
         [\<lparr>me_src = npr_staging_target_path m, me_dst = obs_resolve V t (npr_target_path m),
           me_fstype = fst (obs_beneath V w (npr_staging_target_path m)),
           me_flags = snd (obs_beneath V w (npr_staging_target_path m))\<rparr>])"
  using publish_reply [OF laws run] os_create_beneath [OF laws _ staging] by fastforce

lemma unpublish_reply:
  assumes "os_laws Os V" and "node_run lost L Os cfg node_unpublish_volume m w = (Reply u, w')"
  shows "obs_table V w' =
    (if listed (obs_table V w) (nup_target_path m)
     then remove_last (\<lambda>e. me_dst e = obs_resolve V w (nup_target_path m)) (obs_table V w)
     else obs_table V w)"
  using mountd.run_unpublish [OF _ assms(2), of V] assms(1) by (auto simp: mnt_invar_def)

lemma unstage_reply:
  assumes "os_laws Os V" and "node_run lost L Os cfg node_unstage_volume m w = (Reply u, w')"
  shows "obs_table V w' =
    (if listed (obs_table V w) (nur_staging_target_path m)
     then remove_last (\<lambda>e. me_dst e = obs_resolve V w (nur_staging_target_path m)) (obs_table V w)
     else obs_table V w)"
  using mountd.run_unstage [OF _ assms(2), of V] assms(1) by (auto simp: mnt_invar_def)

lemma get_lvm_block_path_Reply:
  "ms_block_path (mountd_server lost L Os cfg) q w = (Inr p, w) \<longleftrightarrow>
     (\<exists>u l. resource_uuid L (bpr_uuid q) = Inr u \<and> lv_from_uuid L u w = Inr l \<and> p = lvl_path l)"
  by (auto simp: mountd_server_def client_result_Inr get_lvm_block_path_def rust_simps)

section \<open>Example runs\<close>

definition ex_vcap :: "i32 \<Rightarrow> volume_capability" where
  "ex_vcap n = \<lparr>cap_access_mode = Some \<lparr>am_mode = n\<rparr>, cap_access_type = Some (MountVolume ''xfs'' [] [])\<rparr>"

definition ex_stage :: node_stage_request where
  "ex_stage = \<lparr>nsr_volume_id = ''uuid-0'', nsr_staging_target_path = ''/stage'',
     nsr_volume_capability = Some (ex_vcap 1)\<rparr>"

definition ex_publish :: node_publish_request where
  "ex_publish = \<lparr>npr_volume_id = ''uuid-0'', npr_staging_target_path = ''/stage'',
     npr_target_path = ''/pod'', npr_volume_capability = Some (ex_vcap 1), npr_readonly = True\<rparr>"

definition ex_unpublish :: node_unpublish_request where
  "ex_unpublish = \<lparr>nup_volume_id = ''uuid-0'', nup_target_path = ''/pod''\<rparr>"

definition ex_unstage :: node_unstage_request where
  "ex_unstage = \<lparr>nur_volume_id = ''uuid-0'', nur_staging_target_path = ''/stage''\<rparr>"

abbreviation ex_node_run :: "('m creq \<Rightarrow> 'a outcome node_prog) \<Rightarrow> 'm \<Rightarrow> mos \<Rightarrow> 'a outcome \<times> mos" where
  "ex_node_run \<equiv> node_run (Status Unavailable ''connection reset'') mos_lvm mos_os ex_mcfg"

definition ex_published :: mos where
  "ex_published = ex_staged\<lparr>
     mos_files := (''/pod'', ex_dir) # (''/pod'', ex_dir) # mos_files ex_staged,
     mos_table := mos_table ex_staged @ [\<lparr>me_src = ''/stage'', me_dst = ''/pod'', me_fstype = ''xfs'',
        me_flags = {NODEV, NOSUID}\<rparr>]\<rparr>"

lemma ex_block_path:
  assumes "mos_lvs w = mos_lvs ex_host"
  shows "ms_block_path ex_mountd \<lparr>bpr_uuid = ''uuid-0''\<rparr> w = (Inr ''/dev/vg0/3'', w)"
  using assms by (simp add: get_lvm_block_path_Reply) (simp add: mos_lvm_def ex_host_def)

lemma ex_run_stage: "ex_node_run node_stage_volume ex_stage ex_host = (Reply (), ex_staged)"
proof -
  have "ms_mount ex_mountd \<lparr>mr_mount = Some \<lparr>mnt_src = ''/dev/vg0/3'', mnt_dst = ''/stage''\<rparr>, mr_flags = []\<rparr>
      ex_host = (Inr (), ex_staged)"
    using ex_mount_stage by (simp add: mountd_server_def client_result_Inr ex_mount_def)
  moreover have "os_exists mos_os ''/dev/vg0/3'' ex_host" "os_exists mos_os ''/stage'' ex_host"
    by (simp_all add: mos_eval)
  ultimately show ?thesis
    by (simp add: node_rpc_eq node_stage_volume_def ex_stage_def ex_vcap_def wants_readonly_def
        ex_block_path os_host_def)
qed

definition ex_pod_made :: mos where
  "ex_pod_made = ex_staged\<lparr>mos_files := (''/pod'', ex_dir) # mos_files ex_staged\<rparr>"

definition ex_unpublished :: mos where
  "ex_unpublished = ex_staged\<lparr>mos_files := filter (\<lambda>(q, _). q \<noteq> ''/pod'') (mos_files ex_staged)\<rparr>"

lemma ex_mount_pod:
  "mount mos_os ex_mcfg (ex_mount ''/stage'' ''/pod'' (2 # access_flags cap)) ex_pod_made = (Reply (), ex_published)"
proof -
  let ?flags = "2 # access_flags cap"
  have allowed: "mount_allowed mos_os ex_mcfg (ex_mount ''/stage'' ''/pod'' ?flags)
      \<lparr>mnt_src = ''/stage'', mnt_dst = ''/pod''\<rparr> ex_pod_made"
    unfolding mount_allowed_def by (simp add: mos_eval ex_dir_def ex_pod_made_def)
  have paths: "os_mountpaths mos_os ex_pod_made = Inr [''/stage'']" by (simp add: mos_eval ex_pod_made_def)
  have "\<not> path_eq ''/pod'' ''/stage''" by code_simp
  moreover obtain gs where "map_flags ?flags = Inr gs" and "BIND \<in> sys_flags gs"
    by (cases "wants_readonly cap")
      (auto simp: map_flags_def access_flags_def mount_flag_from_i32_def sys_flags_def)
  ultimately show ?thesis
    unfolding mount_run [OF allowed paths]
    by (simp add: paths_contain_def ex_mount_def)
      (simp add: mos_os_def mos_beneath_def ex_published_def ex_mcfg_def ex_dir_def ex_pod_made_def ex_staged_def)
qed

lemma ex_unmount_pod:
  "unmount mos_os ex_mcfg \<lparr>ur_path = ''/pod''\<rparr> ex_published =
    (Reply (), ex_published\<lparr>mos_table := mos_table ex_staged\<rparr>)"
proof -
  have "os_mountpaths mos_os ex_published = Inr [''/stage'', ''/pod'']"
    by (simp add: mos_os_def ex_published_def ex_staged_def)
  moreover have "ensure_interactable mos_os ex_mcfg ''/pod'' False ex_published = Inr ()"
    by (simp add: mos_eval ex_published_def ex_dir_def)
  moreover have "os_unmount mos_os ''/pod'' ex_published =
      (Inr (), ex_published\<lparr>mos_table := mos_table ex_staged\<rparr>)"
    by (simp add: mos_os_def ex_published_def ex_staged_def)
  ultimately show ?thesis by (simp add: unmount_def paths_contain_def)
qed

lemma ex_unmount_last:
  "unmount mos_os ex_mcfg \<lparr>ur_path = ''/stage''\<rparr> ex_unpublished = (Reply (), ex_unpublished\<lparr>mos_table := []\<rparr>)"
proof -
  have "os_mountpaths mos_os ex_unpublished = Inr [''/stage'']"
    by (simp add: mos_os_def ex_unpublished_def ex_staged_def)
  moreover have "ensure_interactable mos_os ex_mcfg ''/stage'' False ex_unpublished = Inr ()"
    by (simp add: mos_eval ex_unpublished_def)
  moreover have "os_unmount mos_os ''/stage'' ex_unpublished = (Inr (), ex_unpublished\<lparr>mos_table := []\<rparr>)"
    by (simp add: mos_os_def ex_unpublished_def ex_staged_def)
  ultimately show ?thesis by (simp add: unmount_def paths_contain_def)
qed

lemma ex_dirs:
  "os_create_dir_all mos_os ''/pod'' ex_staged = (Inr (), ex_pod_made)"
  "os_exists mos_os ''/stage'' ex_pod_made"
  "os_remove_dir mos_os ''/pod'' (ex_published\<lparr>mos_table := mos_table ex_staged\<rparr>) = (Inr (), ex_unpublished)"
  "os_exists mos_os ''/dev/vg0/3'' ex_unpublished"
  by (simp add: mos_eval ex_dir_def ex_pod_made_def, simp add: mos_eval ex_pod_made_def,
      simp add: mos_os_def ex_published_def ex_unpublished_def ex_staged_def,
      simp add: mos_eval ex_unpublished_def)

lemma ex_run_publish_as:
  "ex_node_run node_publish_volume (ex_publish\<lparr>npr_volume_capability := Some cap\<rparr>) ex_staged = (Reply (), ex_published)"
proof -
  have "ms_mount ex_mountd \<lparr>mr_mount = Some \<lparr>mnt_src = ''/stage'', mnt_dst = ''/pod''\<rparr>,
      mr_flags = 2 # access_flags (Some cap)\<rparr> ex_pod_made = (Inr (), ex_published)"
    using ex_mount_pod by (simp add: mountd_server_def client_result_Inr ex_mount_def)
  moreover have "mos_lvs ex_staged = mos_lvs ex_host" by (simp add: ex_staged_def)
  ultimately show ?thesis
    by (cases "wants_readonly (Some cap)")
      (simp_all add: node_rpc_eq node_publish_volume_def ex_publish_def access_flags_def
        ex_block_path os_host_def ex_dirs)
qed

lemma ex_run_publish: "ex_node_run node_publish_volume ex_publish ex_staged = (Reply (), ex_published)"
  using ex_run_publish_as [of "ex_vcap 1"] by (simp add: ex_publish_def)

lemma ex_run_unpublish: "ex_node_run node_unpublish_volume ex_unpublish ex_published = (Reply (), ex_unpublished)"
proof -
  have "ms_unmount ex_mountd \<lparr>ur_path = ''/pod''\<rparr> ex_published =
      (Inr (), ex_published\<lparr>mos_table := mos_table ex_staged\<rparr>)"
    using ex_unmount_pod by (simp add: mountd_server_def client_result_Inr)
  moreover have "mos_lvs ex_published = mos_lvs ex_host" by (simp add: ex_published_def ex_staged_def)
  ultimately show ?thesis
    by (simp add: node_rpc_eq node_unpublish_volume_def ex_unpublish_def ex_block_path os_host_def ex_dirs)
qed

lemma ex_run_unstage:
  "ex_node_run node_unstage_volume ex_unstage ex_unpublished = (Reply (), ex_unpublished\<lparr>mos_table := []\<rparr>)"
proof -
  have "ms_unmount ex_mountd \<lparr>ur_path = ''/stage''\<rparr> ex_unpublished =
      (Inr (), ex_unpublished\<lparr>mos_table := []\<rparr>)"
    using ex_unmount_last by (simp add: mountd_server_def client_result_Inr)
  moreover have "mos_lvs ex_unpublished = mos_lvs ex_host" by (simp add: ex_unpublished_def ex_staged_def)
  ultimately show ?thesis
    by (simp add: node_rpc_eq node_unstage_volume_def ex_unstage_def ex_block_path os_host_def ex_dirs)
qed

section \<open>What a success promises\<close>

text \<open>C26: a successful stage has found the block device of the volume, which exists, and has
  mounted it at the staging path, read-only exactly for the access mode
  \<open>SINGLE_NODE_READER_ONLY\<close>, unless that path was a mount point already: then it has changed
  no mount, whatever volume is mounted there.\<close>

theorem stage_mounts_device:
  assumes "os_laws Os V" and "node_run lost L Os cfg node_stage_volume m w = (Reply (), w')"
  shows "\<exists>u l. resource_uuid L (nsr_volume_id m) = Inr u \<and> lv_from_uuid L u w = Inr l \<and>
    os_exists Os (lvl_path l) w \<and> obs_table V w' =
      (if listed (obs_table V w) (nsr_staging_target_path m) then obs_table V w
       else obs_table V w @
         [\<lparr>me_src = lvl_path l, me_dst = obs_resolve V w (nsr_staging_target_path m),
           me_fstype = ''xfs'',
           me_flags = (if \<exists>c am. nsr_volume_capability m = Some c \<and> cap_access_mode c = Some am \<and>
                         am_mode am = 2
                       then {RDONLY, NODEV, NOSUID} else {NODEV, NOSUID})\<rparr>])"
proof -
  from stage_reply [OF assms] obtain p u l
    where "resource_uuid L (nsr_volume_id m) = Inr u" "lv_from_uuid L u w = Inr l" "p = lvl_path l"
      and "os_exists Os p w"
      and "obs_table V w' = (if listed (obs_table V w) (nsr_staging_target_path m) then obs_table V w
       else obs_table V w @
         [\<lparr>me_src = p, me_dst = obs_resolve V w (nsr_staging_target_path m), me_fstype = ''xfs'',
           me_flags = (if wants_readonly (nsr_volume_capability m)
                       then {RDONLY, NODEV, NOSUID} else {NODEV, NOSUID})\<rparr>])"
    unfolding get_lvm_block_path_Reply block_path_request.simps by blast
  then show ?thesis unfolding wants_readonly_iff [symmetric] by (intro exI [of _ u] exI [of _ l]) simp
qed

theorem stage_mounts_device_witness:
  "mos_table ex_staged = [\<lparr>me_src = ''/dev/vg0/3'', me_dst = ''/stage'', me_fstype = ''xfs'',
     me_flags = {NODEV, NOSUID}\<rparr>]"
proof -
  have "\<not> listed (mos_table ex_host) ''/stage''" "mos_table ex_host = []"
    by (simp_all add: listed_def paths_contain_def ex_host_def)
  moreover have "lv_from_uuid mos_lvm ''uuid-0'' ex_host = Inr l \<Longrightarrow> lvl_path l = ''/dev/vg0/3''" for l
    by (auto simp: mos_lvm_def ex_host_def)
  moreover have "resource_uuid mos_lvm ''uuid-0'' = Inr u \<Longrightarrow> u = ''uuid-0''" for u
    by (simp add: mos_lvm_def)
  ultimately show ?thesis
    using stage_mounts_device [OF mos_laws ex_run_stage] by (auto simp: ex_stage_def ex_vcap_def)
qed

text \<open>C27: a successful publish has bound the staging path to the target path, unless the target
  was a mount point already.  The new mount has the type and the options of the mount the
  staging path lay in before, so that neither the field \<open>readonly\<close> of the request nor its access
  mode has any effect.\<close>

theorem publish_binds_staging:
  assumes "os_laws Os V" and "os_exists Os (npr_staging_target_path m) w"
    and "node_run lost L Os cfg node_publish_volume m w = (Reply (), w')"
  shows "\<exists>t. os_create_dir_all Os (npr_target_path m) w = (Inr (), t) \<and> obs_table V w' =
      (if listed (obs_table V w) (npr_target_path m) then obs_table V w
       else obs_table V w @
         [\<lparr>me_src = npr_staging_target_path m, me_dst = obs_resolve V t (npr_target_path m),
           me_fstype = fst (obs_beneath V w (npr_staging_target_path m)),
           me_flags = snd (obs_beneath V w (npr_staging_target_path m))\<rparr>])"
  by (rule publish_reply_existing [OF assms(1,3,2)])

lemma ex_unlisted: "\<not> listed (mos_table ex_host) p" "\<not> listed (mos_table ex_staged) ''/pod''"
proof -
  have "\<not> path_eq ''/pod'' ''/stage''" by code_simp
  then show "\<not> listed (mos_table ex_staged) ''/pod''"
    by (simp add: listed_def paths_contain_def ex_staged_def)
qed (simp add: listed_def paths_contain_def ex_host_def)

lemma ex_staged_exists: "os_exists mos_os ''/stage'' ex_staged"
  by (simp add: mos_eval)

theorem publish_binds_staging_witness:
  "npr_readonly ex_publish \<and> mos_table ex_published = mos_table ex_staged @
     [\<lparr>me_src = ''/stage'', me_dst = ''/pod'', me_fstype = ''xfs'', me_flags = {NODEV, NOSUID}\<rparr>]"
proof -
  have "mos_beneath ex_staged ''/stage'' = (''xfs'', {NODEV, NOSUID})"
    by (simp add: mos_beneath_def ex_staged_def)
  then show ?thesis
    using publish_binds_staging [OF mos_laws _ ex_run_publish] ex_unlisted ex_staged_exists
    by (auto simp: ex_publish_def)
qed

text \<open>C28: where a volume is staged at a path that was no mount point and that denotes itself, and is
  then published from there: the mount at the target is writable or read-only as the stage
  asked for, whatever the access mode and the field \<open>readonly\<close> of the publish.  A publish as
  \<open>SINGLE_NODE_READER_ONLY\<close>, or with \<open>readonly\<close>, of a volume that was staged writable succeeds, and
  the workload can write.\<close>

theorem published_as_staged:
  assumes laws: "os_laws Os V"
    and stage: "node_run lost L Os cfg node_stage_volume m w = (Reply (), w1)"
    and fresh: "\<not> listed (obs_table V w) (nsr_staging_target_path m)"
      "obs_resolve V w (nsr_staging_target_path m) = nsr_staging_target_path m"
    and staging: "npr_staging_target_path q = nsr_staging_target_path m"
      "os_exists Os (nsr_staging_target_path m) w1"
    and publish: "node_run lost L Os cfg node_publish_volume q w1 = (Reply (), w2)"
    and target: "\<not> listed (obs_table V w1) (npr_target_path q)"
  shows "\<exists>e. obs_table V w2 = obs_table V w1 @ [e] \<and> me_src e = nsr_staging_target_path m \<and>
    me_fstype e = ''xfs'' \<and>
    me_flags e = (if \<exists>c am. nsr_volume_capability m = Some c \<and> cap_access_mode c = Some am \<and> am_mode am = 2
                  then {RDONLY, NODEV, NOSUID} else {NODEV, NOSUID})"
proof -
  have "mnt_invar Os V w" using laws by (simp add: mnt_invar_def)
  from mountd.run_stage_beneath [OF this stage fresh]
  have "obs_beneath V w1 (nsr_staging_target_path m) =
      (''xfs'', if wants_readonly (nsr_volume_capability m) then {RDONLY, NODEV, NOSUID} else {NODEV, NOSUID})" .
  with publish_reply_existing [OF laws publish] staging target show ?thesis
    unfolding wants_readonly_iff [symmetric] by auto
qed

text \<open>The volume is staged for \<open>SINGLE_NODE_WRITER\<close> and published for \<open>SINGLE_NODE_READER_ONLY\<close>.\<close>

theorem published_as_staged_witness:
  "ex_node_run node_publish_volume (ex_publish\<lparr>npr_volume_capability := Some (ex_vcap 2)\<rparr>) ex_staged =
     (Reply (), ex_published) \<and>
   (\<exists>e. mos_table ex_published = mos_table ex_staged @ [e] \<and> me_flags e = {NODEV, NOSUID})"
proof -
  note publish = ex_run_publish_as [of "ex_vcap 2"]
  have fresh: "\<not> listed (obs_table mos_obs ex_host) (nsr_staging_target_path ex_stage)"
    "\<not> listed (obs_table mos_obs ex_staged)
       (npr_target_path (ex_publish\<lparr>npr_volume_capability := Some (ex_vcap 2)\<rparr>))"
    using ex_unlisted by (simp_all add: ex_publish_def)
  have staging: "npr_staging_target_path (ex_publish\<lparr>npr_volume_capability := Some (ex_vcap 2)\<rparr>) =
      nsr_staging_target_path ex_stage"
    "os_exists mos_os (nsr_staging_target_path ex_stage) ex_staged"
    using ex_staged_exists by (simp_all add: ex_publish_def ex_stage_def)
  from published_as_staged [OF mos_laws ex_run_stage fresh(1) _ staging publish fresh(2)] publish
  show ?thesis by (auto simp: ex_stage_def ex_vcap_def)
qed

text \<open>Two publish requests that differ in the field \<open>readonly\<close> only are served by the same calls.\<close>

lemma publish_ignores_readonly:
  "node_rpc node_publish_volume (m\<lparr>npr_readonly := b\<rparr>) = node_rpc node_publish_volume m"
  by (simp add: node_rpc_eq node_publish_volume_def cong: if_cong)

text \<open>A publish of a volume that is not staged is answered FailedPrecondition, after the
  target directory has been created, and the directory is left there.\<close>

lemma publish_leaves_directory:
  assumes "npr_volume_id m \<noteq> []" "npr_staging_target_path m \<noteq> []" "npr_volume_capability m \<noteq> None"
    and "ms_block_path (mountd_server lost L Os cfg) \<lparr>bpr_uuid = npr_volume_id m\<rparr> w = (Inr p, w)"
    and "os_create_dir_all Os (npr_target_path m) w = (Inr (), t)"
    and "\<not> os_exists Os (npr_staging_target_path m) t"
  shows "\<exists>text. node_run lost L Os cfg node_publish_volume m w = (Fail (Status FailedPrecondition text), t)"
  using assms by (simp add: node_rpc_eq node_publish_volume_def os_host_def n_fail_def)

lemma publish_leaves_directory_witness:
  "\<exists>text. ex_node_run node_publish_volume (ex_publish\<lparr>npr_staging_target_path := ''/gone''\<rparr>) ex_host =
     (Fail (Status FailedPrecondition text), ex_host\<lparr>mos_files := (''/pod'', ex_dir) # mos_files ex_host\<rparr>)"
proof (rule publish_leaves_directory)
  show "ms_block_path ex_mountd \<lparr>bpr_uuid = npr_volume_id (ex_publish\<lparr>npr_staging_target_path := ''/gone''\<rparr>)\<rparr>
      ex_host = (Inr ''/dev/vg0/3'', ex_host)"
    by (simp add: ex_publish_def ex_block_path)
qed (simp_all add: ex_publish_def mos_os_def ex_host_def ex_dir_def)

section \<open>The life of a volume on a node\<close>

lemma volume_lifecycle_aux:
  assumes laws: "os_laws Os V"
    and canonical: "\<And>w. obs_resolve V w stage = stage" "\<And>w. obs_resolve V w target = target"
    and paths: "\<not> path_eq target stage"
      "\<not> listed (obs_table V w) stage" "\<not> listed (obs_table V w) target"
    and args: "nsr_staging_target_path m1 = stage" "npr_staging_target_path m2 = stage"
      "npr_target_path m2 = target" "nup_target_path m3 = target" "nur_staging_target_path m4 = stage"
    and stage: "node_run lost L Os cfg node_stage_volume m1 w = (Reply (), w1)"
    and publish: "node_run lost L Os cfg node_publish_volume m2 w1 = (Reply (), w2)"
    and unpublish: "node_run lost L Os cfg node_unpublish_volume m3 w2 = (Reply (), w3)"
    and unstage: "node_run lost L Os cfg node_unstage_volume m4 w3 = (Reply (), w4)"
  shows "length (obs_table V w2) = length (obs_table V w) + 2 \<and> obs_table V w4 = obs_table V w"
proof -
  have snoc: "listed (xs @ [e]) p \<longleftrightarrow> listed xs p \<or> path_eq p (me_dst e)" for xs e p
    by (auto simp: listed_def paths_contain_iff)
  obtain e1 where t1: "obs_table V w1 = obs_table V w @ [e1]" and e1: "me_dst e1 = stage"
    using stage_reply [OF laws stage] paths(2) by (auto simp: args canonical)
  have "\<not> listed (obs_table V w1) target" using paths by (simp add: t1 snoc e1)
  then obtain e2 where t2: "obs_table V w2 = obs_table V w1 @ [e2]" and e2: "me_dst e2 = target"
    using publish_reply [OF laws publish] by (auto simp: args canonical)
  have t3: "obs_table V w3 = obs_table V w1"
    using unpublish_reply [OF laws unpublish]
    by (simp add: args canonical t2 snoc e2 remove_last_snoc)
  have "obs_table V w4 = obs_table V w"
    using unstage_reply [OF laws unstage]
    by (simp add: args canonical t3 t1 snoc e1 remove_last_snoc)
  then show ?thesis by (simp add: t2 t1)
qed

text \<open>C14: staging a volume, publishing it, unpublishing it and unstaging it, when each call
  succeeds, leaves the table of mounts as it was, where the two paths denote themselves, are
  different and are no mount points at first.\<close>

theorem volume_lifecycle:
  assumes laws: "os_laws Os V"
    and canonical: "\<And>w. obs_resolve V w stage = stage" "\<And>w. obs_resolve V w target = target"
    and paths: "\<not> path_eq target stage"
      "\<not> listed (obs_table V w) stage" "\<not> listed (obs_table V w) target"
    and args: "nsr_staging_target_path m1 = stage" "npr_staging_target_path m2 = stage"
      "npr_target_path m2 = target" "nup_target_path m3 = target" "nur_staging_target_path m4 = stage"
    and stage: "node_run lost L Os cfg node_stage_volume m1 w = (Reply (), w1)"
    and publish: "node_run lost L Os cfg node_publish_volume m2 w1 = (Reply (), w2)"
    and unpublish: "node_run lost L Os cfg node_unpublish_volume m3 w2 = (Reply (), w3)"
    and unstage: "node_run lost L Os cfg node_unstage_volume m4 w3 = (Reply (), w4)"
  shows "length (obs_table V w2) = length (obs_table V w) + 2 \<and> obs_table V w4 = obs_table V w"
  by (rule volume_lifecycle_aux [OF assms])

theorem volume_lifecycle_witness:
  "length (mos_table ex_published) = length (mos_table ex_host) + 2 \<and>
   mos_table (ex_unpublished\<lparr>mos_table := []\<rparr>) = mos_table ex_host"
proof -
  have "\<not> path_eq ''/pod'' ''/stage''" by code_simp
  moreover have "\<not> listed (mos_table ex_host) p" for p
    by (simp add: listed_def paths_contain_def ex_host_def)
  ultimately show ?thesis
    using volume_lifecycle [OF mos_laws _ _ _ _ _ _ _ _ _ _
        ex_run_stage ex_run_publish ex_run_unpublish ex_run_unstage]
    by (simp add: ex_stage_def ex_publish_def ex_unpublish_def ex_unstage_def)
qed

text \<open>An unpublish whose unmount succeeds is answered success also when the target directory
  cannot be removed.\<close>

lemma unpublish_ignores_directory:
  assumes "nup_volume_id m \<noteq> []" "nup_target_path m \<noteq> []"
    and "ms_block_path (mountd_server lost L Os cfg) \<lparr>bpr_uuid = nup_volume_id m\<rparr> w = (Inr p, w)"
    and "ms_unmount (mountd_server lost L Os cfg) \<lparr>ur_path = nup_target_path m\<rparr> w = (Inr (), w1)"
    and "os_remove_dir Os (nup_target_path m) w1 = (Inl err, w2)"
  shows "node_run lost L Os cfg node_unpublish_volume m w = (Reply (), w2)"
  using assms by (simp add: node_rpc_eq node_unpublish_volume_def os_host_def)

text \<open>Behind its interceptor no volume RPC of the node plugin panics, whatever mountd and the
  host answer; the two RPCs it does not implement always do.\<close>

lemma node_panics:
  "fst (run_node (node_rpc node_stage_volume m1) srv host s) \<noteq> Panic \<and>
   fst (run_node (node_rpc node_publish_volume m2) srv host s) \<noteq> Panic \<and>
   fst (run_node (node_rpc node_unpublish_volume m3) srv host s) \<noteq> Panic \<and>
   fst (run_node (node_rpc node_unstage_volume m4) srv host s) \<noteq> Panic \<and>
   node_get_volume_stats m5 = Panic \<and> node_expand_volume m6 = Panic"
proof (intro conjI)
  show "fst (run_node (node_rpc node_stage_volume m1) srv host s) \<noteq> Panic"
    by (simp add: node_rpc_eq node_stage_volume_def n_try_def split: prod.split sum.split)
  show "fst (run_node (node_rpc node_publish_volume m2) srv host s) \<noteq> Panic"
    by (simp add: node_rpc_eq node_publish_volume_def n_try_def split: prod.split sum.split)
  show "fst (run_node (node_rpc node_unpublish_volume m3) srv host s) \<noteq> Panic"
    by (simp add: node_rpc_eq node_unpublish_volume_def n_try_def split: prod.split sum.split)
  show "fst (run_node (node_rpc node_unstage_volume m4) srv host s) \<noteq> Panic"
    by (simp add: node_rpc_eq node_unstage_volume_def n_try_def split: prod.split sum.split)
qed (simp_all add: node_get_volume_stats_def node_expand_volume_def)

end
