(* ===== verification/Node_Plugin.thy ===== *)
theory Node_Plugin
  imports Staging Identity
begin

text \<open>
  The node plugin as bin/node.rs serves it: the RPCs of the CSI node and identity services behind
  the interceptor, the requests each of them sends to mountd along a run, and that these are well
  formed whatever mountd answers and whatever the host's file system holds.
\<close>

section \<open>The served RPCs and their requests\<close>

datatype node_call =
    StageCall node_stage_request
  | UnstageCall node_unstage_request
  | PublishCall node_publish_request
  | UnpublishCall node_unpublish_request
  | VolumeStatsCall
  | NodeExpandCall
  | NodeGetCapabilitiesCall
  | NodeGetInfoCall
  | NodePluginInfoCall
  | NodePluginCapabilitiesCall
  | NodeProbeCall

datatype node_reply =
    NodeEmptyReply unit
  | NodeCapabilitiesReply "node_service_capability list"
  | NodeInfoReply node_get_info_response
  | NodePluginInfoReply plugin_info_response
  | NodePluginCapabilitiesReply "plugin_capability list"
  | NodeProbeReply probe_response

abbreviation node_answers :: "('a \<Rightarrow> node_reply) \<Rightarrow> 'a outcome node_prog \<Rightarrow> node_reply outcome node_prog" where
  "node_answers f p \<equiv> map_node_prog (map_outcome f) p"

fun node_serve :: "node_plugin \<Rightarrow> node_call \<Rightarrow> node_reply outcome node_prog" where
  "node_serve self (StageCall q) = node_answers NodeEmptyReply (node_rpc node_stage_volume q)"
| "node_serve self (UnstageCall q) = node_answers NodeEmptyReply (node_rpc node_unstage_volume q)"
| "node_serve self (PublishCall q) = node_answers NodeEmptyReply (node_rpc node_publish_volume q)"
| "node_serve self (UnpublishCall q) = node_answers NodeEmptyReply (node_rpc node_unpublish_volume q)"
| "node_serve self VolumeStatsCall =
     node_answers NodeEmptyReply (node_rpc (\<lambda>req. NRet (node_get_volume_stats req)) ())"
| "node_serve self NodeExpandCall =
     node_answers NodeEmptyReply (node_rpc (\<lambda>req. NRet (node_expand_volume req)) ())"
| "node_serve self NodeGetCapabilitiesCall =
     node_answers NodeCapabilitiesReply (node_rpc (\<lambda>req. NRet (node_get_capabilities req)) ())"
| "node_serve self NodeGetInfoCall =
     node_answers NodeInfoReply (node_rpc (\<lambda>req. NRet (node_get_info self req)) ())"
| "node_serve self NodePluginInfoCall =
     node_answers NodePluginInfoReply
       (without_volumed (node_identity_rpc (\<lambda>req. VRet (get_plugin_info req)) ()))"
| "node_serve self NodePluginCapabilitiesCall =
     node_answers NodePluginCapabilitiesReply
       (without_volumed (node_identity_rpc (\<lambda>req. VRet (get_plugin_capabilities req)) ()))"
| "node_serve self NodeProbeCall =
     node_answers NodeProbeReply
       (without_volumed (node_identity_rpc (probe (identity_new NodeVerifier)) ()))"

lemma node_identity_answers [simp]:
  "without_volumed (node_identity_rpc (\<lambda>req. VRet (get_plugin_info req)) ()) =
     NRet (get_plugin_info (new_request ()))"
  "without_volumed (node_identity_rpc (\<lambda>req. VRet (get_plugin_capabilities req)) ()) =
     NRet (get_plugin_capabilities (new_request ()))"
  "without_volumed (node_identity_rpc (probe (identity_new NodeVerifier)) ()) =
     NRet (Reply \<lparr>probe_ready = Some True\<rparr>)"
  by (simp_all add: node_identity_calls_nothing)
    (simp_all add: node_identity_rpc_def inject_mount_client_def get_plugin_info_def
      get_plugin_capabilities_def)

lemma identity_no_panic [simp]:
  "get_plugin_info req \<noteq> Panic" "get_plugin_capabilities req \<noteq> Panic"
  by (simp_all add: get_plugin_info_def get_plugin_capabilities_def)

datatype mountd_request =
    AskBlockPath block_path_request
  | AskMount mount_request
  | AskUnmount unmount_request

primrec node_trace ::
  "'a node_prog \<Rightarrow> 's mount_server \<Rightarrow> 's node_host \<Rightarrow> 's \<Rightarrow> mountd_request list" where
  "node_trace (NRet x) srv host s = []"
| "node_trace (NBlockPath q k) srv host s =
     (case ms_block_path srv q s of (r, s') \<Rightarrow> AskBlockPath q # node_trace (k r) srv host s')"
| "node_trace (NMount q k) srv host s =
     (case ms_mount srv q s of (r, s') \<Rightarrow> AskMount q # node_trace (k r) srv host s')"
| "node_trace (NUnmount q k) srv host s =
     (case ms_unmount srv q s of (r, s') \<Rightarrow> AskUnmount q # node_trace (k r) srv host s')"
| "node_trace (NExists p k) srv host s = node_trace (k (nh_exists host p s)) srv host s"
| "node_trace (NCreateDirAll p k) srv host s =
     (case nh_create_dir_all host p s of (r, s') \<Rightarrow> node_trace (k r) srv host s')"
| "node_trace (NRemoveDir p k) srv host s =
     (case nh_remove_dir host p s of (r, s') \<Rightarrow> node_trace (k r) srv host s')"

lemma node_trace_map [simp]: "node_trace (map_node_prog f p) srv host s = node_trace p srv host s"
  by (induction p arbitrary: s) (auto split: prod.split)

lemma node_trace_fail [simp]: "node_trace (n_fail st) srv host s = []"
  by (simp add: n_fail_def)

lemma node_trace_result [simp]: "node_trace (n_result r) srv host s = []"
  by (simp add: n_result_def)

lemma node_trace_try:
  "node_trace (n_try r k) srv host s = (case r of Inl st \<Rightarrow> [] | Inr x \<Rightarrow> node_trace (k x) srv host s)"
  by (cases r) simp_all

text \<open>
  The requests of an RPC: the device path of the volume it names and one mount or unmount, of
  the paths it names, with the flags of its access mode.
\<close>

fun node_permitted :: "node_call \<Rightarrow> mountd_request \<Rightarrow> bool" where
  "node_permitted (StageCall q) r =
     (case r of
        AskBlockPath b \<Rightarrow> bpr_uuid b = nsr_volume_id q \<and> bpr_uuid b \<noteq> []
      | AskMount mq \<Rightarrow> (\<exists>m. mr_mount mq = Some m \<and> mnt_dst m = nsr_staging_target_path q) \<and>
          nsr_staging_target_path q \<noteq> [] \<and>
          mr_flags mq = (if wants_readonly (nsr_volume_capability q) then [1] else [])
      | AskUnmount u \<Rightarrow> False)"
| "node_permitted (UnstageCall q) r =
     (case r of
        AskBlockPath b \<Rightarrow> bpr_uuid b = nur_volume_id q \<and> bpr_uuid b \<noteq> []
      | AskMount mq \<Rightarrow> False
      | AskUnmount u \<Rightarrow> ur_path u = nur_staging_target_path q \<and> ur_path u \<noteq> [])"
| "node_permitted (PublishCall q) r =
     (case r of
        AskBlockPath b \<Rightarrow> bpr_uuid b = npr_volume_id q \<and> bpr_uuid b \<noteq> []
      | AskMount mq \<Rightarrow>
          mr_mount mq = Some \<lparr>mnt_src = npr_staging_target_path q, mnt_dst = npr_target_path q\<rparr> \<and>
          npr_staging_target_path q \<noteq> [] \<and>
          mr_flags mq = (if wants_readonly (npr_volume_capability q) then [2, 1] else [2])
      | AskUnmount u \<Rightarrow> False)"
| "node_permitted (UnpublishCall q) r =
     (case r of
        AskBlockPath b \<Rightarrow> bpr_uuid b = nup_volume_id q \<and> bpr_uuid b \<noteq> []
      | AskMount mq \<Rightarrow> False
      | AskUnmount u \<Rightarrow> ur_path u = nup_target_path q \<and> ur_path u \<noteq> [])"
| "node_permitted _ r = False"

text \<open>What mountd's mount handler asks of a request before it looks at paths.\<close>

fun well_formed_request :: "mountd_request \<Rightarrow> bool" where
  "well_formed_request (AskBlockPath b) = (bpr_uuid b \<noteq> [])"
| "well_formed_request (AskMount mq) = (mr_mount mq \<noteq> None \<and> (\<exists>gs. map_flags (mr_flags mq) = Inr gs))"
| "well_formed_request (AskUnmount u) = (ur_path u \<noteq> [])"

lemma node_permitted_well_formed: "node_permitted c r \<Longrightarrow> well_formed_request r"
  by (cases c; cases r) (auto simp: map_flags_def mount_flag_from_i32_def)

lemma node_trace_permitted:
  "length (node_trace (node_serve self c) srv host s) \<le> 2 \<and>
   (\<forall>r \<in> set (node_trace (node_serve self c) srv host s). node_permitted c r)"
  by (cases c)
    (auto simp: node_rpc_eq node_stage_volume_def node_unstage_volume_def node_publish_volume_def
      node_unpublish_volume_def node_get_volume_stats_def node_expand_volume_def
      node_get_capabilities_def node_get_info_def node_trace_try
      split: prod.split sum.split)

lemma run_map_node_prog:
  "run_node (map_node_prog f p) srv host s = (case run_node p srv host s of (x, s') \<Rightarrow> (f x, s'))"
  by (induction p arbitrary: s) (auto split: prod.splits)

lemma map_outcome_eq_Panic: "map_outcome f out = Panic \<longleftrightarrow> out = Panic"
  by (cases out) simp_all

lemma node_rpc_NRet: "node_rpc (\<lambda>req. NRet (f req)) m = NRet (f (set_extension MountServiceClient (new_request m)))"
  by (simp add: node_rpc_eq)

lemma node_serve_panics:
  "fst (run_node (node_serve self c) srv host s) = Panic \<longleftrightarrow> c = VolumeStatsCall \<or> c = NodeExpandCall"
  by (cases c)
    (simp_all add: run_map_node_prog map_outcome_eq_Panic split_beta node_panics node_rpc_NRet
      node_get_capabilities_def node_get_info_def)

text \<open>C25: whatever mountd answers and whatever files the host has, an RPC of the node plugin
  sends at most two requests to mountd, the ones its fields ask for, and each is well formed:
  it names a volume, a mount or a path, and its flags are flags mountd knows; it panics exactly
  when it is one of the two whose bodies are \<open>todo!()\<close>.\<close>

theorem node_requests_typed:
  "length (node_trace (node_serve self c) srv host s) \<le> 2 \<and>
   (\<forall>r \<in> set (node_trace (node_serve self c) srv host s). node_permitted c r \<and> well_formed_request r) \<and>
   (fst (run_node (node_serve self c) srv host s) = Panic \<longleftrightarrow> c = VolumeStatsCall \<or> c = NodeExpandCall)"
  using node_trace_permitted [of self c srv host s] node_permitted_well_formed
    node_serve_panics [of self c srv host s] by blast

theorem node_requests_typed_witness:
  "well_formed_request (AskBlockPath \<lparr>bpr_uuid = ''uuid-0''\<rparr>)"
proof -
  have "AskBlockPath \<lparr>bpr_uuid = ''uuid-0''\<rparr> \<in>
      set (node_trace (node_serve \<lparr>nod_node_id = ''node-1''\<rparr> (StageCall ex_stage)) ex_mountd (os_host mos_os) ex_host)"
    by (cases "ms_block_path ex_mountd \<lparr>bpr_uuid = ''uuid-0''\<rparr> ex_host")
      (simp add: node_rpc_eq node_stage_volume_def ex_stage_def)
  with node_requests_typed [of "\<lparr>nod_node_id = ''node-1''\<rparr>" "StageCall ex_stage" ex_mountd "os_host mos_os" ex_host]
  show ?thesis by blast
qed

end
