(* ===== verification/Node_System.thy ===== *)
theory Node_System
  imports Mount_Interleaving Node_Plugin
begin

text \<open>
  The node plugin and mountd as one open system, at the grain of single calls of the operating
  system: RPCs arrive at any time, the handlers of the plugin interleave with each other and
  with the handlers of mountd they await, a call may be given up while its handler runs on in
  mountd, and other programs act on the host in between.
\<close>

section \<open>The system\<close>

type_synonym mountd_handler = "unit outcome os_prog"
type_synonym node_task = "node_call \<times> node_reply outcome node_prog \<times> mountd_handler option"
type_synonym node_orphan = "mountd_call \<times> mountd_handler"

text \<open>The mount or unmount a program of the plugin asks for, and how it goes on.\<close>

fun node_sends :: "'a node_prog \<Rightarrow> mountd_call option" where
  "node_sends (NMount q k) = Some (MountCall q)"
| "node_sends (NUnmount q k) = Some (UnmountCall q)"
| "node_sends p = None"

fun node_resume :: "'a node_prog \<Rightarrow> status + unit \<Rightarrow> 'a node_prog" where
  "node_resume (NMount q k) r = k r"
| "node_resume (NUnmount q k) r = k r"
| "node_resume p r = p"

text \<open>The connection fails: the client returns the status \<open>st\<close> for the pending call.\<close>

fun node_lost :: "status \<Rightarrow> 'a node_prog \<Rightarrow> 'a node_prog" where
  "node_lost st (NBlockPath q k) = k (Inl st)"
| "node_lost st p = node_resume p (Inl st)"

text \<open>What the plugin does itself on its host.\<close>

inductive host_step :: "'w os_api \<Rightarrow> 'a node_prog \<Rightarrow> 'w \<Rightarrow> 'a node_prog \<Rightarrow> 'w \<Rightarrow> bool"
  for Os :: "'w os_api" where
  host_exists: "host_step Os (NExists p k) w (k (os_exists Os p w)) w"
| host_create: "os_create_dir_all Os p w = (r, w') \<Longrightarrow> host_step Os (NCreateDirAll p k) w (k r) w'"
| host_remove: "os_remove_dir Os p w = (r, w') \<Longrightarrow> host_step Os (NRemoveDir p k) w (k r) w'"

fun left_running :: "'a node_prog \<Rightarrow> mountd_handler option \<Rightarrow> node_orphan list" where
  "left_running p (Some h) = (case node_sends p of None \<Rightarrow> [] | Some m \<Rightarrow> [(m, h)])"
| "left_running p None = []"

text \<open>
  A state is the RPCs received, the tasks of the plugin, the handlers in mountd nobody awaits,
  the states of the host seen and the present one; \<open>env\<close> is what other programs do.  The lookup
  of a device path is a single LVM command.
\<close>

inductive node_step ::
  "'w lvm_api \<Rightarrow> 'w os_api \<Rightarrow> mountd_config \<Rightarrow> node_plugin \<Rightarrow>
     node_call list \<Rightarrow> node_task list \<Rightarrow> node_orphan list \<Rightarrow> 'w \<Rightarrow>
     node_call list \<Rightarrow> node_task list \<Rightarrow> node_orphan list \<Rightarrow> 'w \<Rightarrow> bool"
  for L :: "'w lvm_api" and Os :: "'w os_api" and cfg :: mountd_config and self :: node_plugin where
  node_arrive: "node_step L Os cfg self hs ts os w (hs @ [c]) (ts @ [(c, node_serve self c, None)]) os w"
| node_block_path: "get_lvm_block_path L q w = (out, w') \<Longrightarrow>
    node_step L Os cfg self hs (xs @ (c, NBlockPath q k, None) # ys) os w
      hs (xs @ (c, k (client_answer lost out), None) # ys) os w"
| node_host: "host_step Os p w p' w' \<Longrightarrow> node_step L Os cfg self hs (xs @ (c, p, None) # ys) os w
    hs (xs @ (c, p', None) # ys) os w'"
| node_send: "node_sends p = Some m \<Longrightarrow> node_step L Os cfg self hs (xs @ (c, p, None) # ys) os w
    hs (xs @ (c, p, Some (mountd_task Os cfg m)) # ys) os w"
| node_work: "os_step Os h w h' w' \<Longrightarrow> node_step L Os cfg self hs (xs @ (c, p, Some h) # ys) os w
    hs (xs @ (c, p, Some h') # ys) os w'"
| node_answer: "node_step L Os cfg self hs (xs @ (c, p, Some (OsRet out)) # ys) os w
    hs (xs @ (c, node_resume p (client_answer lost out), None) # ys) os w"
| node_give_up: "node_step L Os cfg self hs (xs @ (c, p, ho) # ys) os w
    hs (xs @ (c, node_lost st p, None) # ys) (left_running p ho @ os) w"
| node_drop: "node_step L Os cfg self hs (xs @ (c, p, ho) # ys) os w
    hs (xs @ ys) (left_running p ho @ os) w"
| node_orphan: "os_step Os h w h' w' \<Longrightarrow> node_step L Os cfg self hs ts (xs @ (m, h) # ys) w
    hs ts (xs @ (m, h') # ys) w'"
| node_orphan_end: "node_step L Os cfg self hs ts (xs @ (m, h) # ys) w hs ts (xs @ ys) w"

inductive node_system ::
  "'w lvm_api \<Rightarrow> 'w os_api \<Rightarrow> mountd_config \<Rightarrow> ('w \<Rightarrow> 'w \<Rightarrow> bool) \<Rightarrow> node_plugin \<Rightarrow> 'w \<Rightarrow>
     node_call list \<Rightarrow> node_task list \<Rightarrow> node_orphan list \<Rightarrow> 'w set \<Rightarrow> 'w \<Rightarrow> bool"
  for L :: "'w lvm_api" and Os :: "'w os_api" and cfg :: mountd_config and env :: "'w \<Rightarrow> 'w \<Rightarrow> bool"
    and self :: node_plugin and w0 :: 'w where
  node_start: "node_system L Os cfg env self w0 [] [] [] {w0} w0"
| node_move: "node_system L Os cfg env self w0 hs ts os seen w \<Longrightarrow>
    node_step L Os cfg self hs ts os w hs' ts' os' w' \<Longrightarrow>
    node_system L Os cfg env self w0 hs' ts' os' (insert w' seen) w'"
| node_other: "node_system L Os cfg env self w0 hs ts os seen w \<Longrightarrow> env w w' \<Longrightarrow>
    node_system L Os cfg env self w0 hs ts os (insert w' seen) w'"

lemmas node_moves = node_move [OF _ node_arrive] node_move [OF _ node_block_path]
  node_move [OF _ node_host] node_move [OF _ node_send] node_move [OF _ node_work]
  node_move [OF _ node_answer]

section \<open>What an RPC asks of mountd, along every path\<close>

text \<open>
  \<open>D q p\<close> says that \<open>p\<close> was the answer to the device path request \<open>q\<close>.  \<open>node_conforms D P Q p\<close>:
  with device paths from \<open>D\<close> and any other answers, \<open>p\<close> sends requests in \<open>P\<close> only and ends in \<open>Q\<close>.
\<close>

primrec node_conforms ::
  "(block_path_request \<Rightarrow> string \<Rightarrow> bool) \<Rightarrow> (mountd_request \<Rightarrow> bool) \<Rightarrow> ('a \<Rightarrow> bool) \<Rightarrow> 'a node_prog \<Rightarrow> bool" where
  "node_conforms D P Q (NRet x) = Q x"
| "node_conforms D P Q (NBlockPath q k) =
     (P (AskBlockPath q) \<and> (\<forall>r. (\<forall>p. r = Inr p \<longrightarrow> D q p) \<longrightarrow> node_conforms D P Q (k r)))"
| "node_conforms D P Q (NMount q k) = (P (AskMount q) \<and> (\<forall>r. node_conforms D P Q (k r)))"
| "node_conforms D P Q (NUnmount q k) = (P (AskUnmount q) \<and> (\<forall>r. node_conforms D P Q (k r)))"
| "node_conforms D P Q (NExists p k) = (\<forall>r. node_conforms D P Q (k r))"
| "node_conforms D P Q (NCreateDirAll p k) = (\<forall>r. node_conforms D P Q (k r))"
| "node_conforms D P Q (NRemoveDir p k) = (\<forall>r. node_conforms D P Q (k r))"

lemma node_conforms_map:
  "node_conforms D P Q (map_node_prog f p) = node_conforms D P (\<lambda>x. Q (f x)) p"
  by (induction p) simp_all

lemma node_conforms_ends [simp]:
  "node_conforms D P Q (n_fail st) = Q (Fail st)"
  "node_conforms D P Q (n_result r) = Q (of_result r)"
  "node_conforms D P Q (n_try t k) = (case t of Inl st \<Rightarrow> Q (Fail st) | Inr x \<Rightarrow> node_conforms D P Q (k x))"
  by (simp_all add: n_fail_def n_result_def n_try_def split: sum.split)

text \<open>The source of a stage's mount is the device path it was answered.\<close>

definition node_asked ::
  "(block_path_request \<Rightarrow> string \<Rightarrow> bool) \<Rightarrow> node_call \<Rightarrow> mountd_request \<Rightarrow> bool" where
  "node_asked D c r \<longleftrightarrow> node_permitted c r \<and>
     (\<forall>q mq. c = StageCall q \<longrightarrow> r = AskMount mq \<longrightarrow>
        (\<exists>p. D \<lparr>bpr_uuid = nsr_volume_id q\<rparr> p \<and>
           mr_mount mq = Some \<lparr>mnt_src = p, mnt_dst = nsr_staging_target_path q\<rparr>))"

abbreviation todo_only :: "node_call \<Rightarrow> 'a outcome \<Rightarrow> bool" where
  "todo_only c out \<equiv> out = Panic \<longrightarrow> c = VolumeStatsCall \<or> c = NodeExpandCall"

lemma node_conforms_serve:
  "node_conforms D (node_asked D c) (todo_only c) (node_serve self c)"
  by (cases c)
    (auto simp: node_conforms_map map_outcome_eq_Panic node_rpc_eq node_asked_def node_stage_volume_def
      node_unstage_volume_def node_publish_volume_def node_unpublish_volume_def
      node_get_capabilities_def node_get_info_def split: sum.split)

section \<open>What every run keeps\<close>

definition block_path_seen :: "'w lvm_api \<Rightarrow> 'w set \<Rightarrow> block_path_request \<Rightarrow> string \<Rightarrow> bool" where
  "block_path_seen L seen q p \<longleftrightarrow> (\<exists>w \<in> seen. get_lvm_block_path L q w = (Reply p, w))"

lemma block_path_seen_mono: "block_path_seen L seen q p \<Longrightarrow> seen \<subseteq> seen' \<Longrightarrow> block_path_seen L seen' q p"
  by (auto simp: block_path_seen_def)

fun mountd_request_of :: "mountd_call \<Rightarrow> mountd_request" where
  "mountd_request_of (MountCall q) = AskMount q"
| "mountd_request_of (UnmountCall q) = AskUnmount q"

text \<open>
  Tasks and orphans as they may be once the states \<open>seen\<close> have been gone through; all of it stays
  true when more states are seen and more RPCs received.
\<close>

definition call_ok ::
  "'w lvm_api \<Rightarrow> 'w os_api \<Rightarrow> mountd_config \<Rightarrow> node_call list \<Rightarrow> 'w set \<Rightarrow> node_orphan \<Rightarrow> bool" where
  "call_ok L Os cfg hs seen t \<longleftrightarrow>
     (\<exists>c \<in> set hs. node_asked (block_path_seen L seen) c (mountd_request_of (fst t))) \<and>
     guarded Os (allowed_act Os cfg (fst t)) (snd t) seen"

definition node_task_ok ::
  "'w lvm_api \<Rightarrow> 'w os_api \<Rightarrow> mountd_config \<Rightarrow> node_call list \<Rightarrow> 'w set \<Rightarrow> node_task \<Rightarrow> bool" where
  "node_task_ok L Os cfg hs seen t \<longleftrightarrow>
     (case t of (c, p, ho) \<Rightarrow> c \<in> set hs \<and>
        (\<forall>seen'. seen \<subseteq> seen' \<longrightarrow>
           node_conforms (block_path_seen L seen') (node_asked (block_path_seen L seen') c) (todo_only c) p) \<and>
        (\<forall>h. ho = Some h \<longrightarrow> (\<exists>m. node_sends p = Some m \<and> call_ok L Os cfg hs seen (m, h))))"

lemma node_asked_mono:
  assumes "node_asked D c r" and "\<And>q p. D q p \<Longrightarrow> D' q p"
  shows "node_asked D' c r"
  using assms unfolding node_asked_def by blast

lemma call_ok_mono:
  assumes "call_ok L Os cfg hs seen t" and "set hs \<subseteq> set hs'" and "seen \<subseteq> seen'"
  shows "call_ok L Os cfg hs' seen' t"
proof -
  have "node_asked (block_path_seen L seen) c r \<Longrightarrow> node_asked (block_path_seen L seen') c r" for c r
    by (erule node_asked_mono) (rule block_path_seen_mono [OF _ assms(3)])
  with assms guarded_mono [OF _ assms(3)] show ?thesis unfolding call_ok_def by blast
qed

lemma node_task_ok_mono:
  assumes "node_task_ok L Os cfg hs seen t" and "set hs \<subseteq> set hs'" and "seen \<subseteq> seen'"
  shows "node_task_ok L Os cfg hs' seen' t"
  using assms call_ok_mono [OF _ assms(2,3)] unfolding node_task_ok_def
  by (auto split: prod.splits)

lemma node_task_ok_new: "node_task_ok L Os cfg (hs @ [c]) seen (c, node_serve self c, None)"
  by (simp add: node_task_ok_def node_conforms_serve)

lemma node_conforms_sends:
  "node_conforms D P Q p \<Longrightarrow> node_sends p = Some m \<Longrightarrow> P (mountd_request_of m)"
  by (cases p) auto

lemma node_task_ok_send:
  assumes "node_task_ok L Os cfg hs seen (c, p, None)" and "node_sends p = Some m"
  shows "node_task_ok L Os cfg hs seen (c, p, Some (mountd_task Os cfg m))"
  using assms guarded_task node_conforms_sends [OF _ assms(2)]
  unfolding node_task_ok_def call_ok_def by fastforce

lemma node_task_ok_host:
  assumes "node_task_ok L Os cfg hs seen (c, p, None)" and "host_step Os p w p' w'"
  shows "node_task_ok L Os cfg hs (insert w' seen) (c, p', None)"
  using assms(2,1) by (cases rule: host_step.cases) (auto simp: node_task_ok_def)

lemma node_task_ok_block_path:
  assumes "node_task_ok L Os cfg hs seen (c, NBlockPath q k, None)" and "w \<in> seen"
    and "get_lvm_block_path L q w = (out, w')"
  shows "node_task_ok L Os cfg hs seen (c, k (client_answer lost out), None)"
proof -
  have "block_path_seen L seen' q p" if "client_answer lost out = Inr p" "seen \<subseteq> seen'" for seen' p
    using that assms(2,3) block_path_run [OF assms(3)]
    by (cases out) (auto simp: block_path_seen_def)
  with assms(1) show ?thesis by (auto simp: node_task_ok_def)
qed

lemma node_conforms_resume: "node_conforms D P Q p \<Longrightarrow> node_conforms D P Q (node_resume p r)"
  by (cases "(p, r)" rule: node_resume.cases) auto

lemma node_conforms_lost: "node_conforms D P Q p \<Longrightarrow> node_conforms D P Q (node_lost st p)"
  by (cases p) auto

lemma node_task_ok_next:
  assumes "node_task_ok L Os cfg hs seen (c, p, ho)"
  shows "node_task_ok L Os cfg hs seen (c, node_resume p r, None)"
    and "node_task_ok L Os cfg hs seen (c, node_lost st p, None)"
  using assms by (auto simp: node_task_ok_def intro: node_conforms_resume node_conforms_lost)

lemma left_running_ok:
  "node_task_ok L Os cfg hs seen (c, p, ho) \<Longrightarrow> t \<in> set (left_running p ho) \<Longrightarrow> call_ok L Os cfg hs seen t"
  by (cases ho) (auto simp: node_task_ok_def split: option.splits)

text \<open>The mounts the RPCs account for, and the table over a run.\<close>

definition node_mounted ::
  "'w lvm_api \<Rightarrow> 'w os_api \<Rightarrow> 'w os_observers \<Rightarrow> mountd_config \<Rightarrow> node_call list \<Rightarrow> 'w set \<Rightarrow>
     mount_entry \<Rightarrow> bool" where
  "node_mounted L Os V cfg hs seen e \<longleftrightarrow>
     (\<exists>c mq. c \<in> set hs \<and> node_asked (block_path_seen L seen) c (AskMount mq) \<and>
        mounted_for Os V cfg [MountCall mq] seen e)"

fun unmount_path :: "node_call \<Rightarrow> string option" where
  "unmount_path (UnstageCall q) = Some (nur_staging_target_path q)"
| "unmount_path (UnpublishCall q) = Some (nup_target_path q)"
| "unmount_path c = None"

fun_cases unmount_pathE: "unmount_path c = Some p"

definition node_unmounted ::
  "'w os_api \<Rightarrow> 'w os_observers \<Rightarrow> mountd_config \<Rightarrow> node_call list \<Rightarrow> 'w set \<Rightarrow> mount_entry \<Rightarrow> bool" where
  "node_unmounted Os V cfg hs seen e \<longleftrightarrow>
     (\<exists>c p. c \<in> set hs \<and> unmount_path c = Some p \<and> checked Os cfg seen p False \<and>
        (\<exists>w \<in> seen. me_dst e = obs_resolve V w p))"

definition table_accounted ::
  "'w lvm_api \<Rightarrow> 'w os_api \<Rightarrow> 'w os_observers \<Rightarrow> mountd_config \<Rightarrow> 'w \<Rightarrow> node_call list \<Rightarrow> 'w set \<Rightarrow>
     'w \<Rightarrow> bool" where
  "table_accounted L Os V cfg w0 hs seen w \<longleftrightarrow>
     (\<forall>e \<in> set (obs_table V w). e \<in> set (obs_table V w0) \<or> node_mounted L Os V cfg hs seen e) \<and>
     ((\<exists>c \<in> set hs. unmount_path c \<noteq> None) \<or> (\<exists>es. obs_table V w = obs_table V w0 @ es)) \<and>
     (\<forall>e \<in> set (obs_table V w0). e \<in> set (obs_table V w) \<or> node_unmounted Os V cfg hs seen e)"

lemma node_unmounted_mono:
  "node_unmounted Os V cfg hs seen e \<Longrightarrow> set hs \<subseteq> set hs' \<Longrightarrow> seen \<subseteq> seen' \<Longrightarrow>
     node_unmounted Os V cfg hs' seen' e"
  unfolding node_unmounted_def using checked_mono by (blast dest: subsetD)

lemma node_mounted_mono:
  assumes "node_mounted L Os V cfg hs seen e" and "set hs \<subseteq> set hs'" and "seen \<subseteq> seen'"
  shows "node_mounted L Os V cfg hs' seen' e"
proof -
  have "node_asked (block_path_seen L seen) c r \<Longrightarrow> node_asked (block_path_seen L seen') c r" for c r
    by (erule node_asked_mono) (rule block_path_seen_mono [OF _ assms(3)])
  with assms(1,2) mounted_for_mono [OF _ assms(3)] show ?thesis unfolding node_mounted_def by blast
qed

lemma table_accounted_mono:
  assumes "table_accounted L Os V cfg w0 hs seen w" and "set hs \<subseteq> set hs'" and "seen \<subseteq> seen'"
    and "obs_table V w' = obs_table V w"
  shows "table_accounted L Os V cfg w0 hs' seen' w'"
  using assms node_mounted_mono [OF _ assms(2,3)] node_unmounted_mono [OF _ assms(2,3)]
  unfolding table_accounted_def by auto

lemma handler_moves:
  assumes laws: "os_laws Os V" and ok: "call_ok L Os cfg hs seen (m, h)" and w: "w \<in> seen"
    and step: "os_step Os h w h' w'" and acc: "table_accounted L Os V cfg w0 hs seen w"
  shows "call_ok L Os cfg hs (insert w' seen) (m, h') \<and>
    table_accounted L Os V cfg w0 hs (insert w' seen) w'"
proof
  from ok have gd: "guarded Os (allowed_act Os cfg m) h seen" by (simp add: call_ok_def)
  have "call_ok L Os cfg hs (insert w' seen) (m, h)" by (rule call_ok_mono [OF ok]) auto
  with guarded_step [OF step gd w] show "call_ok L Os cfg hs (insert w' seen) (m, h')"
    by (simp add: call_ok_def)
  from ok obtain c where c: "c \<in> set hs" "node_asked (block_path_seen L seen) c (mountd_request_of m)"
    by (auto simp: call_ok_def)
  have "obs_table V w' = obs_table V w \<or>
      (\<exists>e. obs_table V w' = obs_table V w @ [e] \<and> mounted_for Os V cfg [m] seen e) \<or>
      (\<exists>q. m = UnmountCall q) \<and> set (obs_table V w') \<subseteq> set (obs_table V w) \<and>
        (\<forall>e \<in> set (obs_table V w). e \<in> set (obs_table V w') \<or> unmounted_for Os V cfg [m] seen e)"
    by (rule step_table [OF laws _ w step gd]) simp
  then show "table_accounted L Os V cfg w0 hs (insert w' seen) w'"
  proof (elim disjE exE conjE)
    assume "obs_table V w' = obs_table V w"
    then show ?thesis by (intro table_accounted_mono [OF acc]) auto
  next
    fix e
    assume t: "obs_table V w' = obs_table V w @ [e]" and e: "mounted_for Os V cfg [m] seen e"
    from e obtain mq where "m = MountCall mq" by (auto simp: mounted_for_def)
    with c e have "node_mounted L Os V cfg hs seen e" by (auto simp: node_mounted_def)
    with acc t have "table_accounted L Os V cfg w0 hs seen w'" by (auto simp: table_accounted_def)
    then show ?thesis by (rule table_accounted_mono) auto
  next
    fix q
    assume m: "m = UnmountCall q" and sub: "set (obs_table V w') \<subseteq> set (obs_table V w)"
      and gone: "\<forall>e \<in> set (obs_table V w). e \<in> set (obs_table V w') \<or> unmounted_for Os V cfg [m] seen e"
    with c(2) have path: "unmount_path c = Some (ur_path q)" by (cases c) (auto simp: node_asked_def)
    have "node_unmounted Os V cfg hs seen e" if "unmounted_for Os V cfg [m] seen e" for e
      using that c(1) path m unfolding node_unmounted_def unmounted_for_def by auto
    with c path sub gone acc have "table_accounted L Os V cfg w0 hs seen w'"
      unfolding table_accounted_def by blast
    then show ?thesis by (rule table_accounted_mono) auto
  qed
qed

definition node_system_ok ::
  "'w lvm_api \<Rightarrow> 'w os_api \<Rightarrow> 'w os_observers \<Rightarrow> mountd_config \<Rightarrow> 'w \<Rightarrow> node_call list \<Rightarrow> node_task list \<Rightarrow>
     node_orphan list \<Rightarrow> 'w set \<Rightarrow> 'w \<Rightarrow> bool" where
  "node_system_ok L Os V cfg w0 hs ts os seen w \<longleftrightarrow> w \<in> seen \<and>
     (\<forall>t \<in> set ts. node_task_ok L Os cfg hs seen t) \<and> (\<forall>t \<in> set os. call_ok L Os cfg hs seen t) \<and>
     table_accounted L Os V cfg w0 hs seen w"

lemma node_system_ok_moved:
  assumes "node_system_ok L Os V cfg w0 hs (xs @ t # ys) os seen w"
    and "node_task_ok L Os cfg hs (insert w' seen) t'"
    and "table_accounted L Os V cfg w0 hs (insert w' seen) w'"
  shows "node_system_ok L Os V cfg w0 hs (xs @ t' # ys) os (insert w' seen) w'"
  using assms unfolding node_system_ok_def
  by (auto intro: node_task_ok_mono [OF _ subset_refl subset_insertI]
      call_ok_mono [OF _ subset_refl subset_insertI])

lemma node_system_invariant:
  assumes "node_system L Os cfg env self w0 hs ts os seen w" and laws: "os_laws Os V"
    and env: "\<And>w w'. env w w' \<Longrightarrow> obs_table V w' = obs_table V w"
  shows "node_system_ok L Os V cfg w0 hs ts os seen w"
  using assms(1)
proof (induction rule: node_system.induct)
  case node_start
  then show ?case by (simp add: node_system_ok_def table_accounted_def)
next
  case (node_move hs ts os seen w hs' ts' os' w')
  note ok = node_move(3)
  then have w: "w \<in> seen" and tasks: "\<forall>t \<in> set ts. node_task_ok L Os cfg hs seen t"
    and orphans: "\<forall>t \<in> set os. call_ok L Os cfg hs seen t" and acc: "table_accounted L Os V cfg w0 hs seen w"
    by (simp_all add: node_system_ok_def)
  from node_move(2) show ?case
  proof (cases rule: node_step.cases)
    case (node_arrive c)
    with ok w show ?thesis unfolding node_system_ok_def
      by (auto simp: node_task_ok_new insert_absorb intro: node_task_ok_mono call_ok_mono table_accounted_mono)
  next
    case (node_block_path q out u xs c k ys lost)
    with ok w show ?thesis unfolding node_system_ok_def
      by (auto simp: insert_absorb intro: node_task_ok_block_path)
  next
    case (node_host p p' xs c ys)
    have "obs_table V w' = obs_table V w"
      using node_host(5) by (cases rule: host_step.cases) (auto dest: os_create_table [OF laws] os_remove_table [OF laws])
    with acc have "table_accounted L Os V cfg w0 hs (insert w' seen) w'"
      by (auto intro: table_accounted_mono)
    with ok node_host node_task_ok_host [OF _ node_host(5)] tasks show ?thesis
      by (auto intro!: node_system_ok_moved)
  next
    case (node_send p m xs c ys)
    with ok w show ?thesis unfolding node_system_ok_def
      by (auto simp: insert_absorb intro: node_task_ok_send)
  next
    case (node_work h h' xs c p ys)
    with tasks have t: "node_task_ok L Os cfg hs seen (c, p, Some h)" by simp
    then obtain m where m: "node_sends p = Some m" "call_ok L Os cfg hs seen (m, h)"
      by (auto simp: node_task_ok_def)
    note moved = handler_moves [OF laws m(2) w node_work(5) acc]
    have "node_task_ok L Os cfg hs (insert w' seen) (c, p, Some h)"
      by (rule node_task_ok_mono [OF t]) auto
    with moved m(1) have "node_task_ok L Os cfg hs (insert w' seen) (c, p, Some h')"
      by (simp add: node_task_ok_def)
    with moved ok node_work show ?thesis by (auto intro!: node_system_ok_moved)
  next
    case (node_answer xs c p out ys lost)
    with ok w show ?thesis unfolding node_system_ok_def
      by (auto simp: insert_absorb intro: node_task_ok_next)
  next
    case (node_give_up xs c p ho ys st)
    with ok w show ?thesis unfolding node_system_ok_def
      by (auto simp: insert_absorb intro: node_task_ok_next dest: left_running_ok)
  next
    case (node_drop xs c p ho ys)
    with ok w show ?thesis unfolding node_system_ok_def
      by (auto simp: insert_absorb dest: left_running_ok)
  next
    case (node_orphan h h' xs m ys)
    with orphans have "call_ok L Os cfg hs seen (m, h)" by simp
    from handler_moves [OF laws this w node_orphan(5) acc] ok node_orphan show ?thesis
      unfolding node_system_ok_def
      by (auto intro: node_task_ok_mono [OF _ subset_refl subset_insertI]
          call_ok_mono [OF _ subset_refl subset_insertI])
  next
    case (node_orphan_end xs m h ys)
    with ok w show ?thesis unfolding node_system_ok_def by (auto simp: insert_absorb)
  qed
next
  case (node_other hs ts os seen w w')
  then show ?case unfolding node_system_ok_def
    by (auto intro: node_task_ok_mono [OF _ subset_refl subset_insertI]
        call_ok_mono [OF _ subset_refl subset_insertI] table_accounted_mono [OF _ subset_refl subset_insertI env])
qed

section \<open>Handlers of mountd in one piece\<close>

lemma node_work_all:
  assumes "run_os h Os w = (out, w')"
    and "node_system L Os cfg env self w0 hs (xs @ (c, p, Some h) # ys) os seen w"
  shows "\<exists>seen'. node_system L Os cfg env self w0 hs (xs @ (c, p, Some (OsRet out)) # ys) os seen' w'"
  using assms
proof (induction h arbitrary: w seen)
  case (OsMount s d ty fl k)
  obtain r u where "os_mount Os s d ty fl w = (r, u)" by fastforce
  with OsMount(2) OsMount(1) [OF rangeI, of r u] node_moves(5) [OF OsMount(3) os_step_mount] show ?case by simp
next
  case (OsUnmount q k)
  obtain r u where "os_unmount Os q w = (r, u)" by fastforce
  with OsUnmount(2) OsUnmount(1) [OF rangeI, of r u] node_moves(5) [OF OsUnmount(3) os_step_unmount] show ?case by simp
next
  case (OsChown q us g k)
  obtain r u where "os_chown Os q us g w = (r, u)" by fastforce
  with OsChown(2) OsChown(1) [OF rangeI, of r u] node_moves(5) [OF OsChown(3) os_step_chown] show ?case by simp
qed (auto, (metis os_step_mountpaths os_step_exists os_step_metadata os_step_is_dir rangeI node_moves(5))+)

lemma node_call_all:
  assumes "run_os (mountd_task Os cfg m) Os w = (out, w')" and "node_sends p = Some m"
    and "node_system L Os cfg env self w0 hs (xs @ (c, p, None) # ys) os seen w"
  shows "\<exists>seen'. node_system L Os cfg env self w0 hs
    (xs @ (c, node_resume p (client_answer lost out), None) # ys) os seen' w'"
  using node_work_all [OF assms(1) node_moves(4) [OF assms(3,2)]] by (blast intro: node_moves(6))

lemma client_result_answer: "client_result lost (out, w) = (client_answer lost out, w)"
  by (cases out) (simp_all add: client_result_def)

lemma node_alone:
  assumes "run_node p (mountd_server lost L Os cfg) (os_host Os) w = (x, w')"
    and "node_system L Os cfg env self w0 hs (xs @ (c, p, None) # ys) os seen w"
  shows "\<exists>seen'. node_system L Os cfg env self w0 hs (xs @ (c, NRet x, None) # ys) os seen' w'"
  using assms
proof (induction p arbitrary: w seen)
  case (NRet y)
  then show ?case by auto
next
  case (NBlockPath q k)
  obtain out u where bp: "get_lvm_block_path L q w = (out, u)" by fastforce
  with block_path_run [OF bp] NBlockPath(2) NBlockPath(1) [OF rangeI _ node_moves(2) [OF NBlockPath(3) bp]]
  show ?case by (simp add: mountd_server_def client_result_answer)
next
  case (NMount q k)
  obtain out u where m: "mount Os cfg q w = (out, u)" by fastforce
  then have "run_os (mountd_task Os cfg (MountCall q)) Os w = (out, u)" by (simp add: mount_steps_run)
  from node_call_all [OF this _ NMount(3), of lost] obtain seen'
    where "node_system L Os cfg env self w0 hs (xs @ (c, k (client_answer lost out), None) # ys) os seen' u"
    by auto
  with m NMount(2) NMount(1) [OF rangeI] show ?case by (simp add: mountd_server_def client_result_answer)
next
  case (NUnmount q k)
  obtain out u where m: "unmount Os cfg q w = (out, u)" by fastforce
  then have "run_os (mountd_task Os cfg (UnmountCall q)) Os w = (out, u)" by (simp add: unmount_steps_run)
  from node_call_all [OF this _ NUnmount(3), of lost] obtain seen'
    where "node_system L Os cfg env self w0 hs (xs @ (c, k (client_answer lost out), None) # ys) os seen' u"
    by auto
  with m NUnmount(2) NUnmount(1) [OF rangeI] show ?case by (simp add: mountd_server_def client_result_answer)
next
  case (NExists q k)
  with NExists(1) [OF rangeI _ node_moves(3) [OF NExists(3) host_exists]] show ?case by (simp add: os_host_def)
next
  case (NCreateDirAll q k)
  obtain r u where cr: "os_create_dir_all Os q w = (r, u)" by fastforce
  with NCreateDirAll(2) NCreateDirAll(1) [OF rangeI _ node_moves(3) [OF NCreateDirAll(3) host_create [OF cr]]]
  show ?case by (simp add: os_host_def)
next
  case (NRemoveDir q k)
  obtain r u where cr: "os_remove_dir Os q w = (r, u)" by fastforce
  with NRemoveDir(2) NRemoveDir(1) [OF rangeI _ node_moves(3) [OF NRemoveDir(3) host_remove [OF cr]]]
  show ?case by (simp add: os_host_def)
qed

section \<open>Mounts that are accounted for\<close>

text \<open>The access mode \<open>SINGLE_NODE_READER_ONLY\<close> has the number 2.\<close>

definition asks_reader_only :: "volume_capability option \<Rightarrow> bool" where
  "asks_reader_only cap \<longleftrightarrow>
     (\<exists>c am. cap = Some c \<and> cap_access_mode c = Some am \<and> am_mode am = 2)"

lemmas reader_only = asks_reader_only_def [of cap, folded wants_readonly_iff] for cap

definition staged_by ::
  "'w lvm_api \<Rightarrow> 'w os_api \<Rightarrow> 'w os_observers \<Rightarrow> mountd_config \<Rightarrow> 'w set \<Rightarrow> node_stage_request \<Rightarrow>
     mount_entry \<Rightarrow> bool" where
  "staged_by L Os V cfg seen q e \<longleftrightarrow>
     block_path_seen L seen \<lparr>bpr_uuid = nsr_volume_id q\<rparr> (me_src e) \<and>
     (\<exists>w \<in> seen. me_dst e = obs_resolve V w (nsr_staging_target_path q)) \<and> me_fstype e = ''xfs'' \<and>
     me_flags e = (if asks_reader_only (nsr_volume_capability q)
       then {RDONLY, NODEV, NOSUID} else {NODEV, NOSUID}) \<and>
     checked Os cfg seen (me_src e) False \<and>
     checked Os cfg seen (nsr_staging_target_path q) (asks_reader_only (nsr_volume_capability q))"

definition published_by ::
  "'w os_api \<Rightarrow> 'w os_observers \<Rightarrow> mountd_config \<Rightarrow> 'w set \<Rightarrow> node_publish_request \<Rightarrow> mount_entry \<Rightarrow> bool" where
  "published_by Os V cfg seen q e \<longleftrightarrow>
     me_src e = npr_staging_target_path q \<and>
     (\<exists>w \<in> seen. me_dst e = obs_resolve V w (npr_target_path q) \<and>
        (me_fstype e, me_flags e) = obs_beneath V w (npr_staging_target_path q)) \<and>
     checked Os cfg seen (npr_staging_target_path q) False \<and>
     checked Os cfg seen (npr_target_path q) (asks_reader_only (npr_volume_capability q))"

lemma node_mounted_by:
  assumes "node_mounted L Os V cfg hs seen e"
  shows "(\<exists>q. StageCall q \<in> set hs \<and> staged_by L Os V cfg seen q e) \<or>
    (\<exists>q. PublishCall q \<in> set hs \<and> published_by Os V cfg seen q e)"
proof -
  from assms obtain c mq m v where c: "c \<in> set hs" "node_asked (block_path_seen L seen) c (AskMount mq)"
    and m: "may_mount Os cfg mq seen m" and v: "v \<in> seen"
    and e: "me_src e = mnt_src m" "me_dst e = obs_resolve V v (mnt_dst m)"
      "(me_fstype e, me_flags e) =
        (if 2 \<in> set (mr_flags mq) then obs_beneath V v (mnt_src m)
         else (''xfs'', if 1 \<in> set (mr_flags mq) then {RDONLY, NODEV, NOSUID} else {NODEV, NOSUID}))"
    unfolding node_mounted_def mounted_for_entry by auto
  show ?thesis
  proof (cases c)
    case (StageCall q)
    from c(2) StageCall obtain p where p: "block_path_seen L seen \<lparr>bpr_uuid = nsr_volume_id q\<rparr> p"
      "mr_mount mq = Some \<lparr>mnt_src = p, mnt_dst = nsr_staging_target_path q\<rparr>"
      and flags: "mr_flags mq = (if wants_readonly (nsr_volume_capability q) then [1] else [])"
      by (auto simp: node_asked_def)
    with m have m': "m = \<lparr>mnt_src = p, mnt_dst = nsr_staging_target_path q\<rparr>" by (simp add: may_mount_def)
    with p m v e flags have "staged_by L Os V cfg seen q e"
      by (auto simp: staged_by_def may_mount_def reader_only)
    with c StageCall show ?thesis by blast
  next
    case (PublishCall q)
    from c(2) PublishCall have q: "mr_mount mq = Some \<lparr>mnt_src = npr_staging_target_path q, mnt_dst = npr_target_path q\<rparr>"
      and flags: "mr_flags mq = (if wants_readonly (npr_volume_capability q) then [2, 1] else [2])"
      by (auto simp: node_asked_def)
    with m have m': "m = \<lparr>mnt_src = npr_staging_target_path q, mnt_dst = npr_target_path q\<rparr>"
      by (simp add: may_mount_def)
    from flags have "1 \<in> set (mr_flags mq) \<longleftrightarrow> wants_readonly (npr_volume_capability q)"
      and "2 \<in> set (mr_flags mq)" by simp_all
    with q m m' v e have "published_by Os V cfg seen q e"
      by (auto simp: published_by_def may_mount_def reader_only)
    with c PublishCall show ?thesis by blast
  qed (use c(2) in \<open>auto simp: node_asked_def\<close>)
qed

text \<open>C9: the node plugin and mountd as an open system, call by call of the operating system, with
  any RPCs, any interleaving, calls that are lost, requests that run on in mountd after they
  have been given up, and other programs that mount nothing: every mount that was not there at
  the start is, for a received stage, the device that was looked up for its volume, mounted at
  its staging path as xfs, \<open>nodev\<close> and \<open>nosuid\<close>, read-only exactly for access mode 2
  (\<open>SINGLE_NODE_READER_ONLY\<close>); or, for a received publish, the bind mount of its staging path at
  its target, with the type and options of the mount that path lay in, whatever the access
  mode; between paths that had passed the checks of mountd's configuration.  No mount is gone
  unless an unstage or an unpublish has been received, and a mount of the start that is gone
  was at the path of one of these; and only the two RPCs left as \<open>todo!()\<close> panic.\<close>

theorem node_mounts_accounted:
  assumes laws: "os_laws Os V" and env: "\<And>w w'. env w w' \<Longrightarrow> obs_table V w' = obs_table V w"
    and run: "node_system L Os cfg env self w0 hs ts os seen w"
  shows "(\<forall>e \<in> set (obs_table V w). e \<in> set (obs_table V w0) \<or>
      (\<exists>q. StageCall q \<in> set hs \<and> staged_by L Os V cfg seen q e) \<or>
      (\<exists>q. PublishCall q \<in> set hs \<and> published_by Os V cfg seen q e)) \<and>
    ((\<exists>q. UnstageCall q \<in> set hs) \<or> (\<exists>q. UnpublishCall q \<in> set hs) \<or>
      (\<exists>es. obs_table V w = obs_table V w0 @ es)) \<and>
    (\<forall>e \<in> set (obs_table V w0). e \<in> set (obs_table V w) \<or> node_unmounted Os V cfg hs seen e) \<and>
    (\<forall>c ho. (c, NRet Panic, ho) \<in> set ts \<longrightarrow> c = VolumeStatsCall \<or> c = NodeExpandCall)"
proof -
  note ok = node_system_invariant [OF run laws env]
  then have acc: "table_accounted L Os V cfg w0 hs seen w"
    and tasks: "\<forall>t \<in> set ts. node_task_ok L Os cfg hs seen t" by (simp_all add: node_system_ok_def)
  have "c = VolumeStatsCall \<or> c = NodeExpandCall" if "(c, NRet Panic, ho) \<in> set ts" for c ho
    using tasks that by (fastforce simp: node_task_ok_def)
  moreover have "(\<exists>q. UnstageCall q \<in> set hs) \<or> (\<exists>q. UnpublishCall q \<in> set hs)"
    if "c \<in> set hs" "unmount_path c = Some p" for c p
    using that by (auto elim!: unmount_pathE)
  ultimately show ?thesis using acc node_mounted_by unfolding table_accounted_def by blast
qed

lemma ex_stage_alone:
  "\<exists>seen. node_system mos_lvm mos_os ex_mcfg (=) \<lparr>nod_node_id = ''node-1''\<rparr> ex_host [StageCall ex_stage]
     [(StageCall ex_stage, NRet (Reply (NodeEmptyReply ())), None)] [] seen ex_staged"
proof -
  let ?self = "\<lparr>nod_node_id = ''node-1''\<rparr>"
  have "run_node (node_serve ?self (StageCall ex_stage)) ex_mountd (os_host mos_os) ex_host =
      (Reply (NodeEmptyReply ()), ex_staged)"
    using ex_run_stage by (simp add: run_map_node_prog)
  moreover have "node_system mos_lvm mos_os ex_mcfg (=) ?self ex_host [StageCall ex_stage]
      ([] @ (StageCall ex_stage, node_serve ?self (StageCall ex_stage), None) # []) [] {ex_host} ex_host"
    using node_moves(1) [OF node_start, where c = "StageCall ex_stage"] by simp
  ultimately show ?thesis using node_alone by fastforce
qed

theorem node_mounts_accounted_witness:
  "\<exists>seen. block_path_seen mos_lvm seen \<lparr>bpr_uuid = ''uuid-0''\<rparr> ''/dev/vg0/3'' \<and>
     checked mos_os ex_mcfg seen ''/dev/vg0/3'' False \<and> checked mos_os ex_mcfg seen ''/stage'' False"
proof -
  obtain seen where run: "node_system mos_lvm mos_os ex_mcfg (=) \<lparr>nod_node_id = ''node-1''\<rparr> ex_host
      [StageCall ex_stage] [(StageCall ex_stage, NRet (Reply (NodeEmptyReply ())), None)] [] seen ex_staged"
    using ex_stage_alone ..
  have env: "\<And>w w'. w = w' \<Longrightarrow> obs_table mos_obs w' = obs_table mos_obs w" by simp
  have "mos_table ex_host = []" and
    "\<lparr>me_src = ''/dev/vg0/3'', me_dst = ''/stage'', me_fstype = ''xfs'', me_flags = {NODEV, NOSUID}\<rparr>
       \<in> set (mos_table ex_staged)"
    by (simp_all add: ex_host_def ex_staged_def)
  with node_mounts_accounted [OF mos_laws env run]
  have "staged_by mos_lvm mos_os mos_obs ex_mcfg seen ex_stage
      \<lparr>me_src = ''/dev/vg0/3'', me_dst = ''/stage'', me_fstype = ''xfs'', me_flags = {NODEV, NOSUID}\<rparr>"
    by fastforce
  then show ?thesis by (auto simp: staged_by_def ex_stage_def ex_vcap_def asks_reader_only_def)
qed

end
