(* ===== verification/Provisioning.thy ===== *)
theory Provisioning
  imports Example_Inputs
begin

text \<open>
  The controller in front of volumed: what creating and deleting a volume does to the
  managed volume group, for every LVM that keeps \<open>lvm_laws\<close>.  The proofs rest on the
  interpretations \<open>volumed\<close> and \<open>volumed_reliable\<close> of the service contract.
\<close>

section \<open>Creating volumes\<close>

lemma create_volume_effect_aux:
  assumes "lvm_laws L V"
    and "run_vol (controller_rpc (create_volume E self) m) (volumed_server lost L cfg rn) w = (out, w')"
  shows "vol_view V rn w' = vol_view V rn w \<and> (\<exists>st. out = Fail st) \<or>
    (\<exists>c l. requested_capacity (cvr_capacity_range m) = Inr (c, l) \<and> MIN_VOLUME_SIZE_BYTES \<le> c \<and>
       provisioned (vol_view V rn) (vol_files V rn) self (hash_resource E (cvr_name m)) c w out w')"
  using volumed.run_create_volume [OF _ assms(2)] assms(1) by (simp add: vol_invar_def)

text \<open>C1: whatever CreateVolume answers, the managed group is as before and the answer is an
  error, or it holds the volume of the hashed name, found with the size asked for or newly
  created and at least that large, and no other volume has changed; a successful answer
  describes that volume, whose filesystem is then empty.\<close>

theorem create_volume_effect:
  assumes "lvm_laws L V"
    and "run_vol (controller_rpc (create_volume E self) m) (volumed_server lost L cfg rn) w = (out, w')"
  shows "vol_view V rn w' = vol_view V rn w \<and> (\<exists>st. out = Fail st) \<or>
    (\<exists>c l. requested_capacity (cvr_capacity_range m) = Inr (c, l) \<and> MIN_VOLUME_SIZE_BYTES \<le> c \<and>
       provisioned (vol_view V rn) (vol_files V rn) self (hash_resource E (cvr_name m)) c w out w')"
  using volumed.run_create_volume [OF _ assms(2)] assms(1) by (simp add: vol_invar_def)

theorem create_volume_effect_witness:
  "\<exists>c l. requested_capacity (cvr_capacity_range (ex_create 536870912)) = Inr (c, l) \<and>
     MIN_VOLUME_SIZE_BYTES \<le> c \<and>
     provisioned ex_view (vol_files mem_obs ''vg0'') ex_ctl ''3'' c ex_empty
       (Reply \<lparr>cvs_volume = Some (process_volume ex_ctl (lv_into ex_lv))\<rparr>)
       (ex_made\<lparr>mem_files := [(''/dev/vg0/3'', [])]\<rparr>)"
  using create_volume_effect [OF mem_laws ex_run_empty] by simp

text \<open>C5: a CreateVolume that finds its volume and succeeds, as every retry of a call does,
  formats it again: the volume is the same, and whatever was on it is gone.\<close>

theorem create_volume_wipes_existing:
  assumes "lvm_laws L V"
    and "run_vol (controller_rpc (create_volume E self) m) (volumed_server lost L cfg rn) w =
      (Reply resp, w')"
    and "vol_view V rn w (hash_resource E (cvr_name m)) = Some lv"
  shows "vol_view V rn w' = vol_view V rn w \<and>
    resp = \<lparr>cvs_volume = Some (process_volume self lv)\<rparr> \<and>
    vol_files V rn w' (hash_resource E (cvr_name m)) = []"
  using create_volume_effect_aux [OF assms(1,2)] assms(3) by (auto simp: provisioned_def)

theorem create_volume_wipes_existing_witness:
  "vol_files mem_obs ''vg0'' ex_used ''3'' = [''data''] \<and>
   vol_files mem_obs ''vg0''
     (ex_used\<lparr>mem_files := [(''/dev/vg0/3'', []), (''/dev/vg0/3'', [''data''])]\<rparr>) ''3'' = []"
  using create_volume_wipes_existing [OF mem_laws ex_run_used]
  by (simp add: vol_files_def mem_obs_def mem_find_def ex_used_def ex_lv_def)

text \<open>C21: a CreateVolume that has succeeded, or has made its volume and then failed (mkfs.xfs did
  not run, or the answer of volumed was lost), and any later one for the same capacity range
  whose name has the same hash, the retry of the call or a collision: nothing is created again.
  Where LVM has rounded the size up the answer is AlreadyExists and the group as it was, so
  that no retry ever formats a volume made halfway or tells its id; otherwise the volume is
  formatted, once more after a success, and answered with, unless the formatting fails.\<close>

theorem create_volume_again:
  assumes ready: "vol_ready L V rn w"
    and run: "run_vol (controller_rpc (create_volume E self) m) (volumed_server lost L cfg rn) w = (out, w1)"
    and made: "vol_view V rn w1 (hash_resource E (cvr_name m)) = Some lv"
      "vol_view V rn w (hash_resource E (cvr_name m)) = None \<or> (\<exists>resp. out = Reply resp)"
    and later: "vol_ready L V rn u" "obs_vg V u = obs_vg V w1"
      "vol_view V rn u (hash_resource E (cvr_name m)) = Some lv"
    and same: "default_hash E (cvr_name m') = default_hash E (cvr_name m)"
      "cvr_capacity_range m' = cvr_capacity_range m"
      "cvr_name m' \<noteq> []" "cvr_volume_capabilities m' \<noteq> []"
  shows "\<exists>c l. requested_capacity (cvr_capacity_range m) = Inr (c, l) \<and>
    (\<forall>resp. out = Reply resp \<longrightarrow> resp = \<lparr>cvs_volume = Some (process_volume self lv)\<rparr>) \<and>
    run_vol (controller_rpc (create_volume E self) m') (volumed_server lost L cfg rn) u =
      (if lv_capacity_bytes lv \<noteq> c
       then (Fail (Status AlreadyExists
               (''attempting to create an existing volume with different capacities: found ''
                @ lv_debug E lv @ '', '' @ show_usize c @ '' bytes requested'')), u)
       else (case sv_format (volumed_server lost L cfg rn)
                    \<lparr>flr_name = hash_resource E (cvr_name m)\<rparr> u of
               (Inl st, w2) \<Rightarrow> (Fail st, w2)
             | (Inr _, w2) \<Rightarrow> (Reply \<lparr>cvs_volume = Some (process_volume self lv)\<rparr>, w2)))"
proof -
  have sn: "hash_resource E (cvr_name m') = hash_resource E (cvr_name m)"
    using same(1) by (simp add: hash_resource_inj)
  have resp: "\<forall>resp. out = Reply resp \<longrightarrow> resp = \<lparr>cvs_volume = Some (process_volume self lv)\<rparr>"
    using volumed_reliable.run_create_volume [OF ready run] made(1) by (auto simp: provisioned_def)
  from made have "vol_view V rn w1 (hash_resource E (cvr_name m)) \<noteq> vol_view V rn w (hash_resource E (cvr_name m)) \<or>
      (\<exists>resp. out = Reply resp)" by auto
  from volumed_reliable.run_create_made [OF ready run this] obtain c l
    where req: "requested_capacity (cvr_capacity_range m) = Inr (c, l)"
      and "MIN_VOLUME_SIZE_BYTES \<le> c" "c \<le> vol_bytes_free V cfg rn w1" by auto
  moreover have "vol_bytes_free V cfg rn u = vol_bytes_free V cfg rn w1"
    by (simp add: vol_bytes_free_def later(2))
  ultimately have bounds: "MIN_VOLUME_SIZE_BYTES \<le> c" "c \<le> vol_bytes_free V cfg rn u" by simp_all
  note again = volumed_reliable.run_create_existing
    [of L V rn u E m' c l cfg lv, OF later(1) _ same(3,4) _ bounds, unfolded sn same(2),
     OF hash_resource_hex req later(3)]
  show ?thesis using req resp again by auto
qed

text \<open>An LVM that rounds sizes up, on a host where mkfs.xfs fails.\<close>

definition ex_unformattable :: "mem lvm_api" where
  "ex_unformattable = mem_lvm\<lparr>mkfs_xfs := \<lambda>p w. (Inr (False, ''device is busy''), w)\<rparr>"

definition ex_half :: mem where
  "ex_half = ex_empty\<lparr>mem_lvs := [ex_lv_round]\<rparr>"

lemma ex_unformattable_ready:
  "vol_ready ex_unformattable mem_obs ''vg0'' ex_empty" "vol_ready ex_unformattable mem_obs ''vg0'' ex_half"
proof -
  have "lvm_laws ex_unformattable mem_obs"
    using mem_laws by (simp add: lvm_laws_def lvm_lookup_laws_def lvm_update_laws_def ex_unformattable_def)
  moreover have "lvm_reliable ex_unformattable mem_obs"
    using mem_reliable by (simp add: lvm_reliable_def ex_unformattable_def)
  ultimately show "vol_ready ex_unformattable mem_obs ''vg0'' ex_empty"
    "vol_ready ex_unformattable mem_obs ''vg0'' ex_half"
    unfolding vol_ready_def by (simp_all add: ex_defs ex_half_def)
qed

lemma ex_half_calls:
  "sv_create (volumed_server ex_lost ex_unformattable ex_cfg ''vg0'')
     \<lparr>clr_name = ''3'', clr_capacity = 536871424, clr_tags = tags\<rparr> ex_empty = (Inr (lv_into ex_lv_round), ex_half)"
  "sv_format (volumed_server ex_lost ex_unformattable ex_cfg ''vg0'') \<lparr>flr_name = ''3''\<rparr> ex_half =
     (Inl (Status Internal ''could not format volume `3`: device is busy''), ex_half)"
  by (simp_all add: mem_eval ex_defs ex_lv_round_def ex_half_def ex_unformattable_def Let_def show_radix_0)

lemma ex_run_half:
  "run_vol (controller_rpc (create_volume ex_env ex_ctl) (ex_create 536871424))
     (volumed_server ex_lost ex_unformattable ex_cfg ''vg0'') ex_empty =
    (Fail (Status Internal ''could not format volume `3`: device is busy''), ex_half)"
  by (subst volumed_reliable.run_create_absent [OF ex_unformattable_ready(1) _ _ _ ex_requested_round])
    (simp_all add: ex_half_calls MIN_VOLUME_SIZE_BYTES_def)

theorem create_volume_again_witness:
  "run_vol (controller_rpc (create_volume ex_env ex_ctl) (ex_create 536871424))
     (volumed_server ex_lost ex_unformattable ex_cfg ''vg0'') ex_half =
     (Fail (Status AlreadyExists
        (''attempting to create an existing volume with different capacities: found ''
         @ lv_debug ex_env (lv_into ex_lv_round) @ '', '' @ show_usize 536871424
         @ '' bytes requested'')), ex_half)"
proof -
  have view: "ex_view ex_half ''3'' = Some (lv_into ex_lv_round)" "ex_view ex_empty ''3'' = None"
    by (simp_all add: vol_view_def mem_find_def ex_half_def ex_lv_round_def ex_defs)
  then show ?thesis
    using create_volume_again [OF ex_unformattable_ready(1) ex_run_half _ _ ex_unformattable_ready(2) refl,
        of "lv_into ex_lv_round" "ex_create 536871424"] ex_requested_round
    by (auto simp: ex_lv_round_def)
qed

text \<open>What a CreateVolume comes to when LVM makes the volume and mkfs.xfs succeeds, whatever
  limit and capabilities the request names.\<close>

lemma create_volume_made_aux:
  assumes ready: "vol_ready L V rn w" and size: "obs_vg V w rn = Some gsize"
    and args: "cvr_name m \<noteq> []" "cvr_volume_capabilities m \<noteq> []"
      "requested_capacity (cvr_capacity_range m) = Inr (c, limit)"
    and bounds: "MIN_VOLUME_SIZE_BYTES \<le> c" "c \<le> vol_bytes_free V cfg rn w"
    and free: "vol_view V rn w (hash_resource E (cvr_name m)) = None"
    and cap: "resource_capacity L c = Inr c"
    and add: "vg_add_lv L \<lparr>vg_name = rn, vg_capacity_bytes = gsize\<rparr>
      \<lparr>opt_activate = True, opt_capacity_bytes = c, opt_name = hash_resource E (cvr_name m),
       opt_tags = [''name='' @ cvr_name m]\<rparr> w = (Inr l, w1)"
    and mkfs: "mkfs_xfs L (lvl_path l) w1 = (Inr (True, stderr), w2)"
  shows "run_vol (controller_rpc (create_volume E self) m) (volumed_server lost L cfg rn) w =
    (Reply \<lparr>cvs_volume = Some (process_volume self (lv_into l))\<rparr>, w2)"
proof -
  let ?sn = "hash_resource E (cvr_name m)"
  have laws: "lvm_laws L V" and rel: "lvm_reliable L V" using ready by (simp_all add: vol_ready_def)
  note name = lvm_name_valid [OF rel hash_resource_hex]
  have create: "sv_create (volumed_server lost L cfg rn)
      \<lparr>clr_name = ?sn, clr_capacity = c, clr_tags = [''name='' @ cvr_name m]\<rparr> w = (Inr (lv_into l), w1)"
    unfolding serve_create_ok using lvm_vg_found [OF rel size] cap name add by auto
  have "obs_vg V w1 rn = Some gsize" and "obs_lv V w1 rn ?sn = Some l"
    using lvm_add_vg [OF laws add] lvm_add_ok [OF laws add] size by simp_all
  then have fmt: "sv_format (volumed_server lost L cfg rn) \<lparr>flr_name = ?sn\<rparr> w1 = (Inr (), w2)"
    unfolding serve_format_ok using lvm_vg_found [OF rel] lvm_lv_found [OF rel] name mkfs by auto
  show ?thesis
    unfolding volumed_reliable.run_create_absent [OF ready hash_resource_hex args bounds free] create
    by (simp add: fmt)
qed

text \<open>C22: a CreateVolume the plugin supports (a name, and only capabilities that one node mounts
  the volume as xfs and writes to it), for a size volumed has room for and a name that is free,
  succeeds whenever LVM makes a volume within the limit of the request, if it names one, and
  mkfs.xfs succeeds. It answers with the volume LVM has made, of at least the size asked for
  and within the limit.\<close>

theorem create_volume_succeeds:
  assumes ready: "vol_ready L V rn w" and size: "obs_vg V w rn = Some gsize"
    and args: "cvr_name m \<noteq> []" "cvr_volume_capabilities m \<noteq> []"
      "requested_capacity (cvr_capacity_range m) = Inr (c, limit)"
    and supported: "\<forall>cap \<in> set (cvr_volume_capabilities m).
      cap_access_mode cap = Some \<lparr>am_mode = 1\<rparr> \<and>
      cap_access_type cap \<in> {Some (MountVolume [] [] []), Some (MountVolume ''xfs'' [] [])}"
    and bounds: "MIN_VOLUME_SIZE_BYTES \<le> c" "c \<le> vol_bytes_free V cfg rn w"
    and free: "vol_view V rn w (hash_resource E (cvr_name m)) = None"
    and cap: "resource_capacity L c = Inr c"
    and add: "vg_add_lv L \<lparr>vg_name = rn, vg_capacity_bytes = gsize\<rparr>
      \<lparr>opt_activate = True, opt_capacity_bytes = c, opt_name = hash_resource E (cvr_name m),
       opt_tags = [''name='' @ cvr_name m]\<rparr> w = (Inr l, w1)"
    and limit: "limit = 0 \<or> lvl_capacity_bytes l \<le> limit"
    and mkfs: "mkfs_xfs L (lvl_path l) w1 = (Inr (True, stderr), w2)"
  shows "run_vol (controller_rpc (create_volume E self) m) (volumed_server lost L cfg rn) w =
      (Reply \<lparr>cvs_volume = Some (process_volume self (lv_into l))\<rparr>, w2) \<and>
    c \<le> lv_capacity_bytes (lv_into l) \<and> (limit = 0 \<or> lv_capacity_bytes (lv_into l) \<le> limit)"
proof -
  have laws: "lvm_laws L V" using ready by (simp add: vol_ready_def)
  from lvm_add_ok [OF laws add] have "c \<le> lvl_capacity_bytes l" by simp
  with limit show ?thesis
    using create_volume_made_aux [OF ready size args bounds free cap add mkfs] by simp
qed

theorem create_volume_succeeds_witness:
  "\<exists>w2. run_vol (controller_rpc (create_volume ex_env ex_ctl) (ex_create 536870912)) ex_server ex_empty =
     (Reply \<lparr>cvs_volume = Some (process_volume ex_ctl (lv_into ex_lv))\<rparr>, w2)"
proof -
  have add: "vg_add_lv mem_lvm \<lparr>vg_name = ''vg0'', vg_capacity_bytes = 10737418240\<rparr>
      \<lparr>opt_activate = True, opt_capacity_bytes = 536870912,
       opt_name = hash_resource ex_env (cvr_name (ex_create 536870912)),
       opt_tags = [''name='' @ cvr_name (ex_create 536870912)]\<rparr> ex_empty = (Inr ex_lv, ex_made)"
    by simp (simp add: mem_eval ex_defs ex_made_def Let_def show_radix_0)
  have "mkfs_xfs mem_lvm (lvl_path ex_lv) ex_made = (Inr (True, []), ex_made\<lparr>mem_files := [(''/dev/vg0/3'', [])]\<rparr>)"
    by (simp add: mem_lvm_def ex_lv_def ex_made_def ex_empty_def)
  from create_volume_succeeds [OF ex_ready(1) _ _ _ ex_requested _ _ _ _ _ add _ this,
      of ex_cfg ex_ctl ex_lost]
  show ?thesis
    by (simp add: MIN_VOLUME_SIZE_BYTES_def ex_cap_def) (simp add: mem_lvm_def ex_empty_def)
qed

text \<open>C23: a CreateVolume that asks for what the plugin does not provide succeeds all the same: one
  whose limit is below the size of the volume LVM makes (which rounds sizes up to its extents),
  one for a raw block device, and one for a mode in which several nodes use the volume, the
  numbers 3 to 5. It is answered with the volume, past the limit, and on its device a file
  system has been made. The CSI specification has the limit honoured and an error for what is
  not supported.\<close>

theorem create_volume_overlooks:
  assumes ready: "vol_ready L V rn w" and size: "obs_vg V w rn = Some gsize"
    and args: "cvr_name m \<noteq> []" "cvr_volume_capabilities m \<noteq> []"
      "requested_capacity (cvr_capacity_range m) = Inr (c, limit)"
    and bounds: "MIN_VOLUME_SIZE_BYTES \<le> c" "c \<le> vol_bytes_free V cfg rn w"
    and free: "vol_view V rn w (hash_resource E (cvr_name m)) = None"
    and cap: "resource_capacity L c = Inr c"
    and add: "vg_add_lv L \<lparr>vg_name = rn, vg_capacity_bytes = gsize\<rparr>
      \<lparr>opt_activate = True, opt_capacity_bytes = c, opt_name = hash_resource E (cvr_name m),
       opt_tags = [''name='' @ cvr_name m]\<rparr> w = (Inr l, w1)"
    and mkfs: "mkfs_xfs L (lvl_path l) w1 = (Inr (True, stderr), w2)"
    and past: "past \<longleftrightarrow> limit \<noteq> 0 \<and> limit < lvl_capacity_bytes l"
    and unsupported: "past \<or> (\<exists>cap \<in> set (cvr_volume_capabilities m).
      cap_access_type cap = Some BlockVolume \<or>
      (\<exists>am. cap_access_mode cap = Some am \<and> am_mode am \<in> {3, 4, 5}))"
  shows "\<exists>lv. run_vol (controller_rpc (create_volume E self) m) (volumed_server lost L cfg rn) w =
      (Reply \<lparr>cvs_volume = Some (process_volume self lv)\<rparr>, w2) \<and>
    lv_uuid lv = lvl_uuid l \<and> (past \<longrightarrow> limit < lv_capacity_bytes lv) \<and>
    obs_files V w2 (lvl_path l) = []"
proof -
  have laws: "lvm_laws L V" using ready by (simp add: vol_ready_def)
  from lvm_mkfs_ok [OF laws mkfs] past show ?thesis
    using create_volume_made_aux [OF ready size args bounds free cap add mkfs]
    by (intro exI [of _ "lv_into l"]) simp
qed

text \<open>A limit of exactly the size asked for, which LVM rounds up; a raw block device for several writers.\<close>

theorem create_volume_overlooks_witness:
  "\<exists>lv w2. run_vol (controller_rpc (create_volume ex_env ex_ctl)
      ((ex_create 0)\<lparr>cvr_capacity_range := Some \<lparr>cr_required_bytes = 536871424, cr_limit_bytes = 536871424\<rparr>,
        cvr_volume_capabilities := [\<lparr>cap_access_mode = Some \<lparr>am_mode = 5\<rparr>, cap_access_type = Some BlockVolume\<rparr>]\<rparr>))
      ex_server ex_empty = (Reply \<lparr>cvs_volume = Some (process_volume ex_ctl lv)\<rparr>, w2) \<and>
    lv_uuid lv = ''uuid-0'' \<and> 536871424 < lv_capacity_bytes lv \<and> obs_files mem_obs w2 ''/dev/vg0/3'' = []"
proof -
  have add: "vg_add_lv mem_lvm \<lparr>vg_name = ''vg0'', vg_capacity_bytes = 10737418240\<rparr>
      \<lparr>opt_activate = True, opt_capacity_bytes = 536871424, opt_name = ''3'',
       opt_tags = [''name='' @ ''pvc'']\<rparr> ex_empty = (Inr ex_lv_round, ex_half)"
    by (simp add: mem_eval ex_defs ex_lv_round_def ex_half_def Let_def show_radix_0)
  have mkfs: "mkfs_xfs mem_lvm (lvl_path ex_lv_round) ex_half =
      (Inr (True, []), ex_half\<lparr>mem_files := [(''/dev/vg0/3'', [])]\<rparr>)"
    by (simp add: mem_lvm_def ex_lv_round_def ex_half_def ex_empty_def)
  note overlooks = create_volume_overlooks [where limit = 536871424 and c = 536871424 and E = ex_env and
      m = "(ex_create 0)\<lparr>cvr_capacity_range := Some \<lparr>cr_required_bytes = 536871424, cr_limit_bytes = 536871424\<rparr>,
        cvr_volume_capabilities := [\<lparr>cap_access_mode = Some \<lparr>am_mode = 5\<rparr>, cap_access_type = Some BlockVolume\<rparr>]\<rparr>",
      OF ex_ready(1) _ _ _ _ _ _ _ _ _ mkfs refl, of 10737418240 ex_cfg ex_ctl ex_lost]
  have size: "obs_vg mem_obs ex_empty ''vg0'' = Some 10737418240" by (simp add: ex_empty_def)
  have cap: "resource_capacity mem_lvm 536871424 = Inr 536871424" by (simp add: mem_lvm_def)
  show ?thesis
    using overlooks size cap add
    by (auto simp: requested_capacity_def usize_of_i64_def MIN_VOLUME_SIZE_BYTES_def ex_lv_round_def ex_create_def)
qed

section \<open>Deleting volumes\<close>

lemma run_delete_found:
  assumes "dvr_volume_id m \<noteq> []"
    and "sv_get srv \<lparr>glr_identifier = Some (Uuid (dvr_volume_id m))\<rparr> s = (Inr lv, s)"
  shows "run_vol (controller_rpc (delete_volume E) m) srv s =
    (case sv_delete srv \<lparr>dlr_name = lv_name lv\<rparr> s of
       (Inl st, s') \<Rightarrow> (Fail st, s') | (Inr _, s') \<Rightarrow> (Reply (), s'))"
  using assms by (simp add: controller_rpc_eq delete_volume_def v_then_v_result split: prod.splits sum.splits)

lemma delete_effect_aux:
  assumes laws: "lvm_laws L V" and vg: "vg_from_id L rn w = Inr vg"
    and uuid: "resource_uuid L (dvr_volume_id m) = Inr u" "dvr_volume_id m \<noteq> []"
    and found: "lv_from_uuid L u w = Inr l"
    and run: "run_vol (controller_rpc (delete_volume E) m) (volumed_server lost L cfg rn) w =
      (Reply (), w')"
  shows "lvl_uuid l = dvr_volume_id m \<and>
    obs_lv V w (lvl_volume_group_name l) (lvl_name l) = Some l \<and>
    obs_lv V w' = (obs_lv V w)(rn := (obs_lv V w rn)(lvl_name l := None))"
proof -
  have "sv_get (volumed_server lost L cfg rn)
      \<lparr>glr_identifier = Some (Uuid (dvr_volume_id m))\<rparr> w = (Inr (lv_into l), w)"
    using vg uuid found by (auto simp: serve_get_uuid_ok)
  from run_delete_found [OF uuid(2) this, of E] run
  have "sv_delete (volumed_server lost L cfg rn) \<lparr>dlr_name = lvl_name l\<rparr> w = (Inr (), w')"
    by (auto split: prod.splits sum.splits)
  from serve_delete_obs [OF laws this] lvm_by_uuid [OF laws found] lvm_uuid [OF laws uuid(1)]
  show ?thesis by simp
qed

text \<open>Deletes on the example worlds; \<open>ex_two\<close> has a second group with a volume of the same name.\<close>

definition ex_lv_other :: logical_volume where
  "ex_lv_other = \<lparr>lvl_uuid = ''uuid-9'', lvl_name = ''3'', lvl_capacity_bytes = 1073741824,
     lvl_volume_group_name = ''vg1'', lvl_path = ''/dev/vg1/3''\<rparr>"

definition ex_two :: mem where
  "ex_two = \<lparr>mem_vgs = [(''vg0'', 10737418240), (''vg1'', 10737418240)],
     mem_lvs = [ex_lv, ex_lv_other], mem_files = []\<rparr>"

lemmas ex_delete_eval = mem_eval ex_defs ex_lv_other_def ex_two_def

lemma ex_run_delete:
  "run_vol (controller_rpc (delete_volume ex_env) \<lparr>dvr_volume_id = ''uuid-0''\<rparr>) ex_server ex_used =
    (Reply (), ex_used\<lparr>mem_lvs := []\<rparr>)"
  by (subst run_delete_found [where lv = "lv_into ex_lv"]) (simp_all add: ex_delete_eval)

lemma ex_run_delete_two:
  "run_vol (controller_rpc (delete_volume ex_env) \<lparr>dvr_volume_id = ''uuid-9''\<rparr>) ex_server ex_two =
    (Reply (), ex_two\<lparr>mem_lvs := [ex_lv_other]\<rparr>)"
  by (subst run_delete_found [where lv = "lv_into ex_lv_other"]) (simp_all add: ex_delete_eval)

lemma ex_lookups:
  "vg_from_id mem_lvm ''vg0'' ex_used = Inr \<lparr>vg_name = ''vg0'', vg_capacity_bytes = 10737418240\<rparr>"
  "vg_from_id mem_lvm ''vg0'' ex_two = Inr \<lparr>vg_name = ''vg0'', vg_capacity_bytes = 10737418240\<rparr>"
  "lv_from_uuid mem_lvm ''uuid-0'' ex_used = Inr ex_lv"
  "lv_from_uuid mem_lvm ''uuid-9'' ex_two = Inr ex_lv_other"
  "resource_uuid mem_lvm (dvr_volume_id \<lparr>dvr_volume_id = ''uuid-0''\<rparr>) = Inr ''uuid-0''"
  "resource_uuid mem_lvm (dvr_volume_id \<lparr>dvr_volume_id = ''uuid-9''\<rparr>) = Inr ''uuid-9''"
  by (simp_all add: ex_delete_eval)

text \<open>C6: DeleteVolume of the uuid of a logical volume, when it succeeds, removes from the
  managed group the volume with that volume's name and changes no other volume of any group;
  where the uuid is one of the managed group, that is the volume asked for.\<close>

theorem delete_volume_effect:
  assumes laws: "lvm_laws L V" and vg: "vg_from_id L rn w = Inr vg"
    and uuid: "resource_uuid L (dvr_volume_id m) = Inr u" "dvr_volume_id m \<noteq> []"
    and found: "lv_from_uuid L u w = Inr l"
    and run: "run_vol (controller_rpc (delete_volume E) m) (volumed_server lost L cfg rn) w =
      (Reply (), w')"
  shows "lvl_uuid l = dvr_volume_id m \<and>
    obs_lv V w (lvl_volume_group_name l) (lvl_name l) = Some l \<and>
    obs_lv V w' = (obs_lv V w)(rn := (obs_lv V w rn)(lvl_name l := None))"
  using assms by (rule delete_effect_aux)

theorem delete_volume_effect_witness:
  "lvl_uuid ex_lv = ''uuid-0'' \<and> mem_find ex_used ''vg0'' ''3'' = Some ex_lv \<and>
   mem_find (ex_used\<lparr>mem_lvs := []\<rparr>) =
     (mem_find ex_used)(''vg0'' := (mem_find ex_used ''vg0'')(''3'' := None))"
  using delete_volume_effect [OF mem_laws ex_lookups(1) ex_lookups(5) _ ex_lookups(3) ex_run_delete]
  by (simp add: ex_lv_def)

text \<open>C33: DeleteVolume answers success and deletes nothing whenever the lookup of the volume
  fails, for whatever reason: also when volumed could not look at all.\<close>

theorem delete_volume_lookup_failure:
  assumes "dvr_volume_id m \<noteq> []"
    and "sv_get (volumed_server lost L cfg rn) \<lparr>glr_identifier = Some (Uuid (dvr_volume_id m))\<rparr> w =
      (Inl st, w')"
  shows "run_vol (controller_rpc (delete_volume E) m) (volumed_server lost L cfg rn) w = (Reply (), w)"
  using assms serve_get_pure [OF assms(2)] by (simp add: controller_rpc_eq delete_volume_def)

definition ex_no_group :: mem where
  "ex_no_group = ex_used\<lparr>mem_vgs := []\<rparr>"

theorem delete_volume_lookup_failure_witness:
  "st_code (Status Internal ''volume group not found: vg0'') = Internal \<and>
   run_vol (controller_rpc (delete_volume ex_env) \<lparr>dvr_volume_id = ''uuid-0''\<rparr>) ex_server ex_no_group =
     (Reply (), ex_no_group)"
proof -
  have get: "sv_get ex_server \<lparr>glr_identifier = Some (Uuid (dvr_volume_id \<lparr>dvr_volume_id = ''uuid-0''\<rparr>))\<rparr>
      ex_no_group = (Inl (Status Internal ''volume group not found: vg0''), ex_no_group)"
    by (simp add: mem_eval ex_defs ex_no_group_def)
  show ?thesis using delete_volume_lookup_failure [OF _ get] by simp
qed

text \<open>C34: the uuid of a volume in another volume group makes DeleteVolume remove the volume
  of the same name in the managed group, and leave the one asked for.\<close>

theorem delete_volume_other_group:
  assumes laws: "lvm_laws L V" and vg: "vg_from_id L rn w = Inr vg"
    and uuid: "resource_uuid L (dvr_volume_id m) = Inr u" "dvr_volume_id m \<noteq> []"
    and found: "lv_from_uuid L u w = Inr l" "lvl_volume_group_name l \<noteq> rn"
    and run: "run_vol (controller_rpc (delete_volume E) m) (volumed_server lost L cfg rn) w =
      (Reply (), w')"
  shows "obs_lv V w' (lvl_volume_group_name l) (lvl_name l) = Some l \<and>
    obs_lv V w' rn (lvl_name l) = None"
  using delete_effect_aux [OF laws vg uuid found(1) run] found(2) by simp

theorem delete_volume_other_group_witness:
  "mem_find (ex_two\<lparr>mem_lvs := [ex_lv_other]\<rparr>) ''vg1'' ''3'' = Some ex_lv_other \<and>
   mem_find (ex_two\<lparr>mem_lvs := [ex_lv_other]\<rparr>) ''vg0'' ''3'' = None"
  using delete_volume_other_group
    [OF mem_laws ex_lookups(2) ex_lookups(6) _ ex_lookups(4) _ ex_run_delete_two]
  by (simp add: ex_lv_other_def)

section \<open>Create and delete\<close>

text \<open>LVM gives no two logical volumes one uuid.\<close>

definition uuids_unique :: "'w lvm_observers \<Rightarrow> 'w \<Rightarrow> bool" where
  "uuids_unique V w \<longleftrightarrow>
     (\<forall>g n l g' n' l'. obs_lv V w g n = Some l \<longrightarrow> obs_lv V w g' n' = Some l' \<longrightarrow>
        lvl_uuid l = lvl_uuid l' \<longrightarrow> g = g' \<and> n = n')"

text \<open>What happens in between may change the host as long as the logical volumes stay.\<close>

lemma create_delete_aux:
  assumes laws: "lvm_laws L V" and unique: "uuids_unique V u"
    and absent: "vol_view V rn w (hash_resource E (cvr_name m)) = None"
    and create: "run_vol (controller_rpc (create_volume E self) m) (volumed_server lost L cfg rn) w =
      (Reply \<lparr>cvs_volume = Some vol\<rparr>, w1)"
    and between: "obs_lv V u = obs_lv V w1"
    and found: "sv_get (volumed_server lost L cfg rn)
      \<lparr>glr_identifier = Some (Uuid (vol_volume_id vol))\<rparr> u = (Inr lv, u)"
    and delete: "run_vol (controller_rpc (delete_volume E) \<lparr>dvr_volume_id = vol_volume_id vol\<rparr>)
      (volumed_server lost L cfg rn) u = (Reply (), w2)"
  shows "vol_view V rn w2 = vol_view V rn w"
proof -
  let ?sn = "hash_resource E (cvr_name m)"
  have nonempty: "vol_volume_id vol \<noteq> []"
    using delete by (auto simp: controller_rpc_eq delete_volume_def)
  from create_volume_effect_aux [OF laws create] absent obtain new
    where new: "vol_view V rn w1 = (vol_view V rn w)(?sn \<mapsto> new)" "vol_volume_id vol = lv_uuid new"
    by (auto simp: provisioned_def)
  then obtain l where l: "obs_lv V u rn ?sn = Some l" "new = lv_into l"
    using between by (auto simp: vol_view_def dest!: fun_cong [where x = ?sn])
  from found obtain id l' where "resource_uuid L (vol_volume_id vol) = Inr id"
    and l': "lv_from_uuid L id u = Inr l'" "lv = lv_into l'"
    unfolding serve_get_uuid_ok by blast
  then have "lvl_uuid l' = lvl_uuid l"
    using lvm_uuid [OF laws] lvm_by_uuid [OF laws] new(2) l(2) by simp
  then have "lvl_name l' = ?sn"
    using unique lvm_by_uuid [OF laws l'(1)] l(1) unfolding uuids_unique_def by blast
  with run_delete_found [of "\<lparr>dvr_volume_id = vol_volume_id vol\<rparr>" _ u lv E] found nonempty delete l'(2)
  have "sv_delete (volumed_server lost L cfg rn) \<lparr>dlr_name = ?sn\<rparr> u = (Inr (), w2)"
    by (auto split: prod.splits sum.splits)
  from volumed.delete_ok [OF _ this, of V] laws
  have "vol_view V rn w2 = (vol_view V rn u)(?sn := None)" by (simp add: vol_invar_def)
  moreover have "vol_view V rn u = vol_view V rn w1" using between by (simp add: vol_view_def fun_eq_iff)
  ultimately show ?thesis using new absent by auto
qed

text \<open>C12: a volume that CreateVolume has made is removed by a DeleteVolume of the id in its
  answer, if that finds the volume and succeeds, and the managed group is as it was before.\<close>

theorem create_delete_roundtrip:
  assumes laws: "lvm_laws L V" and unique: "uuids_unique V w1"
    and absent: "vol_view V rn w (hash_resource E (cvr_name m)) = None"
    and create: "run_vol (controller_rpc (create_volume E self) m) (volumed_server lost L cfg rn) w =
      (Reply \<lparr>cvs_volume = Some vol\<rparr>, w1)"
    and found: "sv_get (volumed_server lost L cfg rn)
      \<lparr>glr_identifier = Some (Uuid (vol_volume_id vol))\<rparr> w1 = (Inr lv, w1)"
    and delete: "run_vol (controller_rpc (delete_volume E) \<lparr>dvr_volume_id = vol_volume_id vol\<rparr>)
      (volumed_server lost L cfg rn) w1 = (Reply (), w2)"
  shows "vol_view V rn w2 = vol_view V rn w"
  by (rule create_delete_aux [OF laws unique absent create refl found delete])

definition ex_formatted :: mem where
  "ex_formatted = ex_made\<lparr>mem_files := [(''/dev/vg0/3'', [])]\<rparr>"

theorem create_delete_roundtrip_witness:
  "ex_view (ex_formatted\<lparr>mem_lvs := []\<rparr>) = ex_view ex_empty"
proof (rule create_delete_roundtrip [OF mem_laws])
  show "uuids_unique mem_obs ex_formatted"
    by (auto simp: uuids_unique_def mem_find_def ex_formatted_def ex_made_def split: if_splits)
  show "run_vol (controller_rpc (create_volume ex_env ex_ctl) (ex_create 536870912)) ex_server ex_empty =
      (Reply \<lparr>cvs_volume = Some (process_volume ex_ctl (lv_into ex_lv))\<rparr>, ex_formatted)"
    using ex_run_empty by (simp only: ex_formatted_def)
  show get: "sv_get ex_server
      \<lparr>glr_identifier = Some (Uuid (vol_volume_id (process_volume ex_ctl (lv_into ex_lv))))\<rparr>
      ex_formatted = (Inr (lv_into ex_lv), ex_formatted)"
    by (simp add: mem_eval ex_defs ex_formatted_def ex_made_def)
  have "sv_delete ex_server \<lparr>dlr_name = ''3''\<rparr> ex_formatted = (Inr (), ex_formatted\<lparr>mem_lvs := []\<rparr>)"
    by (simp add: mem_eval ex_defs ex_formatted_def ex_made_def)
  then show "run_vol (controller_rpc (delete_volume ex_env)
      \<lparr>dvr_volume_id = vol_volume_id (process_volume ex_ctl (lv_into ex_lv))\<rparr>) ex_server ex_formatted =
      (Reply (), ex_formatted\<lparr>mem_lvs := []\<rparr>)"
    using get by (subst run_delete_found [where lv = "lv_into ex_lv"]) (simp_all add: ex_lv_def)
qed simp

end
