(* ===== verification/Paired_World.thy ===== *)
theory Paired_World
  imports Provisioning Staging Calls
begin

text \<open>
  A host with both a volume manager and a file system: any two instances of the parameters
  \<open>lvm_api\<close> and \<open>os_api\<close> side by side, which keep their laws.  It is the world in which a
  volume is first provisioned through volumed and then mounted through mountd.
\<close>

section \<open>What a side leaves as it is\<close>

text \<open>
  Mounting changes no logical volume and LVM changes no mount: an observation \<open>f\<close> that the
  operations of one side keep is kept by every handler that works through it.
\<close>

definition os_keeps :: "'w os_api \<Rightarrow> ('w \<Rightarrow> 'x) \<Rightarrow> bool" where
  "os_keeps Os f \<longleftrightarrow>
     (\<forall>s d ty fl w r w'. os_mount Os s d ty fl w = (r, w') \<longrightarrow> f w' = f w) \<and>
     (\<forall>p w r w'. os_unmount Os p w = (r, w') \<longrightarrow> f w' = f w) \<and>
     (\<forall>p u g w r w'. os_chown Os p u g w = (r, w') \<longrightarrow> f w' = f w) \<and>
     (\<forall>p w r w'. os_create_dir_all Os p w = (r, w') \<longrightarrow> f w' = f w) \<and>
     (\<forall>p w r w'. os_remove_dir Os p w = (r, w') \<longrightarrow> f w' = f w)"

definition lvm_keeps :: "'w lvm_api \<Rightarrow> ('w \<Rightarrow> 'x) \<Rightarrow> bool" where
  "lvm_keeps L f \<longleftrightarrow>
     (\<forall>vg opt w r w'. vg_add_lv L vg opt w = (r, w') \<longrightarrow> f w' = f w) \<and>
     (\<forall>vg n w r w'. vg_remove_lv L vg n w = (r, w') \<longrightarrow> f w' = f w) \<and>
     (\<forall>p w r w'. mkfs_xfs L p w = (r, w') \<longrightarrow> f w' = f w)"

lemma mount_keeps:
  assumes "os_keeps Os f" and "mount Os cfg q w = (r, w')"
  shows "f w' = f w"
proof -
  obtain uid gid where "get_owner_pair cfg = (uid, gid)" by fastforce
  with assms show ?thesis
    by (auto simp: mount_def os_keeps_def split: sum.splits if_splits prod.splits)
qed

lemma unmount_keeps: "os_keeps Os f \<Longrightarrow> unmount Os cfg q w = (r, w') \<Longrightarrow> f w' = f w"
  by (auto simp: unmount_def os_keeps_def split: sum.splits if_splits prod.splits)

lemma client_result_state: "client_result lost ow = (r, w) \<Longrightarrow> snd ow = w"
  by (cases ow; cases "fst ow") (auto simp: client_result_def)

lemma run_node_keeps:
  assumes "os_keeps Os f"
    and "run_node p (mountd_server lost L Os cfg) (os_host Os) w = (x, w')"
  shows "f w' = f w"
  using assms(2)
proof (induction p arbitrary: w)
  case (NBlockPath q k)
  then show ?case by (auto split: prod.splits dest!: mountd.block_path_pure)
next
  case (NMount q k)
  obtain r t where m: "ms_mount (mountd_server lost L Os cfg) q w = (r, t)" by fastforce
  then have "f t = f w"
    using mount_keeps [OF assms(1), of cfg q w] client_result_state
    by (cases "mount Os cfg q w") (fastforce simp: mountd_server_def)
  with NMount m show ?case by fastforce
next
  case (NUnmount q k)
  obtain r t where m: "ms_unmount (mountd_server lost L Os cfg) q w = (r, t)" by fastforce
  then have "f t = f w"
    using unmount_keeps [OF assms(1), of cfg q w] client_result_state
    by (cases "unmount Os cfg q w") (fastforce simp: mountd_server_def)
  with NUnmount m show ?case by fastforce
next
  case (NCreateDirAll p k)
  obtain r t where m: "os_create_dir_all Os p w = (r, t)" by fastforce
  with assms(1) have "f t = f w" by (auto simp: os_keeps_def)
  with NCreateDirAll m show ?case by (fastforce simp: os_host_def)
next
  case (NRemoveDir p k)
  obtain r t where m: "os_remove_dir Os p w = (r, t)" by fastforce
  with assms(1) have "f t = f w" by (auto simp: os_keeps_def)
  with NRemoveDir m show ?case by (fastforce simp: os_host_def)
qed auto

lemma serve_call_keeps:
  assumes "lvm_keeps L f"
  shows "f (serve_call (volumed_server lost L cfg rn) v w) = f w"
proof (cases v)
  case (AskCreate q)
  obtain r t where c: "sv_create (volumed_server lost L cfg rn) q w = (r, t)" by fastforce
  have "f t = f w"
    using c serve_create_err [of lost L cfg rn q w _ t] assms
    by (cases r) (auto simp: serve_create_ok lvm_keeps_def)
  with AskCreate c show ?thesis by simp
next
  case (AskDelete q)
  obtain r t where c: "sv_delete (volumed_server lost L cfg rn) q w = (r, t)" by fastforce
  have "f t = f w"
    using c serve_delete_err [of lost L cfg rn q w _ t] assms
    by (cases r) (auto simp: serve_delete_ok lvm_keeps_def)
  with AskDelete c show ?thesis by simp
next
  case (AskFormat q)
  obtain r t where c: "sv_format (volumed_server lost L cfg rn) q w = (r, t)" by fastforce
  with serve_format_any [OF c] assms AskFormat show ?thesis by (auto simp: lvm_keeps_def)
next
  case (AskLv q)
  obtain r t where c: "sv_get (volumed_server lost L cfg rn) q w = (r, t)" by fastforce
  with serve_get_pure [OF c] AskLv show ?thesis by simp
qed (simp_all add: serve_list serve_free_bytes)

lemma run_vol_keeps:
  assumes "lvm_keeps L f" and "run_vol p (volumed_server lost L cfg rn) w = (x, w')"
  shows "f w' = f w"
  by (rule run_vol_invariant [OF _ assms(2), where I = "\<lambda>u. f u = f w"])
    (simp_all add: serve_call_keeps [OF assms(1)])

section \<open>Two worlds side by side\<close>

definition on_fst :: "('a \<Rightarrow> 'r \<times> 'a) \<Rightarrow> 'a \<times> 'b \<Rightarrow> 'r \<times> 'a \<times> 'b" where
  "on_fst f w = (case f (fst w) of (r, a) \<Rightarrow> (r, a, snd w))"

definition on_snd :: "('b \<Rightarrow> 'r \<times> 'b) \<Rightarrow> 'a \<times> 'b \<Rightarrow> 'r \<times> 'a \<times> 'b" where
  "on_snd f w = (case f (snd w) of (r, b) \<Rightarrow> (r, fst w, b))"

lemma on_fst_eq [simp]: "on_fst f w = (r, w') \<longleftrightarrow> f (fst w) = (r, fst w') \<and> snd w' = snd w"
  by (cases w'; cases "f (fst w)") (auto simp: on_fst_def)

lemma on_snd_eq [simp]: "on_snd f w = (r, w') \<longleftrightarrow> f (snd w) = (r, snd w') \<and> fst w' = fst w"
  by (cases w'; cases "f (snd w)") (auto simp: on_snd_def)

definition fst_lvm :: "'a lvm_api \<Rightarrow> ('a \<times> 'b) lvm_api" where
  "fst_lvm L =
     \<lparr>resource_name = resource_name L,
      resource_uuid = resource_uuid L,
      resource_capacity = resource_capacity L,
      capacity_text = capacity_text L,
      vg_from_id = (\<lambda>g w. vg_from_id L g (fst w)),
      vg_list_lvs = (\<lambda>vg w. vg_list_lvs L vg (fst w)),
      vg_add_lv = (\<lambda>vg opt. on_fst (vg_add_lv L vg opt)),
      vg_remove_lv = (\<lambda>vg n. on_fst (vg_remove_lv L vg n)),
      lv_from_id = (\<lambda>g n w. lv_from_id L g n (fst w)),
      lv_from_uuid = (\<lambda>u w. lv_from_uuid L u (fst w)),
      mkfs_xfs = (\<lambda>p. on_fst (mkfs_xfs L p))\<rparr>"

definition fst_lvm_obs :: "'a lvm_observers \<Rightarrow> ('a \<times> 'b) lvm_observers" where
  "fst_lvm_obs V =
     \<lparr>obs_lv = (\<lambda>w. obs_lv V (fst w)), obs_vg = (\<lambda>w. obs_vg V (fst w)),
      obs_files = (\<lambda>w. obs_files V (fst w))\<rparr>"

definition snd_os :: "'b os_api \<Rightarrow> ('a \<times> 'b) os_api" where
  "snd_os Os =
     \<lparr>os_mountpaths = (\<lambda>w. os_mountpaths Os (snd w)),
      os_exists = (\<lambda>p w. os_exists Os p (snd w)),
      os_metadata = (\<lambda>p w. os_metadata Os p (snd w)),
      os_is_dir = (\<lambda>p w. os_is_dir Os p (snd w)),
      os_mount = (\<lambda>s d ty fl. on_snd (os_mount Os s d ty fl)),
      os_unmount = (\<lambda>p. on_snd (os_unmount Os p)),
      os_chown = (\<lambda>p u g. on_snd (os_chown Os p u g)),
      os_create_dir_all = (\<lambda>p. on_snd (os_create_dir_all Os p)),
      os_remove_dir = (\<lambda>p. on_snd (os_remove_dir Os p)),
      glob_new = glob_new Os,
      user_from_name = user_from_name Os,
      group_from_name = group_from_name Os\<rparr>"

definition snd_os_obs :: "'b os_observers \<Rightarrow> ('a \<times> 'b) os_observers" where
  "snd_os_obs U = \<lparr>obs_table = (\<lambda>w. obs_table U (snd w)), obs_resolve = (\<lambda>w. obs_resolve U (snd w)),
      obs_beneath = (\<lambda>w. obs_beneath U (snd w))\<rparr>"

lemma fst_lvm_laws:
  assumes "lvm_laws L V"
  shows "lvm_laws (fst_lvm L :: ('a \<times> 'b) lvm_api) (fst_lvm_obs V)"
proof -
  note laws = assms [unfolded lvm_laws_def lvm_lookup_laws_def lvm_update_laws_def]
  have "lvm_lookup_laws (fst_lvm L :: ('a \<times> 'b) lvm_api) (fst_lvm_obs V)"
    using laws unfolding lvm_lookup_laws_def by (simp add: fst_lvm_def fst_lvm_obs_def)
  moreover have "lvm_update_laws (fst_lvm L :: ('a \<times> 'b) lvm_api) (fst_lvm_obs V)"
    unfolding lvm_update_laws_def fst_lvm_def fst_lvm_obs_def
    by (simp only: lvm_api.simps lvm_observers.simps on_fst_eq)
      (intro conjI allI impI; elim conjE;
       auto dest: lvm_add_ok [OF assms] lvm_add_err [OF assms] lvm_add_vg [OF assms]
         lvm_remove_ok [OF assms] lvm_remove_err [OF assms] lvm_remove_vg [OF assms]
         lvm_mkfs [OF assms] lvm_mkfs_ok [OF assms])
  ultimately show ?thesis by (simp add: lvm_laws_def)
qed

lemma snd_os_laws:
  assumes "os_laws Os U"
  shows "os_laws (snd_os Os :: ('a \<times> 'b) os_api) (snd_os_obs U)"
proof -
  have options: "new_options (snd_os_obs U :: ('a \<times> 'b) os_observers) w src ty fl = new_options U (snd w) src ty fl"
    for w src ty fl by (simp add: new_options_def snd_os_obs_def)
  show ?thesis unfolding os_laws_def options
    unfolding snd_os_def snd_os_obs_def
    by (simp only: os_api.simps os_observers.simps on_snd_eq fun_eq_iff)
      (intro conjI allI impI; (elim conjE)?;
       (rule os_listed [OF assms] os_mount_ok [OF assms] os_mount_beneath [OF assms] os_mount_err [OF assms]
          os_unmount_ok [OF assms] os_unmount_err [OF assms] os_chown_table [OF assms]
          os_chown_beneath [OF assms, THEN fun_cong] os_create_table [OF assms] os_create_beneath [OF assms]
          os_remove_table [OF assms]; assumption))
qed

text \<open>The handlers on two worlds are the handlers on one of them.\<close>

lemma snd_os_simps [simp]:
  "os_mountpaths (snd_os Os) w = os_mountpaths Os (snd w)"
  "os_exists (snd_os Os) p w = os_exists Os p (snd w)"
  "os_metadata (snd_os Os) p w = os_metadata Os p (snd w)"
  "os_is_dir (snd_os Os) p w = os_is_dir Os p (snd w)"
  "os_mount (snd_os Os) s d ty fl = on_snd (os_mount Os s d ty fl)"
  "os_unmount (snd_os Os) p = on_snd (os_unmount Os p)"
  "os_chown (snd_os Os) p u g = on_snd (os_chown Os p u g)"
  "glob_new (snd_os Os) = glob_new Os"
  by (simp_all add: snd_os_def)

lemma snd_os_interactable:
  "ensure_interactable (snd_os Os) cfg p ro w = ensure_interactable Os cfg p ro (snd w)"
proof -
  have same: "whitelisted (snd_os Os) cfg p = whitelisted Os cfg p" by (simp add: whitelisted_def)
  show ?thesis unfolding ensure_interactable_def snd_os_simps same ..
qed

lemma snd_os_mount:
  "mount (snd_os Os) cfg q w = (case mount Os cfg q (snd w) of (r, b) \<Rightarrow> (r, fst w, b))"
  unfolding mount_def snd_os_interactable
  by (simp add: on_snd_def split: sum.splits prod.splits)

section \<open>A concrete host\<close>

abbreviation ex_pair_lvm :: "(mem \<times> mos) lvm_api" where
  "ex_pair_lvm \<equiv> fst_lvm mem_lvm"

abbreviation ex_pair_os :: "(mem \<times> mos) os_api" where
  "ex_pair_os \<equiv> snd_os mos_os"

lemma ex_pair_laws:
  "lvm_laws ex_pair_lvm (fst_lvm_obs mem_obs)" "os_laws ex_pair_os (snd_os_obs mos_obs)"
  by (simp_all add: fst_lvm_laws [OF mem_laws] snd_os_laws [OF mos_laws])

abbreviation ex_pair_server :: "(mem \<times> mos) volume_server" where
  "ex_pair_server \<equiv> volumed_server ex_lost ex_pair_lvm ex_cfg ''vg0''"

lemma ex_pair_calls:
  "sv_get_free_bytes ex_pair_server (ex_empty, b) = (Inr 10737418240, ex_empty, b)"
  "sv_get ex_pair_server \<lparr>glr_identifier = Some (Name ''3'')\<rparr> (ex_empty, b) =
     (Inl (Status NotFound ''no such volume''), ex_empty, b)"
  "sv_create ex_pair_server \<lparr>clr_name = ''3'', clr_capacity = 536870912, clr_tags = tags\<rparr> (ex_empty, b) =
     (Inr (lv_into ex_lv), ex_made, b)"
  "sv_format ex_pair_server \<lparr>flr_name = ''3''\<rparr> (ex_made, b) = (Inr (), ex_formatted, b)"
  by (simp_all add: fst_lvm_def on_fst_def mem_eval ex_defs ex_made_def ex_formatted_def Let_def show_radix_0)

lemma ex_pair_create:
  "run_vol (controller_rpc (create_volume ex_env ex_ctl) (ex_create 536870912)) ex_pair_server (ex_empty, ex_host) =
    (Reply \<lparr>cvs_volume = Some (process_volume ex_ctl (lv_into ex_lv))\<rparr>, ex_formatted, ex_host)"
  by (simp add: controller_rpc_eq create_volume_def admit_capacity_def provision_volume_def
      find_or_create_def v_then_v_result Let_def ex_requested [simplified] ex_pair_calls
      MIN_VOLUME_SIZE_BYTES_def)

lemma ex_pair_block_path:
  "ms_block_path (mountd_server ex_lost ex_pair_lvm ex_pair_os ex_mcfg) \<lparr>bpr_uuid = ''uuid-0''\<rparr> (ex_formatted, b) =
    (Inr ''/dev/vg0/3'', ex_formatted, b)"
  by (simp add: get_lvm_block_path_Reply)
    (simp add: fst_lvm_def mem_lvm_def mem_find_def ex_formatted_def ex_made_def ex_lv_def)

lemma ex_pair_stage:
  "node_run ex_lost ex_pair_lvm ex_pair_os ex_mcfg node_stage_volume ex_stage (ex_formatted, ex_host) =
    (Reply (), ex_formatted, ex_staged)"
proof -
  let ?srv = "mountd_server ex_lost ex_pair_lvm ex_pair_os ex_mcfg"
  have "os_exists mos_os ''/dev/vg0/3'' ex_host" "os_exists mos_os ''/stage'' ex_host"
    by (simp_all add: mos_eval)
  moreover have "ms_mount ?srv (ex_mount ''/dev/vg0/3'' ''/stage'' []) (ex_formatted, ex_host) =
      (Inr (), ex_formatted, ex_staged)"
    by (simp add: mountd_server_def client_result_def snd_os_mount ex_mount_stage)
  ultimately show ?thesis
    by (simp add: node_rpc_eq node_stage_volume_def ex_stage_def ex_vcap_def wants_readonly_def
        ex_pair_block_path os_host_def ex_mount_def)
qed

lemma ex_pair_keeps:
  "os_keeps ex_pair_os (obs_lv (fst_lvm_obs mem_obs))"
  "lvm_keeps ex_pair_lvm (obs_table (snd_os_obs mos_obs))"
  by (simp_all add: os_keeps_def lvm_keeps_def snd_os_def fst_lvm_def fst_lvm_obs_def snd_os_obs_def)

abbreviation ex_pair_run :: "('m creq \<Rightarrow> 'a outcome node_prog) \<Rightarrow> 'm \<Rightarrow> mem \<times> mos \<Rightarrow> 'a outcome \<times> mem \<times> mos" where
  "ex_pair_run \<equiv> node_run ex_lost ex_pair_lvm ex_pair_os ex_mcfg"

lemma snd_os_unmount:
  "unmount (snd_os Os) cfg q w = (case unmount Os cfg q (snd w) of (r, b) \<Rightarrow> (r, fst w, b))"
  unfolding unmount_def snd_os_interactable
  by (simp add: on_snd_def split: sum.splits prod.splits)

lemma snd_os_dirs:
  "os_create_dir_all (snd_os Os) p = on_snd (os_create_dir_all Os p)"
  "os_remove_dir (snd_os Os) p = on_snd (os_remove_dir Os p)"
  by (simp_all add: snd_os_def)

lemma ex_pair_publish: "ex_pair_run node_publish_volume ex_publish (ex_formatted, ex_staged) = (Reply (), ex_formatted, ex_published)"
proof -
  let ?srv = "mountd_server ex_lost ex_pair_lvm ex_pair_os ex_mcfg"
  have "ms_mount ?srv (ex_mount ''/stage'' ''/pod'' [2]) (ex_formatted, ex_pod_made) =
      (Inr (), ex_formatted, ex_published)"
    using ex_mount_pod [of None]
    by (simp add: mountd_server_def client_result_def snd_os_mount access_flags_def wants_readonly_def)
  then show ?thesis
    by (simp add: node_rpc_eq node_publish_volume_def ex_publish_def ex_vcap_def wants_readonly_def
        ex_pair_block_path os_host_def snd_os_dirs on_snd_def ex_dirs ex_mount_def)
qed

lemma ex_pair_unpublish:
  "ex_pair_run node_unpublish_volume ex_unpublish (ex_formatted, ex_published) = (Reply (), ex_formatted, ex_unpublished)"
proof -
  let ?srv = "mountd_server ex_lost ex_pair_lvm ex_pair_os ex_mcfg"
  have "ms_unmount ?srv \<lparr>ur_path = ''/pod''\<rparr> (ex_formatted, ex_published) =
      (Inr (), ex_formatted, ex_published\<lparr>mos_table := mos_table ex_staged\<rparr>)"
    by (simp add: mountd_server_def client_result_def snd_os_unmount ex_unmount_pod)
  then show ?thesis
    by (simp add: node_rpc_eq node_unpublish_volume_def ex_unpublish_def
        ex_pair_block_path os_host_def snd_os_dirs on_snd_def ex_dirs)
qed

lemma ex_pair_unstage:
  "ex_pair_run node_unstage_volume ex_unstage (ex_formatted, ex_unpublished) =
    (Reply (), ex_formatted, ex_unpublished\<lparr>mos_table := []\<rparr>)"
proof -
  let ?srv = "mountd_server ex_lost ex_pair_lvm ex_pair_os ex_mcfg"
  have "ms_unmount ?srv \<lparr>ur_path = ''/stage''\<rparr> (ex_formatted, ex_unpublished) =
      (Inr (), ex_formatted, ex_unpublished\<lparr>mos_table := []\<rparr>)"
    by (simp add: mountd_server_def client_result_def snd_os_unmount ex_unmount_last)
  then show ?thesis
    by (simp add: node_rpc_eq node_unstage_volume_def ex_unstage_def ex_pair_block_path os_host_def ex_dirs)
qed

lemma ex_pair_delete:
  "sv_get ex_pair_server \<lparr>glr_identifier = Some (Uuid ''uuid-0'')\<rparr> (ex_formatted, b) =
     (Inr (lv_into ex_lv), ex_formatted, b)"
  "run_vol (controller_rpc (delete_volume ex_env) \<lparr>dvr_volume_id = ''uuid-0''\<rparr>) ex_pair_server (ex_formatted, b) =
     (Reply (), ex_formatted\<lparr>mem_lvs := []\<rparr>, b)"
proof -
  show get: "sv_get ex_pair_server \<lparr>glr_identifier = Some (Uuid ''uuid-0'')\<rparr> (ex_formatted, b) =
     (Inr (lv_into ex_lv), ex_formatted, b)"
    by (simp add: fst_lvm_def on_fst_def mem_eval ex_defs ex_made_def ex_formatted_def)
  have "sv_delete ex_pair_server \<lparr>dlr_name = ''3''\<rparr> (ex_formatted, b) =
      (Inr (), ex_formatted\<lparr>mem_lvs := []\<rparr>, b)"
    by (simp add: fst_lvm_def on_fst_def mem_eval ex_defs ex_made_def ex_formatted_def)
  with get show "run_vol (controller_rpc (delete_volume ex_env) \<lparr>dvr_volume_id = ''uuid-0''\<rparr>) ex_pair_server
      (ex_formatted, b) = (Reply (), ex_formatted\<lparr>mem_lvs := []\<rparr>, b)"
    by (subst run_delete_found [where lv = "lv_into ex_lv"]) (simp_all add: ex_lv_def)
qed

end
