(* ===== verification/Whole_System.thy ===== *)
theory Whole_System
  imports Volume_Data Node_System Paired_World
begin

text \<open>
  All four programs on one host: the controller plugin over volumed and the node plugin over
  mountd, interleaved at single commands of LVM and single calls of the operating system, with
  other programs beside them.  What each pair keeps for itself holds of the whole, and a mount
  of the managed group is traced back to the CreateVolume that made its volume; a volume in use
  stays in use until a request names it.
\<close>

section \<open>The system\<close>

text \<open>
  The two plugins have requests, tasks and orphans of their own; all programs act on one world.
\<close>

inductive whole_run ::
  "'w lvm_api \<Rightarrow> 'w os_api \<Rightarrow> volumed_config \<Rightarrow> string \<Rightarrow> ctl_env \<Rightarrow> controller \<Rightarrow> mountd_config \<Rightarrow>
     node_plugin \<Rightarrow> ('w \<Rightarrow> 'w \<Rightarrow> bool) \<Rightarrow> 'w \<Rightarrow>
     controller_call list \<Rightarrow> task list \<Rightarrow> orphan list \<Rightarrow>
     node_call list \<Rightarrow> node_task list \<Rightarrow> node_orphan list \<Rightarrow> 'w set \<Rightarrow> 'w \<Rightarrow> bool"
  for L :: "'w lvm_api" and Os :: "'w os_api" and cfg :: volumed_config and rn :: string
    and E :: ctl_env and self :: controller and mcfg :: mountd_config and node :: node_plugin
    and env :: "'w \<Rightarrow> 'w \<Rightarrow> bool" and w0 :: 'w where
  whole_start: "whole_run L Os cfg rn E self mcfg node env w0 [] [] [] [] [] [] {w0} w0"
| whole_controller: "whole_run L Os cfg rn E self mcfg node env w0 hs ts os nhs nts nos seen w \<Longrightarrow>
    stack_step L cfg rn E self hs ts os w hs' ts' os' w' \<Longrightarrow>
    whole_run L Os cfg rn E self mcfg node env w0 hs' ts' os' nhs nts nos (insert w' seen) w'"
| whole_node: "whole_run L Os cfg rn E self mcfg node env w0 hs ts os nhs nts nos seen w \<Longrightarrow>
    node_step L Os mcfg node nhs nts nos w nhs' nts' nos' w' \<Longrightarrow>
    whole_run L Os cfg rn E self mcfg node env w0 hs ts os nhs' nts' nos' (insert w' seen) w'"
| whole_other: "whole_run L Os cfg rn E self mcfg node env w0 hs ts os nhs nts nos seen w \<Longrightarrow> env w w' \<Longrightarrow>
    whole_run L Os cfg rn E self mcfg node env w0 hs ts os nhs nts nos (insert w' seen) w'"

section \<open>Each side is an environment of the other\<close>

lemma keeps_rules:
  assumes "os_keeps Os f"
  shows keeps_mount: "os_mount Os s d ty fl w = (r, w') \<Longrightarrow> f w' = f w"
    and keeps_unmount: "os_unmount Os p w = (r, w') \<Longrightarrow> f w' = f w"
    and keeps_chown: "os_chown Os p u g w = (r, w') \<Longrightarrow> f w' = f w"
    and keeps_create: "os_create_dir_all Os p w = (r, w') \<Longrightarrow> f w' = f w"
    and keeps_remove: "os_remove_dir Os p w = (r, w') \<Longrightarrow> f w' = f w"
  using assms unfolding os_keeps_def by - (elim conjE, metis)+

lemma lvm_step_keeps: "lvm_step L h w h' w' \<Longrightarrow> lvm_keeps L f \<Longrightarrow> f w' = f w"
  by (induction rule: lvm_step.induct) (unfold lvm_keeps_def, blast+)

lemma os_step_keeps: "os_step Os h w h' w' \<Longrightarrow> os_keeps Os f \<Longrightarrow> f w' = f w"
  by (induction rule: os_step.induct) (auto dest: keeps_rules)

lemma host_step_keeps: "host_step Os h w h' w' \<Longrightarrow> os_keeps Os f \<Longrightarrow> f w' = f w"
  by (induction rule: host_step.induct) (auto dest: keeps_rules)

lemma stack_step_keeps:
  "stack_step L cfg rn E self hs ts os w hs' ts' os' w' \<Longrightarrow> lvm_keeps L f \<Longrightarrow> f w' = f w"
  by (induction rule: stack_step.induct) (auto dest: lvm_step_keeps)

lemma node_step_keeps:
  "node_step L Os mcfg node hs ts os w hs' ts' os' w' \<Longrightarrow> os_keeps Os f \<Longrightarrow> f w' = f w"
  by (induction rule: node_step.induct) (auto dest: os_step_keeps host_step_keeps)

text \<open>A relation between states that the node side and the other programs keep to.\<close>

lemma whole_stack_run:
  assumes "whole_run L Os cfg rn E self mcfg node env w0 hs ts os nhs nts nos seen w"
    and "\<And>nhs nts nos w nhs' nts' nos' w'.
      node_step L Os mcfg node nhs nts nos w nhs' nts' nos' w' \<Longrightarrow> rel w w'"
    and "\<And>w w'. env w w' \<Longrightarrow> rel w w'"
  shows "stack_run L cfg rn E rel self w0 hs ts os w"
  using assms(1)
  by (induction rule: whole_run.induct) (auto intro: stack_start stack_move stack_other assms(2,3))

lemma whole_controller_run:
  assumes "whole_run L Os cfg rn E self mcfg node env w0 hs ts os nhs nts nos seen w"
    and "os_keeps Os f" and "\<And>w w'. env w w' \<Longrightarrow> f w' = f w"
  shows "stack_run L cfg rn E (\<lambda>w w'. f w' = f w) self w0 hs ts os w"
  by (rule whole_stack_run [OF assms(1)]) (auto intro: node_step_keeps [OF _ assms(2)] assms(3))

lemma whole_node_run:
  assumes "whole_run L Os cfg rn E self mcfg node env w0 hs ts os nhs nts nos seen w"
    and "lvm_keeps L f" and "\<And>w w'. env w w' \<Longrightarrow> f w' = f w"
  shows "node_system L Os mcfg (\<lambda>w w'. f w' = f w) node w0 nhs nts nos seen w"
  using assms(1)
  by (induction rule: whole_run.induct)
    (auto intro: node_start node_move node_other assms(3) stack_step_keeps [OF _ assms(2)])

text \<open>The states a run has gone through were reached by runs that had received no more.\<close>

lemma whole_seen:
  assumes "whole_run L Os cfg rn E self mcfg node env w0 hs ts os nhs nts nos seen w" and "v \<in> seen"
  shows "\<exists>hs1 ts1 os1 nhs1 nts1 nos1 seen1. set hs1 \<subseteq> set hs \<and>
    whole_run L Os cfg rn E self mcfg node env w0 hs1 ts1 os1 nhs1 nts1 nos1 seen1 v"
  using assms
proof (induction rule: whole_run.induct)
  case whole_start
  then show ?case using whole_run.whole_start by fastforce
next
  case (whole_controller hs ts os nhs nts nos seen w hs' ts' os' w')
  show ?case
  proof (cases "v = w'")
    case True
    with whole_run.whole_controller [OF whole_controller(1,2)] show ?thesis by blast
  next
    case False
    with whole_controller stack_step_more [OF whole_controller(2)] show ?thesis by blast
  qed
next
  case (whole_node hs ts os nhs nts nos seen w nhs' nts' nos' w')
  with whole_run.whole_node [OF whole_node(1,2)] show ?case by blast
next
  case (whole_other hs ts os nhs nts nos seen w w')
  with whole_run.whole_other [OF whole_other(1,2)] show ?case by blast
qed

lemma accounted_more: "accounted E hs n lv \<Longrightarrow> set hs \<subseteq> set hs' \<Longrightarrow> accounted E hs' n lv"
  unfolding accounted_def by blast

section \<open>Where a mount comes from\<close>

text \<open>
  The logical volume \<open>l\<close> is one of another group, as at the start, or one of the managed group
  that was there at the start or that a received CreateVolume has asked for.
\<close>

definition known_volume ::
  "'w lvm_observers \<Rightarrow> string \<Rightarrow> ctl_env \<Rightarrow> 'w \<Rightarrow> controller_call list \<Rightarrow> logical_volume \<Rightarrow> bool" where
  "known_volume V rn E w0 hs l \<longleftrightarrow>
     (if lvl_volume_group_name l = rn
      then vol_view V rn w0 (lvl_name l) = Some (lv_into l) \<or> accounted E hs (lvl_name l) (lv_into l)
      else obs_lv V w0 (lvl_volume_group_name l) (lvl_name l) = Some l)"

lemma seen_volume_known:
  assumes laws: "lvm_laws L V" and keeps: "os_keeps Os (obs_lv V)"
    and env: "\<And>w w'. env w w' \<Longrightarrow> obs_lv V w' = obs_lv V w"
    and run: "whole_run L Os cfg rn E self mcfg node env w0 hs ts os nhs nts nos seen w" and "v \<in> seen"
    and l: "obs_lv V v (lvl_volume_group_name l) (lvl_name l) = Some l"
  shows "known_volume V rn E w0 hs l"
proof -
  obtain hs1 ts1 os1 nhs1 nts1 nos1 seen1 where hs1: "set hs1 \<subseteq> set hs"
    and "whole_run L Os cfg rn E self mcfg node env w0 hs1 ts1 os1 nhs1 nts1 nos1 seen1 v"
    using whole_seen [OF run \<open>v \<in> seen\<close>] by blast
  from whole_controller_run [OF this(2) keeps env]
  have "stack_run L cfg rn E (\<lambda>w w'. obs_lv V w' = obs_lv V w) self w0 hs1 ts1 os1 v" .
  from stack_accounts [OF laws this] have acc: "volumes_accounted V rn E w0 hs1 v" by simp
  show ?thesis
  proof (cases "lvl_volume_group_name l = rn")
    case True
    with l have "vol_view V rn v (lvl_name l) = Some (lv_into l)" by (simp add: vol_view_def)
    with acc have "vol_view V rn w0 (lvl_name l) = Some (lv_into l) \<or> accounted E hs1 (lvl_name l) (lv_into l)"
      unfolding volumes_accounted_def by blast
    with True accounted_more [OF _ hs1] show ?thesis by (auto simp: known_volume_def)
  next
    case False
    with acc l show ?thesis by (simp add: volumes_accounted_def known_volume_def)
  qed
qed

text \<open>C4: in every reachable state of the four programs on one host, whatever RPCs arrive and
  however all handlers interleave, single LVM commands and system calls included: every mount
  that was not there at the start is the bind mount of a received publish, or, for a received
  stage, the device of a logical volume with the uuid it names that existed when it was looked
  up; that volume was there at the start, or it is in the managed group under the hashed name
  and with at least the size of a received CreateVolume.  No other volume is ever mounted.\<close>

theorem mounts_of_created_volumes:
  assumes laws: "lvm_laws L V" "os_laws Os U"
    and apart: "os_keeps Os (obs_lv V)" "lvm_keeps L (obs_table U)"
    and env: "\<And>w w'. env w w' \<Longrightarrow> obs_lv V w' = obs_lv V w" "\<And>w w'. env w w' \<Longrightarrow> obs_table U w' = obs_table U w"
    and run: "whole_run L Os cfg rn E self mcfg node env w0 hs ts os nhs nts nos seen w"
    and e: "e \<in> set (obs_table U w)" "e \<notin> set (obs_table U w0)"
  shows "(\<exists>q. PublishCall q \<in> set nhs \<and> published_by Os U mcfg seen q e) \<or>
    (\<exists>q l v. StageCall q \<in> set nhs \<and> staged_by L Os U mcfg seen q e \<and> me_src e = lvl_path l \<and>
       lvl_uuid l = nsr_volume_id q \<and> v \<in> seen \<and>
       obs_lv V v (lvl_volume_group_name l) (lvl_name l) = Some l \<and> known_volume V rn E w0 hs l)"
proof -
  have node: "node_system L Os mcfg (\<lambda>w w'. obs_table U w' = obs_table U w) node w0 nhs nts nos seen w"
    by (rule whole_node_run [OF run apart(2) env(2)])
  have "node_system_ok L Os U mcfg w0 nhs nts nos seen w"
    by (rule node_system_invariant [OF node laws(2)])
  with e have "node_mounted L Os U mcfg nhs seen e"
    by (auto simp: node_system_ok_def table_accounted_def)
  from node_mounted_by [OF this] show ?thesis
  proof (elim disjE exE conjE)
    fix q
    assume q: "StageCall q \<in> set nhs" and staged: "staged_by L Os U mcfg seen q e"
    then obtain v where v: "v \<in> seen" "get_lvm_block_path L \<lparr>bpr_uuid = nsr_volume_id q\<rparr> v = (Reply (me_src e), v)"
      by (auto simp: staged_by_def block_path_seen_def)
    then obtain u l where u: "resource_uuid L (nsr_volume_id q) = Inr u" "lv_from_uuid L u v = Inr l"
      "me_src e = lvl_path l" by (auto simp: get_lvm_block_path_def rust_simps of_result_Reply)
    have "lvl_uuid l = nsr_volume_id q" and l: "obs_lv V v (lvl_volume_group_name l) (lvl_name l) = Some l"
      using lvm_uuid [OF laws(1) u(1)] lvm_by_uuid [OF laws(1) u(2)] by simp_all
    moreover have "known_volume V rn E w0 hs l"
      by (rule seen_volume_known [OF laws(1) apart(1) env(1) run v(1) l])
    ultimately show ?thesis using q staged u(3) v(1) by blast
  qed blast
qed

section \<open>A volume in use\<close>

text \<open>C3: a volume of the managed group that holds data and is mounted at the start stays as it is
  in every reachable state of the four programs on one host, whatever RPCs arrive and however
  single LVM commands, system calls and other programs interleave, lost and given up calls
  included: the volume is there, other programs' data on it (any property \<open>R\<close> they keep) is
  kept, and the mount is in the table, unless a request names it: a CreateVolume whose name has
  the volume's name as its hash, a DeleteVolume of the uuid of a volume of this name, of
  whichever group, or an unstage or unpublish of a path that has denoted the mount point.\<close>

theorem volume_in_use_kept:
  assumes laws: "lvm_laws L V" "lvm_devices L V rn dev" "os_laws Os U" and fit: "devices_fit V rn dev w0"
    and apart: "os_keeps Os (obs_lv V)" "lvm_keeps L (obs_table U)"
      "os_keeps Os (\<lambda>w. R (obs_files V w (dev n)))"
    and env: "\<And>w w'. env w w' \<Longrightarrow> obs_lv V w' = obs_lv V w"
      "\<And>w w'. env w w' \<Longrightarrow> obs_table U w' = obs_table U w"
      "\<And>w w'. env w w' \<Longrightarrow> R (obs_files V w (dev n)) \<Longrightarrow> R (obs_files V w' (dev n))"
    and run: "whole_run L Os cfg rn E self mcfg node env w0 hs ts os nhs nts nos seen w"
    and present: "vol_view V rn w0 n = Some lv" and data: "R (vol_files V rn w0 n)"
    and mounted: "e \<in> set (obs_table U w0)"
    and create: "\<And>q. CreateVolumeCall q \<in> set hs \<Longrightarrow> hash_resource E (cvr_name q) \<noteq> n"
    and delete: "\<And>q g l. DeleteVolumeCall q \<in> set hs \<Longrightarrow> obs_lv V w0 g n = Some l \<Longrightarrow>
      lvl_uuid l \<noteq> dvr_volume_id q"
    and unmount: "\<And>c p v. c \<in> set nhs \<Longrightarrow> unmount_path c = Some p \<Longrightarrow> v \<in> seen \<Longrightarrow>
      obs_resolve U v p \<noteq> me_dst e"
  shows "vol_view V rn w n = Some lv \<and> R (vol_files V rn w n) \<and> e \<in> set (obs_table U w)"
proof -
  let ?rel = "\<lambda>w w'. obs_lv V w' = obs_lv V w \<and> (R (obs_files V w (dev n)) \<longrightarrow> R (obs_files V w' (dev n)))"
  have run': "stack_run L cfg rn E ?rel self w0 hs ts os w"
    by (rule whole_stack_run [OF run])
      (auto simp: env(1) dest: node_step_keeps [OF _ apart(1)] node_step_keeps [OF _ apart(3)] env(3))
  from volume_data_kept [where R = R and n = n, OF laws(1,2) fit _ _ run' present data] create delete
  have "vol_view V rn w n = Some lv \<and> R (vol_files V rn w n)"
    by (auto simp: spares_def deletes_no_def)
  moreover have "e \<in> set (obs_table U w)"
    using node_system_invariant [OF whole_node_run [OF run apart(2) env(2)] laws(3)] mounted unmount
    unfolding node_system_ok_def table_accounted_def node_unmounted_def by metis
  ultimately show ?thesis by simp
qed

section \<open>A run from a create to a mount\<close>

lemma controller_side:
  assumes "stack_run L cfg rn E env self w0 hs ts os w"
  shows "\<exists>seen. whole_run L Os cfg rn E self mcfg node env w0 hs ts os [] [] [] seen w"
  using assms by (induction rule: stack_run.induct) (blast intro: whole_run.intros)+

lemma node_side:
  assumes "node_system L Os mcfg env node w1 nhs nts nos seen' w"
    and "whole_run L Os cfg rn E self mcfg node env w0 hs ts os [] [] [] seen w1"
  shows "\<exists>seen''. whole_run L Os cfg rn E self mcfg node env w0 hs ts os nhs nts nos seen'' w"
  using assms by (induction rule: node_system.induct) (blast intro: whole_run.intros)+

text \<open>A single RPC of the controller, served to its end.\<close>

lemma controller_alone:
  assumes "run_vol (controller_serve E self c) (volumed_server lost L cfg rn) w0 = (x, w)"
  shows "\<exists>seen. whole_run L Os cfg rn E self mcfg node env w0 [c] [(c, VRet x, None)] [] [] [] [] seen w"
proof -
  have "stack_run L cfg rn E env self w0 [c] ([] @ (c, controller_serve E self c, None) # []) [] w0"
    using run_arrives [OF stack_start, where c = c] by simp
  from stack_alone [OF assms this] controller_side show ?thesis by fastforce
qed

abbreviation ex_node :: node_plugin where
  "ex_node \<equiv> \<lparr>nod_node_id = ''node-1''\<rparr>"

lemma ex_whole_run:
  "\<exists>seen. whole_run ex_pair_lvm ex_pair_os ex_cfg ''vg0'' ex_env ex_ctl ex_mcfg ex_node (=) (ex_empty, ex_host)
     [ex_request] [(ex_request, VRet (Reply ex_response), None)] []
     [StageCall ex_stage] [(StageCall ex_stage, NRet (Reply (NodeEmptyReply ())), None)] [] seen
     (ex_formatted, ex_staged)"
proof -
  have "run_vol (controller_serve ex_env ex_ctl ex_request) ex_pair_server (ex_empty, ex_host) =
      (Reply ex_response, ex_formatted, ex_host)"
    by (simp add: run_map_vol_prog ex_pair_create)
  from controller_alone [OF this, where env = "(=)"]
  obtain seen where ctl: "whole_run ex_pair_lvm ex_pair_os ex_cfg ''vg0'' ex_env ex_ctl ex_mcfg ex_node (=)
      (ex_empty, ex_host) [ex_request] [(ex_request, VRet (Reply ex_response), None)] [] [] [] [] seen
      (ex_formatted, ex_host)" ..
  have run: "run_node (node_serve ex_node (StageCall ex_stage)) (mountd_server ex_lost ex_pair_lvm ex_pair_os ex_mcfg)
      (os_host ex_pair_os) (ex_formatted, ex_host) = (Reply (NodeEmptyReply ()), ex_formatted, ex_staged)"
    using ex_pair_stage by (simp add: run_map_node_prog)
  have "node_system ex_pair_lvm ex_pair_os ex_mcfg (=) ex_node (ex_formatted, ex_host) [StageCall ex_stage]
      ([] @ (StageCall ex_stage, node_serve ex_node (StageCall ex_stage), None) # []) []
      {(ex_formatted, ex_host)} (ex_formatted, ex_host)"
    using node_moves(1) [OF node_start, where c = "StageCall ex_stage"] by simp
  from node_alone [OF run this] obtain seen' where "node_system ex_pair_lvm ex_pair_os ex_mcfg (=) ex_node
      (ex_formatted, ex_host) [StageCall ex_stage]
      [(StageCall ex_stage, NRet (Reply (NodeEmptyReply ())), None)] [] seen' (ex_formatted, ex_staged)"
    by (auto simp only: append_Nil)
  from node_side [OF this ctl] show ?thesis .
qed

theorem mounts_of_created_volumes_witness:
  "\<exists>l. lvl_path l = ''/dev/vg0/3'' \<and> lvl_uuid l = ''uuid-0'' \<and>
     known_volume (fst_lvm_obs mem_obs) ''vg0'' ex_env (ex_empty, ex_host) [ex_request] l"
proof -
  let ?V = "fst_lvm_obs mem_obs :: (mem \<times> mos) lvm_observers"
  let ?U = "snd_os_obs mos_obs :: (mem \<times> mos) os_observers"
  let ?e = "\<lparr>me_src = ''/dev/vg0/3'', me_dst = ''/stage'', me_fstype = ''xfs'', me_flags = {NODEV, NOSUID}\<rparr>"
  obtain seen where run: "whole_run ex_pair_lvm ex_pair_os ex_cfg ''vg0'' ex_env ex_ctl ex_mcfg ex_node (=)
     (ex_empty, ex_host) [ex_request] [(ex_request, VRet (Reply ex_response), None)] []
     [StageCall ex_stage] [(StageCall ex_stage, NRet (Reply (NodeEmptyReply ())), None)] [] seen
     (ex_formatted, ex_staged)" using ex_whole_run ..
  have env: "\<And>w w'. w = w' \<Longrightarrow> obs_lv ?V w' = obs_lv ?V w" "\<And>w w'. w = w' \<Longrightarrow> obs_table ?U w' = obs_table ?U w"
    by simp_all
  have "?e \<in> set (obs_table ?U (ex_formatted, ex_staged))" "?e \<notin> set (obs_table ?U (ex_empty, ex_host))"
    by (simp_all add: snd_os_obs_def ex_staged_def ex_host_def)
  from mounts_of_created_volumes [OF ex_pair_laws ex_pair_keeps env run this]
  show ?thesis by (auto simp: ex_stage_def)
qed

text \<open>A host on which the data of another volume is in use when a volume is created.\<close>

definition ex_in_use :: mos where
  "ex_in_use = ex_host\<lparr>mos_table := [\<lparr>me_src = ''/dev/vg0/f'', me_dst = ''/data'', me_fstype = ''xfs'',
     me_flags = {NODEV, NOSUID}\<rparr>]\<rparr>"

lemma ex_pair_stored:
  "sv_get_free_bytes ex_pair_server (ex_stored, b) = (Inr 10737418240, ex_stored, b)"
  "sv_get ex_pair_server \<lparr>glr_identifier = Some (Name ''3'')\<rparr> (ex_stored, b) =
     (Inl (Status NotFound ''no such volume''), ex_stored, b)"
  "sv_create ex_pair_server \<lparr>clr_name = ''3'', clr_capacity = 536870912, clr_tags = tags\<rparr> (ex_stored, b) =
     (Inr (lv_into ex_again), (ex_group [ex_extra, ex_again])\<lparr>mem_files := [(''/dev/vg0/f'', [''data''])]\<rparr>, b)"
  "sv_format ex_pair_server \<lparr>flr_name = ''3''\<rparr>
     ((ex_group [ex_extra, ex_again])\<lparr>mem_files := [(''/dev/vg0/f'', [''data''])]\<rparr>, b) = (Inr (), ex_beside, b)"
  by (simp_all add: fst_lvm_def on_fst_def ex_group_eval Let_def show_radix_1 ex_stored_def ex_beside_def)

lemma ex_pair_stored_create:
  "run_vol (controller_rpc (create_volume ex_env ex_ctl) (ex_create 536870912)) ex_pair_server (ex_stored, b) =
    (Reply \<lparr>cvs_volume = Some (process_volume ex_ctl (lv_into ex_again))\<rparr>, ex_beside, b)"
  by (simp add: controller_rpc_eq create_volume_def admit_capacity_def provision_volume_def
      find_or_create_def v_then_v_result Let_def ex_requested [simplified] ex_pair_stored
      MIN_VOLUME_SIZE_BYTES_def)

text \<open>The new volume is created, and an unstage of its staging path arrives.\<close>

theorem volume_in_use_kept_witness:
  "vol_view (fst_lvm_obs mem_obs) ''vg0'' (ex_beside, ex_in_use) ''f'' = Some (lv_into ex_extra) \<and>
   vol_files (fst_lvm_obs mem_obs) ''vg0'' (ex_beside, ex_in_use) ''f'' = [''data''] \<and>
   vol_view (fst_lvm_obs mem_obs) ''vg0'' (ex_beside, ex_in_use) ''3'' = Some (lv_into ex_again)"
proof -
  let ?V = "fst_lvm_obs mem_obs :: (mem \<times> mos) lvm_observers"
  let ?U = "snd_os_obs mos_obs :: (mem \<times> mos) os_observers"
  let ?e = "\<lparr>me_src = ''/dev/vg0/f'', me_dst = ''/data'', me_fstype = ''xfs'', me_flags = {NODEV, NOSUID}\<rparr>"
  let ?q = "UnstageCall \<lparr>nur_volume_id = ''uuid-1'', nur_staging_target_path = ''/stage''\<rparr>"
  let ?start = "(ex_stored, ex_in_use)"
  have "run_vol (controller_serve ex_env ex_ctl ex_request) ex_pair_server ?start =
      (Reply (CreateVolumeReply \<lparr>cvs_volume = Some (process_volume ex_ctl (lv_into ex_again))\<rparr>), ex_beside, ex_in_use)"
    by (simp add: run_map_vol_prog ex_pair_stored_create)
  from controller_alone [OF this, where env = "(=)" and Os = ex_pair_os and mcfg = ex_mcfg and node = ex_node]
  obtain ts seen where "whole_run ex_pair_lvm ex_pair_os ex_cfg ''vg0'' ex_env ex_ctl ex_mcfg ex_node (=)
      ?start [ex_request] ts [] [] [] [] seen (ex_beside, ex_in_use)" by blast
  from whole_node [OF this node_arrive [where c = ?q]] obtain nts seen' where run: "whole_run ex_pair_lvm ex_pair_os
      ex_cfg ''vg0'' ex_env ex_ctl ex_mcfg ex_node (=) ?start [ex_request] ts [] [?q] nts [] seen'
      (ex_beside, ex_in_use)" by fastforce
  have devices: "lvm_devices ex_pair_lvm ?V ''vg0'' ex_device"
    using ex_devices by (auto simp: lvm_devices_def fst_lvm_def fst_lvm_obs_def)
  have view: "vol_view ?V ''vg0'' (w, b) = ex_view w" and files: "vol_files ?V ''vg0'' (w, b) = vol_files mem_obs ''vg0'' w"
    for w b by (simp_all add: vol_view_def vol_files_def fst_lvm_obs_def fun_eq_iff split: option.split)
  have fit: "devices_fit ?V ''vg0'' ex_device ?start"
    using ex_stored_facts(1) by (simp add: devices_fit_def fst_lvm_obs_def)
  have keeps: "os_keeps ex_pair_os (\<lambda>w. obs_files ?V w (ex_device ''f'') = [''data''])"
    by (auto simp: os_keeps_def snd_os_def fst_lvm_obs_def)
  have mounted: "?e \<in> set (obs_table ?U ?start)" by (simp add: snd_os_obs_def ex_in_use_def)
  have stored: "vol_view ?V ''vg0'' ?start ''f'' = Some (lv_into ex_extra)"
    "vol_files ?V ''vg0'' ?start ''f'' = [''data'']"
    using ex_stored_facts(2,3) by (simp_all only: view files)
  have "vol_view ?V ''vg0'' (ex_beside, ex_in_use) ''f'' = Some (lv_into ex_extra) \<and>
      vol_files ?V ''vg0'' (ex_beside, ex_in_use) ''f'' = [''data''] \<and> ?e \<in> set (obs_table ?U (ex_beside, ex_in_use))"
    by (rule volume_in_use_kept [where R = "\<lambda>fs. fs = [''data'']", OF ex_pair_laws(1) devices ex_pair_laws(2)
          fit ex_pair_keeps keeps _ _ _ run stored mounted]) (auto simp: snd_os_obs_def)
  then show ?thesis using ex_stored_facts(4) by (simp add: view)
qed

end
