(* ===== verification/Serving.thy ===== *)
theory Serving
  imports Example_Inputs
begin

text \<open>
  volumed as served: no handler panics behind the interceptor, the space it reports is the
  size of the group less the spare bytes of the configuration whatever has been allocated,
  and the start-up checks make that space positive.
\<close>

section \<open>Panics\<close>

text \<open>Behind the interceptor of volumed no handler panics: every request of every RPC is
  answered by a response or a status, also when the volume group is gone.\<close>

lemma served_without_panic:
  "fst (serve_with L cfg rn (get_lv_list L) () w) \<noteq> Panic \<and>
   fst (serve_with L cfg rn (get_free_bytes cfg) () w) \<noteq> Panic \<and>
   fst (serve_with L cfg rn (create_logical_volume L) cq w) \<noteq> Panic \<and>
   fst (serve_with L cfg rn (delete_logical_volume L) dq w) \<noteq> Panic \<and>
   fst (serve_with L cfg rn (format_logical_volume L) fq w) \<noteq> Panic \<and>
   fst (serve_with L cfg rn (get_logical_volume L) gq w) \<noteq> Panic"
proof (intro conjI)
  show "fst (serve_with L cfg rn (get_lv_list L) () w) \<noteq> Panic"
    by (simp add: serve_with_def vg_injector_def get_lv_list_def split: sum.splits)
  show "fst (serve_with L cfg rn (get_free_bytes cfg) () w) \<noteq> Panic"
    by (simp add: serve_with_def vg_injector_def get_free_bytes_def Let_def split: sum.splits)
  show "fst (serve_with L cfg rn (create_logical_volume L) cq w) \<noteq> Panic"
    by (simp add: serve_with_def vg_injector_def create_logical_volume_def split: sum.splits prod.splits)
  show "fst (serve_with L cfg rn (delete_logical_volume L) dq w) \<noteq> Panic"
    by (simp add: serve_with_def vg_injector_def delete_logical_volume_def split: sum.splits prod.splits)
  show "fst (serve_with L cfg rn (format_logical_volume L) fq w) \<noteq> Panic"
    by (simp add: serve_with_def vg_injector_def format_logical_volume_def split: sum.splits prod.splits)
  show "fst (serve_with L cfg rn (get_logical_volume L) gq w) \<noteq> Panic"
    by (simp add: serve_with_def vg_injector_def get_logical_volume_def split: sum.splits)
qed

section \<open>Free space\<close>

lemma vol_bytes_free_nat:
  "unat (vol_bytes_free V cfg rn w) =
     unat (unwrap_or (obs_vg V w rn) 0) - unat (unwrap_or (cfg_spare_bytes cfg) 0)"
  by (simp add: vol_bytes_free_def unat_unwrap_checked_sub)

text \<open>The free bytes volumed reports are the whole size of the group less the spare bytes
  (zero where these are more), and stay that number whatever volumes clients create, delete
  or format: allocated space is never subtracted.\<close>

lemma free_bytes_constant:
  assumes ready: "vol_ready L V rn w" and size: "obs_vg V w rn = Some gsize"
    and reach: "vol_reach (volumed_server lost L cfg rn) ps w ps' w'"
  shows "\<exists>b. sv_get_free_bytes (volumed_server lost L cfg rn) w' = (Inr b, w') \<and>
    unat b = unat gsize - unat (unwrap_or (cfg_spare_bytes cfg) 0)"
proof -
  have "sv_get_free_bytes (volumed_server lost L cfg rn) w' = (Inr (vol_bytes_free V cfg rn w'), w')"
    by (rule volumed_reliable.free_bytes [OF volumed_reliable.reach_invar [OF reach ready]])
  moreover have "vol_bytes_free V cfg rn w' = vol_bytes_free V cfg rn w"
    by (rule volumed_reliable.reach_bytes_free [OF reach ready])
  ultimately show ?thesis using vol_bytes_free_nat [of V cfg rn w] size by simp
qed

lemma free_bytes_constant_witness:
  "\<exists>b. sv_get_free_bytes ex_server ex_made = (Inr b, ex_made) \<and>
     unat b = unat (10737418240 :: usize) - unat (0 :: usize)"
proof -
  let ?p = "VCreateLogicalVolume \<lparr>clr_name = ''3'', clr_capacity = 536870912, clr_tags = []\<rparr> (\<lambda>_. VRet ())"
  have "vol_sched ex_server [0] [?p] ex_empty = ([VRet ()], ex_made)"
    by (simp add: ex_sv_create)
  from free_bytes_constant [OF ex_ready(1) _ vol_sched_reach [OF this], of 10737418240]
  show ?thesis by (simp add: ex_empty_def ex_cfg_def)
qed

text \<open>A volumed that has passed its start-up checks reports, as long as the group is as it
  was, a positive number of free bytes when spare bytes are configured, namely the size of
  the group less the spare bytes.\<close>

lemma setup_leaves_space:
  assumes started: "volumed_setup L path opened parse w = Inr (cfg, rn)"
    and spare: "cfg_spare_bytes cfg = Some spare"
  shows "\<exists>vg b. vg_from_id L rn w = Inr vg \<and>
    sv_get_free_bytes (volumed_server lost L cfg rn) w = (Inr b, w) \<and>
    0 < unat b \<and> unat b + unat spare = unat (vg_capacity_bytes vg)"
proof -
  from started obtain vg where vg: "vg_from_id L rn w = Inr vg"
    and "\<not> vg_capacity_bytes vg \<le> spare"
    using spare by (auto simp: volumed_setup_def rust_simps split: option.splits if_splits)
  then have less: "unat spare < unat (vg_capacity_bytes vg)"
    by (simp add: not_le word_less_nat_alt)
  let ?b = "unwrap_or (checked_sub (vg_capacity_bytes vg) spare) 0"
  have "sv_get_free_bytes (volumed_server lost L cfg rn) w = (Inr ?b, w)"
    using vg spare by (simp add: serve_free_bytes)
  moreover have "unat ?b = unat (vg_capacity_bytes vg) - unat spare"
    by (rule unat_unwrap_checked_sub)
  ultimately show ?thesis using vg less by auto
qed

lemma setup_leaves_space_witness:
  "\<exists>vg b. vg_from_id mem_lvm ''vg0'' ex_empty = Inr vg \<and>
    sv_get_free_bytes (volumed_server ex_lost mem_lvm (ex_cfg\<lparr>cfg_spare_bytes := Some 1024\<rparr>) ''vg0'')
      ex_empty = (Inr b, ex_empty) \<and>
    0 < unat b \<and> unat b + unat (1024 :: usize) = unat (vg_capacity_bytes vg)"
proof (rule setup_leaves_space)
  show "volumed_setup mem_lvm ''/etc/volumed/volumed.yaml'' (Inr ()) (\<lambda>_. Inr (ex_cfg\<lparr>cfg_spare_bytes := Some 1024\<rparr>))
      ex_empty = Inr (ex_cfg\<lparr>cfg_spare_bytes := Some 1024\<rparr>, ''vg0'')"
    by (simp add: volumed_setup_def ex_defs mem_lvm_def)
qed simp

end
