(* ===== verification/Startup.thy ===== *)
theory Startup
  imports Programs Whole_System Serving
begin

text \<open>
  From the command line of volumed to what it serves: the group and the space a started
  volumed answers for, in every state the system then reaches.
\<close>

lemma volumed_setup_Inr:
  assumes "volumed_setup L path opened parse w = Inr (cfg, rn)"
  shows "\<exists>f vg. opened = Inr f \<and> parse f = Inr cfg \<and> resource_name L (cfg_volume_group cfg) = Inr rn \<and>
    vg_from_id L rn w = Inr vg \<and>
    (case cfg_spare_bytes cfg of None \<Rightarrow> True | Some spare \<Rightarrow> spare < vg_capacity_bytes vg)"
  using assms by (auto simp: volumed_setup_def rust_simps not_le split: option.splits if_splits)

lemma result_ok_Some: "result_ok r = Some x \<longleftrightarrow> r = Inr x"
  by (cases r) simp_all

lemma lvm_laws_keep_vg:
  assumes "lvm_laws L V"
  shows "lvm_keeps L (obs_vg V)"
  unfolding lvm_keeps_def
  by (intro conjI allI impI)
    (erule lvm_add_vg [OF assms] lvm_remove_vg [OF assms] lvm_mkfs [OF assms, THEN conjunct2])+

lemma stack_run_keeps:
  assumes "stack_run L cfg rn E env self w0 hs ts os w" and "lvm_keeps L f"
    and "\<And>w w'. env w w' \<Longrightarrow> f w' = f w"
  shows "f w = f w0"
  using assms(1) by (induction rule: stack_run.induct) (auto dest: stack_step_keeps [OF _ assms(2)] assms(3))

text \<open>C32: a volumed that has passed its start-up checks serves the group its configuration file
  names; in every state the controller plugin and volumed then reach, whatever has been
  allocated, the group is there and the free bytes volumed reports are its whole size less the
  configured spare bytes, a positive number when spare bytes are configured.\<close>

theorem started_volumed_serves_group:
  assumes laws: "lvm_laws L V" "lvm_reliable L V"
    and start: "volumed_program D L open_file parse given w0 = (Some (service, rn), ended)"
    and env: "\<And>w w'. env w w' \<Longrightarrow> obs_vg V w' = obs_vg V w"
    and run: "stack_run L (vls_config service) rn E env self w0 hs ts os w"
  shows "\<exists>f size b. open_file (cli_config (volumed_cli given)) = Inr f \<and> parse f = Inr (vls_config service) \<and>
    rn = cfg_volume_group (vls_config service) \<and> obs_vg V w rn = Some size \<and>
    sv_get_free_bytes (volumed_server lost L (vls_config service) rn) w = (Inr b, w) \<and>
    unat b = unat size - unat (unwrap_or (cfg_spare_bytes (vls_config service)) 0) \<and>
    (cfg_spare_bytes (vls_config service) \<noteq> None \<longrightarrow> 0 < unat b)"
proof -
  let ?cfg = "vls_config service"
  have "volumed_setup L (cli_config (volumed_cli given)) (open_file (cli_config (volumed_cli given))) parse w0 =
      Inr (?cfg, rn)"
    using start by (auto simp: volumed_program_def volumed_new_def Let_def result_ok_Some)
  from volumed_setup_Inr [OF this] obtain f vg where f: "open_file (cli_config (volumed_cli given)) = Inr f"
    "parse f = Inr ?cfg" and rn: "resource_name L (cfg_volume_group ?cfg) = Inr rn"
    and vg: "vg_from_id L rn w0 = Inr vg"
    and spare: "case cfg_spare_bytes ?cfg of None \<Rightarrow> True | Some spare \<Rightarrow> spare < vg_capacity_bytes vg"
    by blast
  have "obs_vg V w = obs_vg V w0"
    by (rule stack_run_keeps [OF run lvm_laws_keep_vg [OF laws(1)] env])
  with lvm_vg [OF laws(1) vg] have size: "obs_vg V w rn = Some (vg_capacity_bytes vg)" by simp
  with laws have ready: "vol_ready L V rn w" by (simp add: vol_ready_def)
  have "unat (vol_bytes_free V ?cfg rn w) = unat (vg_capacity_bytes vg) - unat (unwrap_or (cfg_spare_bytes ?cfg) 0)"
    by (simp add: vol_bytes_free_nat size)
  moreover from this spare have "cfg_spare_bytes ?cfg \<noteq> None \<longrightarrow> 0 < unat (vol_bytes_free V ?cfg rn w)"
    by (auto simp: word_less_nat_alt)
  ultimately show ?thesis
    using f lvm_name [OF laws(1) rn] size volumed_reliable.free_bytes [OF ready, of lost ?cfg] by blast
qed

theorem started_volumed_serves_group_witness:
  "\<exists>b. sv_get_free_bytes (volumed_server ex_lost mem_lvm (ex_cfg\<lparr>cfg_spare_bytes := Some 1024\<rparr>) ''vg0'') ex_empty =
     (Inr b, ex_empty) \<and> unat b = unat (10737418240 :: usize) - unat (1024 :: usize)"
proof -
  let ?cfg = "ex_cfg\<lparr>cfg_spare_bytes := Some 1024\<rparr>"
  let ?D = "\<lparr>dm_bind = (\<lambda>p w. (Inr (), w)), dm_set_handler = Inr (), dm_connect = (\<lambda>p w. Inr ()),
    dm_serve = (\<lambda>w. (Inr (), w)), dm_remove_file = (\<lambda>p w. (Inr (), w))\<rparr> :: mem daemon_api"
  let ?args = "\<lparr>given_config = None, given_socket = None\<rparr>"
  have passes: "volumed_setup mem_lvm p (Inr ()) (\<lambda>_. Inr ?cfg) ex_empty = Inr (?cfg, ''vg0'')" for p
    by (simp add: volumed_setup_def ex_defs mem_lvm_def)
  obtain ended where start: "volumed_program ?D mem_lvm (\<lambda>_. Inr ()) (\<lambda>_. Inr ?cfg) ?args ex_empty =
      (Some (volumed_new ?cfg, ''vg0''), ended)"
    by (simp add: volumed_program_def Let_def passes)
  have "stack_run mem_lvm (vls_config (volumed_new ?cfg)) ''vg0'' ex_env (=) ex_ctl ex_empty [] [] [] ex_empty"
    by (rule stack_start)
  moreover have "\<And>w w'. w = w' \<Longrightarrow> obs_vg mem_obs w' = obs_vg mem_obs w" by simp
  ultimately show ?thesis
    using started_volumed_serves_group [OF mem_laws mem_reliable start, where env = "(=)" and lost = ex_lost]
    by (fastforce simp: mem_obs_def ex_empty_def volumed_new_def)
qed

end
