(* ===== verification/Volumed_Store.thy ===== *)
theory Volumed_Store
  imports Volumed_Steps Example_Inputs
begin

text \<open>
  volumed as an atomic store of named volumes: its handlers interleave command by command, for
  any calls of any clients, and still every call takes effect on the managed group at once, at
  one of its own commands, and answers accordingly.
\<close>

section \<open>The store\<close>

type_synonym store = "string \<rightharpoonup> LV"

text \<open>
  What a call answers, and does to the volumes while it is answered.  Volumes are added under a
  free name, with at least the size asked for, or removed, and never changed; an error changes
  nothing; a lookup answers the volume of the name, and says that there is none only if so.
\<close>

fun store_answers :: "vol_call \<Rightarrow> volumed_reply outcome \<Rightarrow> store \<Rightarrow> store \<Rightarrow> bool" where
  "store_answers (AskCreate q) (Reply (LvReply lv)) m m' =
     (m (clr_name q) = None \<and> lv_name lv = clr_name q \<and> clr_capacity q \<le> lv_capacity_bytes lv \<and>
      m' = m(clr_name q \<mapsto> lv))"
| "store_answers (AskDelete q) (Reply (DoneReply u)) m m' = (m' = m(dlr_name q := None))"
| "store_answers (AskFormat q) (Reply (DoneReply u)) m m' = (m' = m)"
| "store_answers (AskLv q) (Reply (LvReply lv)) m m' =
     (m' = m \<and> (case glr_identifier q of
        None \<Rightarrow> False
      | Some (Name n) \<Rightarrow> m n = Some lv
      | Some (Uuid u) \<Rightarrow> lv_uuid lv = u))"
| "store_answers (AskLv q) (Fail st) m m' =
     (m' = m \<and> (\<forall>n. glr_identifier q = Some (Name n) \<longrightarrow> st_code st = NotFound \<longrightarrow> m n = None))"
| "store_answers AskLvList (Reply (LvListReply lvs)) m m' = (m' = m)"
| "store_answers AskFreeBytes (Reply (FreeBytesReply n)) m m' = (m' = m)"
| "store_answers v (Fail st) m m' = (m' = m)"
| "store_answers v out m m' = False"

text \<open>
  A history: a call arrives, or the handler of the \<open>i\<close>-th call runs a command.  The store takes part
  in a history by doing nothing at a command, or by answering the call the command belongs to,
  once.
\<close>

datatype serving = Arrive vol_call | Command nat

inductive store_run ::
  "store \<Rightarrow> serving list \<Rightarrow> (vol_call \<times> volumed_reply outcome option) list \<Rightarrow> store \<Rightarrow> bool"
  for m0 :: store where
  store_start: "store_run m0 [] [] m0"
| store_arrive: "store_run m0 tr cs m \<Longrightarrow> store_run m0 (tr @ [Arrive v]) (cs @ [(v, None)]) m"
| store_idle: "store_run m0 tr cs m \<Longrightarrow> i < length cs \<Longrightarrow> cs ! i = (v, None) \<Longrightarrow>
    store_run m0 (tr @ [Command i]) cs m"
| store_answer: "store_run m0 tr cs m \<Longrightarrow> i < length cs \<Longrightarrow> cs ! i = (v, None) \<Longrightarrow>
    store_answers v out m m' \<Longrightarrow> store_run m0 (tr @ [Command i]) (cs[i := (v, Some out)]) m'"

section \<open>volumed\<close>

inductive serve_run ::
  "'w lvm_api \<Rightarrow> volumed_config \<Rightarrow> string \<Rightarrow> 'w \<Rightarrow> serving list \<Rightarrow> volumed_reply outcome lvm_prog list \<Rightarrow>
     'w \<Rightarrow> bool"
  for L :: "'w lvm_api" and cfg :: volumed_config and rn :: string and w0 :: 'w where
  serve_start: "serve_run L cfg rn w0 [] [] w0"
| serve_arrive: "serve_run L cfg rn w0 tr hs w \<Longrightarrow>
    serve_run L cfg rn w0 (tr @ [Arrive v]) (hs @ [serve_steps L cfg rn v]) w"
| serve_command: "serve_run L cfg rn w0 tr hs w \<Longrightarrow> i < length hs \<Longrightarrow> lvm_step L (hs ! i) w h w' \<Longrightarrow>
    serve_run L cfg rn w0 (tr @ [Command i]) (hs[i := h]) w'"

text \<open>
  \<open>acts_last A K p\<close>: whenever a command of \<open>p\<close> is its last, the states before and after it and the
  answer are in \<open>A\<close>, and otherwise the two states are in \<open>K\<close>.
\<close>

primrec acts_last ::
  "'w lvm_api \<Rightarrow> ('a \<Rightarrow> 'w \<Rightarrow> 'w \<Rightarrow> bool) \<Rightarrow> ('w \<Rightarrow> 'w \<Rightarrow> bool) \<Rightarrow> 'a lvm_prog \<Rightarrow> bool" where
  "acts_last L A K (LvmRet x) = True"
| "acts_last L A K (LvmVgFromId g k) = (\<forall>w. acts_last L A K (k (vg_from_id L g w)) \<and>
     (case k (vg_from_id L g w) of LvmRet x \<Rightarrow> A x w w | _ \<Rightarrow> K w w))"
| "acts_last L A K (LvmListLvs vg k) = (\<forall>w. acts_last L A K (k (vg_list_lvs L vg w)) \<and>
     (case k (vg_list_lvs L vg w) of LvmRet x \<Rightarrow> A x w w | _ \<Rightarrow> K w w))"
| "acts_last L A K (LvmAddLv vg opt k) = (\<forall>w r w'. vg_add_lv L vg opt w = (r, w') \<longrightarrow>
     acts_last L A K (k r) \<and> (case k r of LvmRet x \<Rightarrow> A x w w' | _ \<Rightarrow> K w w'))"
| "acts_last L A K (LvmRemoveLv vg n k) = (\<forall>w r w'. vg_remove_lv L vg n w = (r, w') \<longrightarrow>
     acts_last L A K (k r) \<and> (case k r of LvmRet x \<Rightarrow> A x w w' | _ \<Rightarrow> K w w'))"
| "acts_last L A K (LvmFromId g n k) = (\<forall>w. acts_last L A K (k (lv_from_id L g n w)) \<and>
     (case k (lv_from_id L g n w) of LvmRet x \<Rightarrow> A x w w | _ \<Rightarrow> K w w))"
| "acts_last L A K (LvmFromUuid u k) = (\<forall>w. acts_last L A K (k (lv_from_uuid L u w)) \<and>
     (case k (lv_from_uuid L u w) of LvmRet x \<Rightarrow> A x w w | _ \<Rightarrow> K w w))"
| "acts_last L A K (LvmMkfs p k) = (\<forall>w r w'. mkfs_xfs L p w = (r, w') \<longrightarrow>
     acts_last L A K (k r) \<and> (case k r of LvmRet x \<Rightarrow> A x w w' | _ \<Rightarrow> K w w'))"

lemma acts_last_step:
  "lvm_step L p w p' w' \<Longrightarrow> acts_last L A K p \<Longrightarrow>
     acts_last L A K p' \<and> (case p' of LvmRet x \<Rightarrow> A x w w' | _ \<Rightarrow> K w w')"
  by (induction rule: lvm_step.induct) (simp_all, blast?)

text \<open>Every handler acts with its last command, and not before.\<close>

abbreviation handler_acts ::
  "'w lvm_api \<Rightarrow> 'w lvm_observers \<Rightarrow> string \<Rightarrow> vol_call \<Rightarrow> volumed_reply outcome lvm_prog \<Rightarrow> bool" where
  "handler_acts L V rn v \<equiv>
     acts_last L (\<lambda>out w w'. store_answers v out (vol_view V rn w) (vol_view V rn w'))
       (\<lambda>w w'. vol_view V rn w' = vol_view V rn w)"

lemma view_added:
  assumes "lvm_laws L V" and "vg_add_lv L vg opt w = (Inr l, w')" and "vg_name vg = rn"
  shows "vol_view V rn w (opt_name opt) = None \<and> lvl_name l = opt_name opt \<and>
    opt_capacity_bytes opt \<le> lvl_capacity_bytes l \<and>
    vol_view V rn w' = (vol_view V rn w)(opt_name opt \<mapsto> lv_into l)"
proof -
  from lvm_add_ok [OF assms(1,2)] assms(3)
  have "obs_lv V w rn (opt_name opt) = None" "opt_capacity_bytes opt \<le> lvl_capacity_bytes l"
    "obs_lv V w' = (obs_lv V w)(rn := (obs_lv V w rn)(opt_name opt \<mapsto> l))" by simp_all
  moreover from this have "lvl_name l = opt_name opt"
    using lvm_obs [OF assms(1), of w' rn "opt_name opt" l] by simp
  ultimately show ?thesis by (auto simp: vol_view_def)
qed

lemma view_removed:
  assumes "lvm_laws L V" and "vg_remove_lv L vg n w = (Inr u, w')" and "vg_name vg = rn"
  shows "vol_view V rn w' = (vol_view V rn w)(n := None)"
  using lvm_remove_ok [OF assms(1,2)] assms(3) by (auto simp: vol_view_def)

lemma view_same: "obs_lv V w' = obs_lv V w \<Longrightarrow> vol_view V rn w' = vol_view V rn w"
  by (simp add: vol_view_def fun_eq_iff)

lemma view_looked_up:
  assumes "lvm_laws L V"
  shows "lv_from_id L rn n w = Inr l \<Longrightarrow> vol_view V rn w n = Some (lv_into l)"
    and "lv_from_id L rn n w = Inl e \<Longrightarrow> st_code (map_lvm_error e) = NotFound \<Longrightarrow> vol_view V rn w n = None"
  using lvm_found [OF assms] lvm_not_found [OF assms] map_lvm_error_NotFound by (auto simp: vol_view_def)

lemmas store_views = view_added view_removed view_same [OF lvm_add_err] view_same [OF lvm_remove_err]
  view_same [OF lvm_mkfs [THEN conjunct1]]

lemma acts_last_inject:
  assumes "\<And>vg w. vg_from_id L rn w = Inr vg \<Longrightarrow> vg_name vg = rn \<Longrightarrow>
      acts_last L A K (map_lvm_prog f (handler (set_extension vg (new_request m)))) \<and>
      (case map_lvm_prog f (handler (set_extension vg (new_request m))) of LvmRet x \<Rightarrow> A x w w | _ \<Rightarrow> K w w)"
    and "\<And>w g. A (f (Fail (Status Internal g))) w w" and "lvm_laws L V"
  shows "acts_last L A K (map_lvm_prog f (inject_steps cfg rn handler m))"
  using assms(1) assms(2) lvm_vg [OF assms(3)]
  by (auto simp: inject_steps_def lvm_fail_def split: sum.splits)

lemma serve_steps_act:
  assumes laws: "lvm_laws L V"
  shows "handler_acts L V rn v (serve_steps L cfg rn v)"
    (is "acts_last L ?A ?K _")
proof (cases v)
  case AskLvList
  show ?thesis unfolding AskLvList serve_steps.simps
    by (rule acts_last_inject [OF _ _ laws])
      (auto simp: get_lv_list_steps_def lvm_fail_def map_err_def split: sum.splits)
next
  case AskFreeBytes
  show ?thesis unfolding AskFreeBytes serve_steps.simps
    by (rule acts_last_inject [OF _ _ laws]) (auto simp: get_free_bytes_steps_def get_free_bytes_def u64_of_usize_def)
next
  case (AskCreate q)
  have "acts_last L ?A ?K (map_lvm_prog (map_outcome LvReply) (create_steps L (set_extension vg (new_request q)))) \<and>
      (case map_lvm_prog (map_outcome LvReply) (create_steps L (set_extension vg (new_request q))) of
         LvmRet x \<Rightarrow> ?A x w w | _ \<Rightarrow> ?K w w)" if "vg_name vg = rn" for vg w
  proof (cases "resource_capacity L (clr_capacity q)")
    case (Inr c)
    then have c: "resource_capacity L (clr_capacity q) = Inr (clr_capacity q)"
      using lvm_capacity [OF laws Inr] by simp
    show ?thesis
    proof (cases "resource_name L (clr_name q)")
      case (Inr n)
      then have "resource_name L (clr_name q) = Inr (clr_name q)" using lvm_name [OF laws Inr] by simp
      with c AskCreate view_added [OF laws _ that] view_same [OF lvm_add_err [OF laws]] show ?thesis
        by (force simp: create_steps_def lvm_fail_def split: sum.splits)
    qed (use c AskCreate in \<open>simp add: create_steps_def lvm_fail_def\<close>)
  qed (use AskCreate in \<open>simp add: create_steps_def lvm_fail_def\<close>)
  then show ?thesis unfolding AskCreate serve_steps.simps
    by (intro acts_last_inject [OF _ _ laws]) simp_all
next
  case (AskDelete q)
  have "acts_last L ?A ?K (map_lvm_prog (map_outcome DoneReply) (delete_steps L (set_extension vg (new_request q)))) \<and>
      (case map_lvm_prog (map_outcome DoneReply) (delete_steps L (set_extension vg (new_request q))) of
         LvmRet x \<Rightarrow> ?A x w w | _ \<Rightarrow> ?K w w)" if "vg_name vg = rn" for vg w
  proof (cases "resource_name L (dlr_name q)")
    case (Inr n)
    then have "resource_name L (dlr_name q) = Inr (dlr_name q)" using lvm_name [OF laws Inr] by simp
    with AskDelete view_removed [OF laws _ that] view_same [OF lvm_remove_err [OF laws]] show ?thesis
      by (force simp: delete_steps_def lvm_fail_def split: sum.splits)
  qed (use AskDelete in \<open>simp add: delete_steps_def lvm_fail_def\<close>)
  then show ?thesis unfolding AskDelete serve_steps.simps
    by (intro acts_last_inject [OF _ _ laws]) simp_all
next
  case (AskFormat q)
  show ?thesis unfolding AskFormat serve_steps.simps
    by (rule acts_last_inject [OF _ _ laws])
      (auto simp: format_steps_def lvm_fail_def map_err_def split: sum.splits
        dest: view_same [OF lvm_mkfs [OF laws, THEN conjunct1]])
next
  case (AskLv q)
  show ?thesis unfolding AskLv serve_steps.simps
    by (rule acts_last_inject [OF _ _ laws])
      (auto simp: get_steps_def found_lv_def lvm_fail_def map_err_def split: sum.splits option.splits lv_identifier.splits
        dest: lvm_name [OF laws] lvm_uuid [OF laws] lvm_by_uuid [OF laws] view_looked_up [OF laws])
qed

lemma serve_steps_open: "serve_steps L cfg rn v \<noteq> LvmRet out"
  by (cases v) (simp_all add: inject_steps_def)

section \<open>volumed is a store\<close>

text \<open>The part of a handler is over in the store exactly when the handler has ended.\<close>

definition served_alike ::
  "'w lvm_api \<Rightarrow> 'w lvm_observers \<Rightarrow> string \<Rightarrow> vol_call \<times> volumed_reply outcome option \<Rightarrow>
     volumed_reply outcome lvm_prog \<Rightarrow> bool" where
  "served_alike L V rn c h \<longleftrightarrow> handler_acts L V rn (fst c) h \<and> (\<forall>out. h = LvmRet out \<longleftrightarrow> snd c = Some out)"

lemma served_alike_open:
  assumes "served_alike L V rn c h" and "lvm_step L h w h' w'"
  shows "c = (fst c, None)"
proof -
  have "h \<noteq> LvmRet out" for out using assms(2) by (cases rule: lvm_step.cases) auto
  with assms(1) show ?thesis by (cases c; cases "snd c") (auto simp: served_alike_def)
qed

lemma store_follows:
  assumes "serve_run L cfg rn w0 tr hs w" and laws: "lvm_laws L V"
  shows "\<exists>cs. store_run (vol_view V rn w0) tr cs (vol_view V rn w) \<and> list_all2 (served_alike L V rn) cs hs"
  using assms(1)
proof (induction rule: serve_run.induct)
  case serve_start
  then show ?case by (intro exI [of _ "[]"]) (simp add: store_start)
next
  case (serve_arrive tr hs w v)
  then obtain cs where cs: "store_run (vol_view V rn w0) tr cs (vol_view V rn w)"
    "list_all2 (served_alike L V rn) cs hs" by blast
  have "served_alike L V rn (v, None) (serve_steps L cfg rn v)"
    by (simp add: served_alike_def serve_steps_act [OF laws] serve_steps_open)
  with cs show ?case
    by (intro exI [of _ "cs @ [(v, None)]"]) (simp add: store_arrive list_all2_appendI)
next
  case (serve_command tr hs w i h w')
  then obtain cs where cs: "store_run (vol_view V rn w0) tr cs (vol_view V rn w)"
    "list_all2 (served_alike L V rn) cs hs" by blast
  with serve_command(2) have i: "i < length cs" and alike: "served_alike L V rn (cs ! i) (hs ! i)"
    by (auto dest: list_all2_lengthD list_all2_nthD2)
  obtain v where c: "cs ! i = (v, None)" using served_alike_open [OF alike serve_command(3)] by metis
  from acts_last_step [OF serve_command(3)] alike c
  have acts: "handler_acts L V rn v h" and last: "case h of
      LvmRet out \<Rightarrow> store_answers v out (vol_view V rn w) (vol_view V rn w')
    | _ \<Rightarrow> vol_view V rn w' = vol_view V rn w" by (auto simp: served_alike_def)
  show ?case
  proof (cases "\<exists>out. h = LvmRet out")
    case True
    then obtain out where out: "h = LvmRet out" ..
    with last have "store_answers v out (vol_view V rn w) (vol_view V rn w')" by simp
    from store_answer [OF cs(1) i c this]
    have "store_run (vol_view V rn w0) (tr @ [Command i]) (cs[i := (v, Some out)]) (vol_view V rn w')" .
    moreover have "served_alike L V rn (v, Some out) h" using out by (auto simp: served_alike_def)
    then have "list_all2 (served_alike L V rn) (cs[i := (v, Some out)]) (hs[i := h])"
      using cs(2) by (intro list_all2_update_cong)
    ultimately show ?thesis by blast
  next
    case False
    then have "vol_view V rn w' = vol_view V rn w" using last by (cases h) simp_all
    moreover have "served_alike L V rn (cs ! i) h" using acts False c by (auto simp: served_alike_def)
    then have "list_all2 (served_alike L V rn) (cs[i := cs ! i]) (hs[i := h])"
      using cs(2) by (intro list_all2_update_cong)
    ultimately show ?thesis using store_idle [OF cs(1) i c] by (intro exI [of _ cs]) simp
  qed
qed

text \<open>C20: whatever calls arrive at volumed, and however its handlers interleave, command by command:
  there is a run of the store over the same history, from the volumes of the managed group at the
  start to those at the end, in which a call has been answered exactly when its handler has
  ended, and with the same answer.  So every call takes effect at once, at one of its own
  commands: a create adds a volume under a name that was free, with at least the size asked for,
  or fails and changes nothing; a volume leaves only by a delete of its name; nothing is
  replaced or resized, by a format neither; a lookup answers the volume that was there; and no
  handler panics.\<close>

theorem volumed_refines_store:
  assumes laws: "lvm_laws L V" and run: "serve_run L cfg rn w0 tr hs w"
  shows "\<exists>cs. store_run (vol_view V rn w0) tr cs (vol_view V rn w) \<and> length cs = length hs \<and>
    (\<forall>i < length hs. \<forall>out. hs ! i = LvmRet out \<longleftrightarrow> snd (cs ! i) = Some out)"
proof -
  from store_follows [OF run laws] obtain cs
    where cs: "store_run (vol_view V rn w0) tr cs (vol_view V rn w)" "list_all2 (served_alike L V rn) cs hs"
    by blast
  then have "\<forall>i < length hs. \<forall>out. hs ! i = LvmRet out \<longleftrightarrow> snd (cs ! i) = Some out"
    using list_all2_nthD2 [OF cs(2)] unfolding served_alike_def by blast
  with cs show ?thesis by (auto dest: list_all2_lengthD)
qed

text \<open>Two creates of one name and a lookup on an empty group, with alternating commands.\<close>

definition ex_clr :: create_lv_request where
  "ex_clr = \<lparr>clr_name = ''3'', clr_capacity = 536870912, clr_tags = []\<rparr>"

definition ex_history :: "serving list" where
  "ex_history = [Arrive (AskCreate ex_clr), Arrive (AskCreate ex_clr), Command 0, Command 1, Command 1, Command 0]"

text \<open>The handler of \<open>ex_clr\<close> after its lookup of the group.\<close>

definition ex_adding :: "volumed_reply outcome lvm_prog" where
  "ex_adding = map_lvm_prog (map_outcome LvReply)
     (create_steps mem_lvm (set_extension \<lparr>vg_name = ''vg0'', vg_capacity_bytes = 10737418240\<rparr> (new_request ex_clr)))"

lemma ex_group_looked_up:
  "lvm_step mem_lvm (serve_steps mem_lvm ex_cfg ''vg0'' (AskCreate ex_clr)) ex_empty ex_adding ex_empty"
proof -
  have "vg_from_id mem_lvm ''vg0'' ex_empty = Inr \<lparr>vg_name = ''vg0'', vg_capacity_bytes = 10737418240\<rparr>"
    by (simp add: mem_lvm_def ex_empty_def)
  then show ?thesis by (simp add: inject_steps_def lvm_step_simps ex_adding_def)
qed

lemma ex_added:
  "lvm_step mem_lvm ex_adding ex_empty (LvmRet (Reply (LvReply (lv_into ex_lv)))) ex_made"
  "lvm_step mem_lvm ex_adding ex_made (LvmRet (Fail (Status InvalidArgument ''already exists''))) ex_made"
proof -
  let ?vg = "\<lparr>vg_name = ''vg0'', vg_capacity_bytes = 10737418240\<rparr>"
  let ?opt = "\<lparr>opt_activate = True, opt_capacity_bytes = 536870912, opt_name = ''3'', opt_tags = []\<rparr>"
  obtain k where adding: "ex_adding = LvmAddLv ?vg ?opt k"
    and k: "\<And>l. k (Inr l) = LvmRet (Reply (LvReply (lv_into l)))" "\<And>e. k (Inl e) = LvmRet (Fail (map_lvm_error e))"
    by (simp add: ex_adding_def create_steps_def ex_clr_def mem_lvm_def lvm_fail_def)
  have "vg_add_lv mem_lvm ?vg ?opt ex_empty = (Inr ex_lv, ex_made)"
    "vg_add_lv mem_lvm ?vg ?opt ex_made = (Inl (LvmCommand ''already exists''), ex_made)"
    by (simp_all add: mem_eval ex_defs ex_made_def Let_def show_radix_0)
  from this [THEN lvm_step_add, of k]
  show "lvm_step mem_lvm ex_adding ex_empty (LvmRet (Reply (LvReply (lv_into ex_lv)))) ex_made"
    "lvm_step mem_lvm ex_adding ex_made (LvmRet (Fail (Status InvalidArgument ''already exists''))) ex_made"
    by (simp_all add: adding k map_lvm_error_def)
qed

lemma ex_served:
  "serve_run mem_lvm ex_cfg ''vg0'' ex_empty ex_history
     [LvmRet (Fail (Status InvalidArgument ''already exists'')), LvmRet (Reply (LvReply (lv_into ex_lv)))] ex_made"
proof -
  let ?h = "serve_steps mem_lvm ex_cfg ''vg0'' (AskCreate ex_clr)"
  note go = serve_command [where L = mem_lvm and cfg = ex_cfg and rn = "''vg0''" and ?w0.0 = ex_empty]
  have "serve_run mem_lvm ex_cfg ''vg0'' ex_empty [Arrive (AskCreate ex_clr), Arrive (AskCreate ex_clr)] [?h, ?h] ex_empty"
    using serve_arrive [OF serve_arrive [OF serve_start, where v = "AskCreate ex_clr"], where v = "AskCreate ex_clr"]
    by simp
  from go [OF this, of 0, OF _ _] ex_group_looked_up
  have "serve_run mem_lvm ex_cfg ''vg0'' ex_empty
      [Arrive (AskCreate ex_clr), Arrive (AskCreate ex_clr), Command 0] [ex_adding, ?h] ex_empty" by simp
  from go [OF this, of 1, OF _ _] ex_group_looked_up
  have "serve_run mem_lvm ex_cfg ''vg0'' ex_empty
      [Arrive (AskCreate ex_clr), Arrive (AskCreate ex_clr), Command 0, Command 1] [ex_adding, ex_adding] ex_empty"
    by simp
  from go [OF this, of 1, OF _ _] ex_added(1)
  have "serve_run mem_lvm ex_cfg ''vg0'' ex_empty
      [Arrive (AskCreate ex_clr), Arrive (AskCreate ex_clr), Command 0, Command 1, Command 1]
      [ex_adding, LvmRet (Reply (LvReply (lv_into ex_lv)))] ex_made" by simp
  from go [OF this, of 0, OF _ _] ex_added(2) show ?thesis by (simp add: ex_history_def)
qed

theorem volumed_refines_store_witness:
  "\<exists>cs. store_run (ex_view ex_empty) ex_history cs (ex_view ex_made) \<and>
    snd (cs ! 0) = Some (Fail (Status InvalidArgument ''already exists'')) \<and>
    snd (cs ! 1) = Some (Reply (LvReply (lv_into ex_lv)))"
proof -
  obtain cs where cs: "store_run (ex_view ex_empty) ex_history cs (ex_view ex_made)"
    and answers: "\<forall>i < length [LvmRet (Fail (Status InvalidArgument ''already exists'')),
        LvmRet (Reply (LvReply (lv_into ex_lv)))]. \<forall>out.
      [LvmRet (Fail (Status InvalidArgument ''already exists'')), LvmRet (Reply (LvReply (lv_into ex_lv)))] ! i =
        LvmRet out \<longleftrightarrow> snd (cs ! i) = Some out"
    using volumed_refines_store [OF mem_laws ex_served] by blast
  from answers [rule_format, of 0 "Fail (Status InvalidArgument ''already exists'')"]
    answers [rule_format, of 1 "Reply (LvReply (lv_into ex_lv))"] cs
  show ?thesis by (intro exI [of _ cs]) simp
qed

end
