(* ===== verification/Spec2Isabelle.thy ===== *)
theory Spec2Isabelle
  imports Listing Startup Volumed_Store
begin

text \<open>
  rlvm: a CSI plugin (Container Storage Interface) that provisions logical volumes of one LVM
  volume group, in four Rust programs.

  The programs, and how they interact.  volumed (crates/volumed) runs as root and serves the
  protocol of protos/volumed.proto on a Unix socket: list, create, delete, format and look up
  logical volumes of the group its configuration names.  The controller plugin
  (crates/csi/src/bin/controller.rs, controller.rs) serves the CSI controller service and is a
  client of volumed.  mountd (crates/mountd) runs as root and serves protos/mountd.proto: the
  device path of a volume, mount and unmount, for the paths its configuration allows.  The
  node plugin (bin/node.rs, node.rs) serves the CSI node service and is a client of mountd.
  Both plugins serve the CSI identity service (identity.rs).  An interceptor puts the client,
  or in volumed the volume group, into the extensions of every request.

  The theories.
  \<^item> \<open>Prelude\<close>: the integer types as words, with Rust's checked, wrapping and fallible
    conversions; \<open>Option\<close> and \<open>Result\<close> combinators; \<open>tonic::Status\<close>; how a handler ends
    (\<open>Reply\<close>, \<open>Fail\<close>, \<open>Panic\<close>); requests with their extension.
  \<^item> \<open>Rust_Std\<close>: printing and parsing of unsigned integers, equality of paths by components,
    string maps; printing and parsing agree, hexadecimal printing is injective.
  \<^item> \<open>Csi\<close>: the messages of protos/csi.proto the plugins use; MIN_VOLUME_SIZE_BYTES.
  \<^item> \<open>Volume_Service\<close>: the protocol of volumed.  A handler that calls volumed is the tree of its
    awaited calls (\<open>vol_prog\<close>), run in sequence (\<open>run_vol\<close>) or interleaved with others at the
    awaits (\<open>vol_reach\<close>, and \<open>vol_sched\<close> for a given schedule).  The contract of the service is
    the locales \<open>volume_lookup\<close>, \<open>volume_service\<close> and \<open>reliable_volume_service\<close>.
  \<^item> \<open>Calls\<close>: the call a program awaits, conditions on the calls and the result of every path
    through a program with a bound on their number, lost calls.
  \<^item> \<open>Volumed\<close>: server.rs, lib.rs and the start-up of main.rs of crates/volumed, one definition
    per handler; volumed interprets the three locales.
  \<^item> \<open>Controller\<close>: every handler of controller.rs, each helper and the interceptor; what creating
    and deleting do to any server that keeps the contract.
  \<^item> \<open>Mount_Service\<close>, \<open>Mountd\<close>, \<open>Node\<close>: the same for mountd and the node plugin; the contract is
    the locale \<open>mount_service\<close> over the table of mounts, which mountd interprets.
  \<^item> \<open>Mountd_Steps\<close>: the mount and unmount handlers a second time, as sequences of single system
    calls (\<open>os_prog\<close>), since the threads of mountd run them without a lock; \<open>os_reach\<close> is the
    step relation of several requests, \<open>os_sched\<close> a run under a given schedule.
  \<^item> \<open>Identity\<close>: identity.rs.  \<open>Controller_Plugin\<close>, \<open>Node_Plugin\<close>: all RPCs a plugin serves, as
    one program each (\<open>controller_serve\<close>, \<open>node_serve\<close>), with the requests an RPC may send.
  \<^item> \<open>Controller_System\<close>: the controller plugin and volumed as an open system (\<open>plugin_run\<close>): RPCs
    arrive at any time, handlers interleave at their calls, calls and answers may be lost, and a
    handler may be dropped.
  \<^item> \<open>Volumed_Steps\<close>: the handlers of volumed a second time, as sequences of single LVM commands
    (\<open>lvm_prog\<close>), since its threads run them without a lock.  \<open>Volumed_Interleaving\<close>: the open
    system at this grain (steps \<open>stack_step\<close>, runs \<open>stack_run\<close>): the plugin's handlers, the handlers
    of volumed they await, and those that run on after their client has given the call up, with
    what each may ask for, write and answer (\<open>stack_ok\<close>).  \<open>Volumed_Store\<close>: volumed at this grain, for
    any clients (\<open>serve_run\<close>), and the atomic store of named volumes it implements (\<open>store_run\<close>,
    \<open>store_answers\<close>).  \<open>Volume_Data\<close>: the devices and their data.
  \<^item> \<open>Node_System\<close>: the node plugin and mountd as an open system (\<open>node_step\<close>, \<open>node_system\<close>), call
    by call of the operating system, with requests that run on after they have been given up.
  \<^item> \<open>Whole_System\<close>: both open systems on one world (\<open>whole_run\<close>), each an environment (\<open>env\<close>, what
    other programs do on the host) of the other.
  \<^item> \<open>Daemon\<close>: the four \<open>main\<close> functions, as the order of their steps.  \<open>Programs\<close>: their command
    lines with the default values, and the programs started from them.  \<open>Startup\<close>: from the
    command line of volumed to what it serves.
  \<^item> \<open>Provisioning\<close>, \<open>Interleaving\<close>, \<open>Listing\<close>, \<open>Serving\<close>, \<open>Mounting\<close>, \<open>Mount_Interleaving\<close>,
    \<open>Staging\<close>, this theory and those of the systems, plugins and programs: the properties.
    \<open>Mem_Lvm\<close>, \<open>Mem_Os\<close>, \<open>Paired_World\<close> and \<open>Example_Inputs\<close>: concrete instances of the
    parameters, which satisfy the laws, and the inputs of the witnesses.

  Parameters and what is asked of them.  lvm2_cmd and mkfs.xfs are the record \<open>lvm_api\<close> over a
  world, with \<open>lvm_laws\<close> (names are unique in a group, a create takes a free name and gives at
  least the size asked for, a remove takes the named volume only, mkfs empties the device, an
  operation that fails has no effect), \<open>lvm_reliable\<close> (lookups answer) and, for what is said of
  the data on volumes, \<open>lvm_devices\<close> (a volume's device is given by its name, and a command
  touches the data of the volume it names only).  Mounting, paths, globs and users are the
  record \<open>os_api\<close> with \<open>os_laws\<close> (a mount adds an entry to the table, with the type and options it
  is given or, as mount(2) documents for \<open>MS_BIND\<close>, those of the mount its source lies in, which
  \<open>obs_beneath\<close> observes; an unmount removes the last entry of its mount point).  For the race of
  two bind mounts \<open>bind_reliable\<close> says when a bind mount succeeds: of a directory on a directory,
  other than a second time of the same source on the same target.  tokio, ctrlc and tonic's server are the record \<open>daemon_api\<close>.  The
  digest of \<open>DefaultHasher\<close>, the texts of \<open>Display\<close> and \<open>Debug\<close> and the overflow checks of the build
  are \<open>ctl_env\<close>.  A client whose server panicked gets a status of its own (\<open>lost\<close>).  The node plugin
  sees the files of the host as mountd does.  \<open>usize\<close> is 64 bits wide; strings are lists of
  characters, so that \<open>to_string_lossy\<close> is the identity.

  Bounds and fuel.  All loops of the code are over lists and are \<open>map\<close>, \<open>find\<close> or \<open>take\<close>.  The only
  fuel is that of \<open>read_pages\<close>, a client that follows page tokens, and the theorem about it
  holds for every fuel.  A handler of the controller makes at most four calls (\<open>call_bound\<close>),
  which are all it needs to end.

  The groups of properties.  \<open>Provisioning\<close>: what CreateVolume and DeleteVolume do to the group,
  and what CreateVolume overlooks in a request.
  \<open>Interleaving\<close>: any schedule of concurrent calls, by a rely-guarantee argument.
  \<open>Controller_System\<close>: the calls of every RPC and their end, the race of two deletes with a create.
  \<open>Volumed_Interleaving\<close>: what the plugin asks of volumed and which volumes there may be, for the
  open system at the grain of LVM commands (its coarser form is shown to be one of its
  behaviours, for the witnesses).  \<open>Volumed_Store\<close>: interleaved handlers of volumed refine the
  store, each call taking effect at one of its own commands.
  \<open>Volume_Data\<close>: whose data may be overwritten or removed, and a format that comes late.
  \<open>Listing\<close>: pages, capacity, validation, rejected requests.  \<open>Serving\<close>, \<open>Startup\<close>: the group and the
  free space volumed answers for, absence of panics.  \<open>Mounting\<close>: which mounts mountd makes, and
  which options they have, those of bind mounts being none of its own.  \<open>Mountd_Steps\<close>,
  \<open>Mount_Interleaving\<close>: the same call by call, under every interleaving, which mounts may be gone,
  and the race of two mounts.  \<open>Staging\<close>, \<open>Node_Plugin\<close>: the life of a volume on a node, with a
  publish that is as writable as the stage, and the requests of the node plugin.  \<open>Node_System\<close>:
  which mounts there may be, and which may be gone.  \<open>Whole_System\<close>: a mount is traced back to the
  CreateVolume of its volume, and a volume in use stays in use until a request names it.
  \<open>Daemon\<close>, \<open>Programs\<close>: socket files and node ids.  This theory: from a created volume to a mounted one and back,
  through all four programs.

  Not modelled: clap's parsing of arguments (what it has parsed is an argument here), logging, the
  bytes on the sockets and the generated protobuf code (the messages are data here), the build
  scripts, the Nix files, and fields of the CSI messages that no code of the plugins reads.  The
  system calls inside one LVM command are one step, and the server loop of tonic is one step of
  the life of a program; the systems model what it does with RPCs.  The properties of this theory
  take each RPC of volumed and mountd as one step.
\<close>

section \<open>Readiness\<close>

text \<open>The probe of the controller plugin answers ready when volumed reports its free bytes,
  and leaves readiness out otherwise, never answering that it is not ready; the probe of the
  node plugin answers ready without asking mountd.\<close>

lemma probe_readiness:
  "run_vol (controller_rpc (probe (identity_new ControllerVerifier)) m) srv s =
     (Reply \<lparr>probe_ready = (case fst (sv_get_free_bytes srv s) of Inl _ \<Rightarrow> None | Inr _ \<Rightarrow> Some True)\<rparr>,
      snd (sv_get_free_bytes srv s)) \<and>
   node_identity_rpc (probe (identity_new NodeVerifier)) m = VRet (Reply \<lparr>probe_ready = Some True\<rparr>)"
  by (cases "sv_get_free_bytes srv s"; cases "fst (sv_get_free_bytes srv s)")
    (simp_all add: controller_rpc_eq node_identity_rpc_def inject_mount_client_def probe_def
      identity_new_def verify_def with_volume_client_def)

section \<open>From a created volume to a mounted one\<close>

text \<open>C7: a volume that CreateVolume has answered with, staged by its id on a node of the same host
  at a path that was no mount point: mountd has mounted the device of exactly that volume, the
  one of the hashed name in the managed group, whose file system was empty when the create
  ended; read-only exactly for the access mode \<open>SINGLE_NODE_READER_ONLY\<close>.\<close>

theorem created_volume_stages:
  assumes lvm: "lvm_laws L V" and os: "os_laws Os U" and unique: "uuids_unique V w1"
    and create: "run_vol (controller_rpc (create_volume E self) m) (volumed_server lost L cfg rn) w =
      (Reply \<lparr>cvs_volume = Some vol\<rparr>, w1)"
    and stage: "node_run lost' L Os mcfg node_stage_volume n w1 = (Reply (), w2)"
    and id: "nsr_volume_id n = vol_volume_id vol"
    and fresh: "\<not> listed (obs_table U w1) (nsr_staging_target_path n)"
  shows "\<exists>lv. obs_lv V w1 rn (hash_resource E (cvr_name m)) = Some lv \<and>
    lvl_uuid lv = vol_volume_id vol \<and> obs_files V w1 (lvl_path lv) = [] \<and>
    obs_table U w2 = obs_table U w1 @
      [\<lparr>me_src = lvl_path lv, me_dst = obs_resolve U w1 (nsr_staging_target_path n), me_fstype = ''xfs'',
        me_flags = (if \<exists>c am. nsr_volume_capability n = Some c \<and> cap_access_mode c = Some am \<and>
                      am_mode am = 2
                    then {RDONLY, NODEV, NOSUID} else {NODEV, NOSUID})\<rparr>]"
proof -
  let ?sn = "hash_resource E (cvr_name m)"
  from create_volume_effect_aux [OF lvm create] obtain lv
    where "vol_view V rn w1 ?sn = Some lv" and vol: "vol = process_volume self lv"
      and "vol_files V rn w1 ?sn = []"
    by (auto simp: provisioned_def)
  then obtain l where l: "obs_lv V w1 rn ?sn = Some l" "lv = lv_into l" "obs_files V w1 (lvl_path l) = []"
    by (auto simp: vol_view_def vol_files_def)
  from stage_reply [OF os stage] obtain u l'
    where u: "resource_uuid L (nsr_volume_id n) = Inr u" "lv_from_uuid L u w1 = Inr l'"
      and table: "obs_table U w2 = obs_table U w1 @
        [\<lparr>me_src = lvl_path l', me_dst = obs_resolve U w1 (nsr_staging_target_path n), me_fstype = ''xfs'',
          me_flags = (if wants_readonly (nsr_volume_capability n)
                      then {RDONLY, NODEV, NOSUID} else {NODEV, NOSUID})\<rparr>]"
    unfolding get_lvm_block_path_Reply using fresh by auto
  have same: "lvl_uuid l' = lvl_uuid l"
    using lvm_uuid [OF lvm u(1)] lvm_by_uuid [OF lvm u(2)] id vol l(2) by simp
  have found: "obs_lv V w1 (lvl_volume_group_name l') (lvl_name l') = Some l'"
    using lvm_by_uuid [OF lvm u(2)] by simp
  with l(1) same unique have "lvl_volume_group_name l' = rn \<and> lvl_name l' = ?sn"
    unfolding uuids_unique_def by blast
  with found l(1) have "l' = l" by simp
  with l table vol show ?thesis unfolding wants_readonly_iff by auto
qed

theorem created_volume_stages_witness:
  "obs_files mem_obs ex_formatted ''/dev/vg0/3'' = [] \<and>
   mos_table ex_staged = mos_table ex_host @ [\<lparr>me_src = ''/dev/vg0/3'', me_dst = ''/stage'', me_fstype = ''xfs'',
     me_flags = {NODEV, NOSUID}\<rparr>]"
proof -
  have unique: "uuids_unique (fst_lvm_obs mem_obs) (ex_formatted, ex_host)"
    by (auto simp: uuids_unique_def fst_lvm_obs_def mem_find_def ex_formatted_def ex_made_def split: if_splits)
  have id: "nsr_volume_id ex_stage = vol_volume_id (process_volume ex_ctl (lv_into ex_lv))"
    by (simp add: ex_stage_def ex_lv_def)
  have fresh: "\<not> listed (obs_table (snd_os_obs mos_obs) (ex_formatted, ex_host)) (nsr_staging_target_path ex_stage)"
    by (simp add: snd_os_obs_def listed_def paths_contain_def ex_host_def)
  have "mem_find ex_formatted ''vg0'' ''3'' = Some ex_lv"
    by (simp add: mem_find_def ex_formatted_def ex_made_def ex_lv_def)
  with created_volume_stages [OF ex_pair_laws unique ex_pair_create ex_pair_stage id fresh]
  show ?thesis
    by (simp add: fst_lvm_obs_def snd_os_obs_def ex_stage_def ex_vcap_def)
      (simp add: ex_lv_def)
qed

section \<open>The whole life of a volume\<close>

text \<open>C10: a volume that is created, staged, published, unpublished, unstaged and deleted by the id
  CreateVolume has answered with, every call a success: in the end the managed group holds
  the volumes it held and the host has the mounts it had, where the two paths denote
  themselves, are different and were no mount points, and mounting touches no logical volume
  nor LVM a mount.\<close>

theorem whole_life_of_a_volume:
  assumes laws: "lvm_laws L V" "os_laws Os U"
    and apart: "os_keeps Os (obs_lv V)" "lvm_keeps L (obs_table U)"
    and absent: "vol_view V rn w (hash_resource E (cvr_name q)) = None"
    and unique: "uuids_unique V w5"
    and canonical: "\<And>w. obs_resolve U w stage = stage" "\<And>w. obs_resolve U w target = target"
    and paths: "\<not> path_eq target stage"
      "\<not> listed (obs_table U w) stage" "\<not> listed (obs_table U w) target"
    and args: "nsr_staging_target_path m1 = stage" "npr_staging_target_path m2 = stage"
      "npr_target_path m2 = target" "nup_target_path m3 = target" "nur_staging_target_path m4 = stage"
    and create: "run_vol (controller_rpc (create_volume E self) q) (volumed_server lost L cfg rn) w =
      (Reply \<lparr>cvs_volume = Some vol\<rparr>, w1)"
    and stage: "node_run lost' L Os mcfg node_stage_volume m1 w1 = (Reply (), w2)"
    and publish: "node_run lost' L Os mcfg node_publish_volume m2 w2 = (Reply (), w3)"
    and unpublish: "node_run lost' L Os mcfg node_unpublish_volume m3 w3 = (Reply (), w4)"
    and unstage: "node_run lost' L Os mcfg node_unstage_volume m4 w4 = (Reply (), w5)"
    and found: "sv_get (volumed_server lost L cfg rn)
      \<lparr>glr_identifier = Some (Uuid (vol_volume_id vol))\<rparr> w5 = (Inr lv, w5)"
    and delete: "run_vol (controller_rpc (delete_volume E) \<lparr>dvr_volume_id = vol_volume_id vol\<rparr>)
      (volumed_server lost L cfg rn) w5 = (Reply (), w6)"
  shows "vol_view V rn w6 = vol_view V rn w \<and> obs_table U w6 = obs_table U w"
proof
  have "obs_lv V w5 = obs_lv V w1"
    using run_node_keeps [OF apart(1) stage] run_node_keeps [OF apart(1) publish]
      run_node_keeps [OF apart(1) unpublish] run_node_keeps [OF apart(1) unstage] by simp
  then show "vol_view V rn w6 = vol_view V rn w"
    by (rule create_delete_aux [OF laws(1) unique absent create _ found delete])
  have "obs_table U w1 = obs_table U w" and "obs_table U w6 = obs_table U w5"
    by (rule run_vol_keeps [OF apart(2) create], rule run_vol_keeps [OF apart(2) delete])
  moreover from this paths have "\<not> listed (obs_table U w1) stage" "\<not> listed (obs_table U w1) target"
    by simp_all
  then have "obs_table U w5 = obs_table U w1"
    using volume_lifecycle_aux [OF laws(2) canonical paths(1) _ _ args stage publish unpublish unstage] by blast
  ultimately show "obs_table U w6 = obs_table U w" by simp
qed

theorem whole_life_of_a_volume_witness:
  "ex_view (ex_formatted\<lparr>mem_lvs := []\<rparr>) = ex_view ex_empty \<and>
   mos_table (ex_unpublished\<lparr>mos_table := []\<rparr>) = mos_table ex_host"
proof -
  let ?V = "fst_lvm_obs mem_obs :: (mem \<times> mos) lvm_observers"
  let ?U = "snd_os_obs mos_obs :: (mem \<times> mos) os_observers"
  have view: "vol_view ?V rn w = vol_view mem_obs rn (fst w)" for rn w
    by (simp add: vol_view_def fst_lvm_obs_def fun_eq_iff)
  have table: "obs_table ?U w = mos_table (snd w)" for w by (simp add: snd_os_obs_def)
  have "uuids_unique ?V (ex_formatted, ex_unpublished\<lparr>mos_table := []\<rparr>)"
    by (auto simp: uuids_unique_def fst_lvm_obs_def mem_find_def ex_formatted_def ex_made_def split: if_splits)
  moreover have "\<not> path_eq ''/pod'' ''/stage''" by code_simp
  moreover have "\<not> listed (obs_table ?U (ex_empty, ex_host)) p" for p
    by (simp add: table listed_def paths_contain_def ex_host_def)
  moreover have "vol_volume_id (process_volume ex_ctl (lv_into ex_lv)) = ''uuid-0''" by (simp add: ex_lv_def)
  ultimately show ?thesis
    using whole_life_of_a_volume [OF ex_pair_laws ex_pair_keeps, of "''vg0''" "(ex_empty, ex_host)" ex_env
        "ex_create 536870912", where stage = "''/stage''" and target = "''/pod''" and lv = "lv_into ex_lv"
        and ?w6.0 = "(ex_formatted\<lparr>mem_lvs := []\<rparr>, ex_unpublished\<lparr>mos_table := []\<rparr>)", OF _ _ _ _ _ _ _ _ _ _ _ _ ex_pair_create ex_pair_stage ex_pair_publish
        ex_pair_unpublish ex_pair_unstage] ex_pair_delete
    by (simp add: view table snd_os_obs_def ex_stage_def ex_publish_def ex_unpublish_def ex_unstage_def)
qed

end
